(* ===== verification/Prelude.thy ===== *)
theory Prelude
  imports Main "HOL-Library.Word" "HOL-Library.Char_ord"
begin

text \<open>
  What the components share: the fault values that stand for the undefined behaviour of C,
  the sum-typed results that carry them, checked reads and writes of arrays, C strings, and
  the generic lemmas on lists the component proofs use.

  A C object of \<open>n\<close> bytes is a list of length \<open>n\<close>; an access outside it is a fault, never a
  default value. A NUL terminated string is a list of characters with no NUL in it; where the
  code reads the terminator it is written out.
\<close>

named_theorems fault_simps "evaluation of fault-carrying results"
named_theorems bounds_intros "in-bounds facts of the components"

section \<open>Faults and results\<close>

datatype fault =
    Write_Out_Of_Bounds   \<comment> \<open>a store outside the object\<close>
  | Read_Out_Of_Bounds    \<comment> \<open>a load outside the object\<close>
  | Null_Dereference
  | Signed_Overflow       \<comment> \<open>overflow of a signed integer\<close>
  | Misaligned_Access     \<comment> \<open>an aligned vector access at an unaligned address\<close>
  | Bad_Vararg            \<comment> \<open>\<open>va_arg\<close> with a type the argument does not have, or past the last\<close>
  | Assertion_Failed      \<comment> \<open>an assertion of the code that does not hold\<close>
  | Ctype_Domain          \<comment> \<open>a \<open>ctype.h\<close> function applied to a negative \<open>char\<close>\<close>
  | Out_Of_Range          \<comment> \<open>\<open>std::out_of_range\<close>, thrown by \<open>at\<close>\<close>
  | Dangling_Pointer      \<comment> \<open>a load through a pointer to a destroyed object\<close>
  | Usage_Error           \<comment> \<open>an access protobuf refuses with a fatal error\<close>
  | Uncaught_Exception    \<comment> \<open>an exception that no handler of the thread catches\<close>

type_synonym 'a res = "fault + 'a"

definition bindR :: "'a res \<Rightarrow> ('a \<Rightarrow> 'b res) \<Rightarrow> 'b res" where
  "bindR m f = (case m of Inl e \<Rightarrow> Inl e | Inr x \<Rightarrow> f x)"

lemma bindR_simps [simp, fault_simps]:
  "bindR (Inl e) f = Inl e"
  "bindR (Inr x) f = f x"
  by (simp_all add: bindR_def)

lemma bindR_Inr_iff: "bindR m f = Inr y \<longleftrightarrow> (\<exists>x. m = Inr x \<and> f x = Inr y)"
  by (cases m) auto

lemma bindR_Inl_iff: "bindR m f = Inl e \<longleftrightarrow> m = Inl e \<or> (\<exists>x. m = Inr x \<and> f x = Inl e)"
  by (cases m) auto

lemma bindR_assoc: "bindR (bindR m f) g = bindR m (\<lambda>x. bindR (f x) g)"
  by (cases m) auto

lemma bindR_cong [fundef_cong]:
  "m = m' \<Longrightarrow> (\<And>x. m' = Inr x \<Longrightarrow> f x = g x) \<Longrightarrow> bindR m f = bindR m' g"
  by (cases m') auto

definition assertR :: "bool \<Rightarrow> fault \<Rightarrow> unit res" where
  "assertR b e = (if b then Inr () else Inl e)"

lemma assertR_simps [simp, fault_simps]:
  "b \<Longrightarrow> assertR b e = Inr ()"
  "\<not> b \<Longrightarrow> assertR b e = Inl e"
  by (simp_all add: assertR_def)

section \<open>Checked array accesses\<close>

definition rd :: "'a list \<Rightarrow> nat \<Rightarrow> 'a res" where
  "rd xs i = (if i < length xs then Inr (xs ! i) else Inl Read_Out_Of_Bounds)"

definition wr :: "'a list \<Rightarrow> nat \<Rightarrow> 'a \<Rightarrow> 'a list res" where
  "wr xs i x = (if i < length xs then Inr (xs[i := x]) else Inl Write_Out_Of_Bounds)"

lemma rd_simps [simp, fault_simps]:
  "i < length xs \<Longrightarrow> rd xs i = Inr (xs ! i)"
  "\<not> i < length xs \<Longrightarrow> rd xs i = Inl Read_Out_Of_Bounds"
  by (simp_all add: rd_def)

lemma wr_simps [simp, fault_simps]:
  "i < length xs \<Longrightarrow> wr xs i x = Inr (xs[i := x])"
  "\<not> i < length xs \<Longrightarrow> wr xs i x = Inl Write_Out_Of_Bounds"
  by (simp_all add: wr_def)

lemma rd_Inr_iff: "rd xs i = Inr y \<longleftrightarrow> i < length xs \<and> y = xs ! i"
  by (auto simp: rd_def)

lemma wr_Inr_iff: "wr xs i x = Inr ys \<longleftrightarrow> i < length xs \<and> ys = xs[i := x]"
  by (auto simp: wr_def)

text \<open>The elements \<open>ys\<close> stored from index \<open>n\<close> on.\<close>

definition overwrite :: "nat \<Rightarrow> 'a list \<Rightarrow> 'a list \<Rightarrow> 'a list" where
  "overwrite n ys xs = take n xs @ ys @ drop (n + length ys) xs"

lemma length_overwrite [simp]: "n + length ys \<le> length xs \<Longrightarrow> length (overwrite n ys xs) = length xs"
  by (simp add: overwrite_def)

lemma overwrite_overwrite:
  "n + length ys \<le> length xs \<Longrightarrow> overwrite (n + length ys) zs (overwrite n ys xs) = overwrite n (ys @ zs) xs"
  by (simp add: overwrite_def ac_simps)

lemma overwrite_Nil [simp]: "overwrite n [] xs = xs"
  by (simp add: overwrite_def)

lemma wr_overwrite: "n < length xs \<Longrightarrow> wr xs n x = Inr (overwrite n [x] xs)"
  by (simp add: overwrite_def upd_conv_take_nth_drop)

text \<open>The same with the index of type \<open>int\<close>, for pointers the code also moves downwards.\<close>

definition rdi :: "'a list \<Rightarrow> int \<Rightarrow> 'a res" where
  "rdi xs i = (if 0 \<le> i then rd xs (nat i) else Inl Read_Out_Of_Bounds)"

definition wri :: "'a list \<Rightarrow> int \<Rightarrow> 'a \<Rightarrow> 'a list res" where
  "wri xs i x = (if 0 \<le> i then wr xs (nat i) x else Inl Write_Out_Of_Bounds)"

text \<open>A value of type \<open>int\<close>: arithmetic whose result does not fit is undefined.\<close>

definition INT_MAX :: int where
  "INT_MAX = 2147483647"

definition int32 :: "int \<Rightarrow> int res" where
  "int32 x = (if - INT_MAX - 1 \<le> x \<and> x \<le> INT_MAX then Inr x else Inl Signed_Overflow)"

section \<open>Characters and C strings\<close>

text \<open>The NUL character ends a C string; \<open>cstr s\<close> is the array that holds \<open>s\<close>.\<close>

abbreviation NUL :: char where
  "NUL \<equiv> CHR 0x00"

definition cstr :: "string \<Rightarrow> char list" where
  "cstr s = s @ [NUL]"

definition cvalid :: "string \<Rightarrow> bool" where
  "cvalid s \<longleftrightarrow> NUL \<notin> set s"

lemma cvalid_simps [simp]:
  "cvalid []"
  "cvalid (c # s) \<longleftrightarrow> c \<noteq> NUL \<and> cvalid s"
  "cvalid (s @ t) \<longleftrightarrow> cvalid s \<and> cvalid t"
  by (auto simp: cvalid_def)

text \<open>The value of a plain \<open>char\<close> as an \<open>int\<close>: signed, as on the x86 compilers the code targets.\<close>

definition schar :: "char \<Rightarrow> int" where
  "schar c = (let n = int (of_char c) in if n < 128 then n else n - 256)"

text \<open>The classification functions of \<open>ctype.h\<close> in the C locale.\<close>

definition isupper :: "char \<Rightarrow> bool" where
  "isupper c \<longleftrightarrow> (65::nat) \<le> of_char c \<and> (of_char c :: nat) \<le> 90"

definition islower :: "char \<Rightarrow> bool" where
  "islower c \<longleftrightarrow> (97::nat) \<le> of_char c \<and> (of_char c :: nat) \<le> 122"

definition isdigit :: "char \<Rightarrow> bool" where
  "isdigit c \<longleftrightarrow> (48::nat) \<le> of_char c \<and> (of_char c :: nat) \<le> 57"

definition isalnum :: "char \<Rightarrow> bool" where
  "isalnum c \<longleftrightarrow> isupper c \<or> islower c \<or> isdigit c"

definition isspace :: "char \<Rightarrow> bool" where
  "isspace c \<longleftrightarrow> of_char c = (32::nat) \<or> ((9::nat) \<le> of_char c \<and> (of_char c :: nat) \<le> 13)"

definition tolower :: "char \<Rightarrow> char" where
  "tolower c = (if isupper c then char_of (of_char c + 32 :: nat) else c)"

definition toupper :: "char \<Rightarrow> char" where
  "toupper c = (if islower c then char_of (of_char c - 32 :: nat) else c)"

text \<open>
  The same functions applied to a plain \<open>char\<close>: they are defined for the values of
  \<open>unsigned char\<close> only, so a negative one is a fault.
\<close>

definition ctypeR :: "(char \<Rightarrow> 'a) \<Rightarrow> char \<Rightarrow> 'a res" where
  "ctypeR f c = (if schar c < 0 then Inl Ctype_Domain else Inr (f c))"

definition ascii :: "char \<Rightarrow> bool" where
  "ascii c \<longleftrightarrow> (of_char c :: nat) < 128"

lemma ctypeR_ascii [simp, fault_simps]: "ascii c \<Longrightarrow> ctypeR f c = Inr (f c)"
  by (simp add: ctypeR_def ascii_def schar_def Let_def)

lemma schar_ascii: "ascii c \<Longrightarrow> schar c = int (of_char c)"
  by (simp add: ascii_def schar_def Let_def)

text \<open>Texts joined by a separator.\<close>

definition joined :: "string \<Rightarrow> string list \<Rightarrow> string" where
  "joined sep xs = (case xs of [] \<Rightarrow> [] | x # xs \<Rightarrow> x @ concat (map (\<lambda>y. sep @ y) xs))"

lemma joined_simps [simp]:
  "joined sep [] = []"
  "joined sep (x # xs) = x @ concat (map (\<lambda>y. sep @ y) xs)"
  by (simp_all add: joined_def)

lemma concat_separated: "xs \<noteq> [] \<Longrightarrow> concat (map (\<lambda>y. sep @ y) xs) = sep @ joined sep xs"
  by (cases xs) simp_all

lemma cvalid_concat: "cvalid (concat xs) \<longleftrightarrow> list_all cvalid xs"
  by (induction xs) simp_all

lemma cvalid_joined: "cvalid sep \<Longrightarrow> list_all cvalid xs \<Longrightarrow> cvalid (joined sep xs)"
  by (cases xs) (auto simp: cvalid_concat list_all_iff)

lemma of_char_eq_0_iff: "(of_char c :: nat) = 0 \<longleftrightarrow> c = NUL"
  using of_char_eq_iff [where 'a = nat, of c NUL] by simp

end
