(* ===== verification/Fast_Memcpy.thy ===== *)
theory Fast_Memcpy
  imports Prelude
begin

text \<open>
  \<open>src/src/base/fast_memcpy.h\<close>: the SSE2 memory copy. Memory is a map from addresses to cells
  (the cell type is a parameter: the code only moves bytes). Every load and store of the code is
  one \<open>load\<close> or \<open>store\<close> of its width, in the order of the source; the aligned intrinsics
  (\<open>_mm_load_si128\<close>, \<open>_mm_store_si128\<close>, \<open>_mm_stream_si128\<close>) fault at an address that is not a
  multiple of 16. Prefetches and the store fence change no memory and are left out.

  The jump table of \<open>memcpy_tiny\<close> is data: one list of copy instructions per \<open>case\<close> label.
  The lemmas show that for regions that do not overlap the copy is exact, touches nothing
  else and never makes a misaligned vector access.
\<close>

unbundle bit_operations_syntax

type_synonym 'b mem = "nat \<Rightarrow> 'b"

section \<open>Loads and stores\<close>

definition load :: "'b mem \<Rightarrow> nat \<Rightarrow> nat \<Rightarrow> 'b list" where
  "load m a n = map m [a..<a + n]"

definition store :: "'b mem \<Rightarrow> nat \<Rightarrow> 'b list \<Rightarrow> 'b mem" where
  "store m a bs = (\<lambda>x. if a \<le> x \<and> x < a + length bs then bs ! (x - a) else m x)"

lemma length_load [simp]: "length (load m a n) = n"
  by (simp add: load_def)

lemma nth_load [simp]: "i < n \<Longrightarrow> load m a n ! i = m (a + i)"
  by (simp add: load_def)

lemma store_append: "store (store m a bs) (a + length bs) cs = store m a (bs @ cs)"
  by (auto simp: store_def fun_eq_iff nth_append)

lemma load_append: "load m a j @ load m (a + j) k = load m a (j + k)"
  unfolding load_def by (metis add.assoc le_add1 map_append upt_add_eq_append)

text \<open>One SSE register is 16 bytes.\<close>

abbreviation load16 :: "'b mem \<Rightarrow> nat \<Rightarrow> 'b list" where
  "load16 m a \<equiv> load m a 16"

definition memcpy_sse2_16 :: "'b mem \<Rightarrow> nat \<Rightarrow> nat \<Rightarrow> 'b mem" where
  "memcpy_sse2_16 m dst src =
     (let m0 = load16 m (src + 0)
      in store m (dst + 0) m0)"

definition memcpy_sse2_32 :: "'b mem \<Rightarrow> nat \<Rightarrow> nat \<Rightarrow> 'b mem" where
  "memcpy_sse2_32 m dst src =
     (let m0 = load16 m (src + 0);
          m1 = load16 m (src + 16);
          m = store m (dst + 0) m0
      in store m (dst + 16) m1)"

definition memcpy_sse2_64 :: "'b mem \<Rightarrow> nat \<Rightarrow> nat \<Rightarrow> 'b mem" where
  "memcpy_sse2_64 m dst src =
     (let m0 = load16 m (src + 0);
          m1 = load16 m (src + 16);
          m2 = load16 m (src + 32);
          m3 = load16 m (src + 48);
          m = store m (dst + 0) m0;
          m = store m (dst + 16) m1;
          m = store m (dst + 32) m2
      in store m (dst + 48) m3)"

definition memcpy_sse2_128 :: "'b mem \<Rightarrow> nat \<Rightarrow> nat \<Rightarrow> 'b mem" where
  "memcpy_sse2_128 m dst src =
     (let m0 = load16 m (src + 0);
          m1 = load16 m (src + 16);
          m2 = load16 m (src + 32);
          m3 = load16 m (src + 48);
          m4 = load16 m (src + 64);
          m5 = load16 m (src + 80);
          m6 = load16 m (src + 96);
          m7 = load16 m (src + 112);
          m = store m (dst + 0) m0;
          m = store m (dst + 16) m1;
          m = store m (dst + 32) m2;
          m = store m (dst + 48) m3;
          m = store m (dst + 64) m4;
          m = store m (dst + 80) m5;
          m = store m (dst + 96) m6
      in store m (dst + 112) m7)"

text \<open>All the loads of a block come before its stores, so a block is one wide move.\<close>

lemma store_step: "length bs = j \<Longrightarrow> store (store m a bs) (a + j) cs = store m a (bs @ cs)"
  using store_append by blast

lemma memcpy_sse2_16_move: "memcpy_sse2_16 m dst src = store m dst (load m src 16)"
  by (simp add: memcpy_sse2_16_def)

lemma memcpy_sse2_32_move: "memcpy_sse2_32 m dst src = store m dst (load m src 32)"
  by (simp add: memcpy_sse2_32_def Let_def store_step load_append)

lemma memcpy_sse2_64_move: "memcpy_sse2_64 m dst src = store m dst (load m src 64)"
  by (simp add: memcpy_sse2_64_def Let_def store_step load_append del: append_assoc)

lemma memcpy_sse2_128_move: "memcpy_sse2_128 m dst src = store m dst (load m src 128)"
  by (simp add: memcpy_sse2_128_def Let_def store_step load_append del: append_assoc)

section \<open>The tiny copy\<close>

text \<open>
  One instruction copies a block of its width from \<open>ss - n\<close> to \<open>dd - n\<close>, where \<open>ss\<close> and \<open>dd\<close>
  are the ends of the two regions and \<open>n\<close> is its argument.
\<close>

datatype tiny_op = U8 nat | U16 nat | U32 nat | U64 nat
  | Sse16 nat | Sse32 nat | Sse64 nat | Sse128 nat

fun run_op :: "'b mem \<Rightarrow> nat \<Rightarrow> nat \<Rightarrow> tiny_op \<Rightarrow> 'b mem" where
  "run_op m dd ss (U8 n) = store m (dd - n) (load m (ss - n) 1)"
| "run_op m dd ss (U16 n) = store m (dd - n) (load m (ss - n) 2)"
| "run_op m dd ss (U32 n) = store m (dd - n) (load m (ss - n) 4)"
| "run_op m dd ss (U64 n) = store m (dd - n) (load m (ss - n) 8)"
| "run_op m dd ss (Sse16 n) = memcpy_sse2_16 m (dd - n) (ss - n)"
| "run_op m dd ss (Sse32 n) = memcpy_sse2_32 m (dd - n) (ss - n)"
| "run_op m dd ss (Sse64 n) = memcpy_sse2_64 m (dd - n) (ss - n)"
| "run_op m dd ss (Sse128 n) = memcpy_sse2_128 m (dd - n) (ss - n)"

text \<open>
  The blocks of the switch for the labels 0 to 63. The label \<open>64 + n\<close> stands just above the
  label \<open>n\<close>: it moves 64 bytes from \<open>ss - (64 + n)\<close> and falls through to the block of \<open>n\<close>.
\<close>

definition tiny_blocks_0 :: "tiny_op list list" where
  "tiny_blocks_0 =
  [[],
   [U8 1],
   [U16 2],
   [U16 3, U8 1],
   [U32 4],
   [U32 5, U8 1],
   [U32 6, U16 2],
   [U32 7, U32 4],
   [U64 8],
   [U64 9, U8 1],
   [U64 10, U16 2],
   [U64 11, U32 4],
   [U64 12, U32 4],
   [U64 13, U32 5, U8 1],
   [U64 14, U64 8],
   [U64 15, U64 8]]"

definition tiny_blocks_16 :: "tiny_op list list" where
  "tiny_blocks_16 =
  [[Sse16 16],
   [Sse16 17, U8 1],
   [Sse16 18, U16 2],
   [Sse16 19, U16 3, U8 1],
   [Sse16 20, U32 4],
   [Sse16 21, U32 5, U8 1],
   [Sse16 22, U32 6, U16 2],
   [Sse16 23, U32 7, U32 4],
   [Sse16 24, Sse16 16],
   [Sse16 25, Sse16 16],
   [Sse16 26, Sse16 16],
   [Sse16 27, Sse16 16],
   [Sse16 28, Sse16 16],
   [Sse16 29, Sse16 16],
   [Sse16 30, Sse16 16],
   [Sse16 31, Sse16 16]]"

definition tiny_blocks_32 :: "tiny_op list list" where
  "tiny_blocks_32 =
  [[Sse32 32],
   [Sse32 33, U8 1],
   [Sse32 34, U16 2],
   [Sse32 35, U16 3, U8 1],
   [Sse32 36, U32 4],
   [Sse32 37, U32 5, U8 1],
   [Sse32 38, U32 6, U16 2],
   [Sse32 39, U32 7, U32 4],
   [Sse32 40, U64 8],
   [Sse32 41, U64 9, U8 1],
   [Sse32 42, U64 10, U16 2],
   [Sse32 43, U64 11, U32 4],
   [Sse32 44, U64 12, U32 4],
   [Sse32 45, U64 13, U32 5, U8 1],
   [Sse32 46, U64 14, U64 8],
   [Sse32 47, U64 15, U64 8]]"

definition tiny_blocks_48 :: "tiny_op list list" where
  "tiny_blocks_48 =
  [[Sse32 48, Sse16 16],
   [Sse32 49, Sse16 17, U8 1],
   [Sse32 50, Sse16 18, U16 2],
   [Sse32 51, Sse16 19, U16 3, U8 1],
   [Sse32 52, Sse16 20, U32 4],
   [Sse32 53, Sse16 21, U32 5, U8 1],
   [Sse32 54, Sse16 22, U32 6, U16 2],
   [Sse32 55, Sse16 23, U32 7, U32 4],
   [Sse32 56, Sse16 24, Sse16 16],
   [Sse32 57, Sse16 25, Sse16 16],
   [Sse32 58, Sse16 26, Sse16 16],
   [Sse32 59, Sse16 27, Sse16 16],
   [Sse32 60, Sse16 28, Sse16 16],
   [Sse32 61, Sse16 29, Sse16 16],
   [Sse32 62, Sse16 30, Sse16 16],
   [Sse32 63, Sse16 31, Sse16 16]]"

definition tiny_block :: "nat \<Rightarrow> tiny_op list" where
  "tiny_block n =
     (if n < 16 then tiny_blocks_0 ! n
      else if n < 32 then tiny_blocks_16 ! (n - 16)
      else if n < 48 then tiny_blocks_32 ! (n - 32)
      else tiny_blocks_48 ! (n - 48))"

definition tiny_ops :: "nat \<Rightarrow> tiny_op list" where
  "tiny_ops sz =
     (if sz < 64 then tiny_block sz
      else if sz < 128 then Sse64 sz # tiny_block (sz - 64)
      else if sz = 128 then [Sse128 128]
      else [])"

definition memcpy_tiny :: "'b mem \<Rightarrow> nat \<Rightarrow> nat \<Rightarrow> nat \<Rightarrow> 'b mem" where
  "memcpy_tiny m dst src sz =
     (let dd = dst + sz; ss = src + sz
      in foldl (\<lambda>m op. run_op m dd ss op) m (tiny_ops sz))"


section \<open>The main routine\<close>

text \<open>The aligned accesses.\<close>

definition load_aligned :: "'b mem \<Rightarrow> nat \<Rightarrow> 'b list res" where
  "load_aligned m a = (if 16 dvd a then Inr (load16 m a) else Inl Misaligned_Access)"

definition store_aligned :: "'b mem \<Rightarrow> nat \<Rightarrow> 'b list \<Rightarrow> 'b mem res" where
  "store_aligned m a bs = (if 16 dvd a then Inr (store m a bs) else Inl Misaligned_Access)"

text \<open>
  The body of the three 128-byte loops: eight loads, then eight aligned stores (\<open>_mm_store\<close> in
  the medium loop, \<open>_mm_stream\<close> in the big ones, which differ in caching only).
\<close>

definition store8_aligned :: "'b mem \<Rightarrow> nat \<Rightarrow> 'b list list \<Rightarrow> 'b mem res" where
  "store8_aligned m dst cs =
     bindR (store_aligned m (dst + 0) (cs ! 0)) (\<lambda>m.
     bindR (store_aligned m (dst + 16) (cs ! 1)) (\<lambda>m.
     bindR (store_aligned m (dst + 32) (cs ! 2)) (\<lambda>m.
     bindR (store_aligned m (dst + 48) (cs ! 3)) (\<lambda>m.
     bindR (store_aligned m (dst + 64) (cs ! 4)) (\<lambda>m.
     bindR (store_aligned m (dst + 80) (cs ! 5)) (\<lambda>m.
     bindR (store_aligned m (dst + 96) (cs ! 6)) (\<lambda>m.
     store_aligned m (dst + 112) (cs ! 7))))))))"

definition copy_step_unaligned :: "'b mem \<Rightarrow> nat \<Rightarrow> nat \<Rightarrow> 'b mem res" where
  "copy_step_unaligned m dst src =
     (let c0 = load16 m (src + 0);
          c1 = load16 m (src + 16);
          c2 = load16 m (src + 32);
          c3 = load16 m (src + 48);
          c4 = load16 m (src + 64);
          c5 = load16 m (src + 80);
          c6 = load16 m (src + 96);
          c7 = load16 m (src + 112)
      in store8_aligned m dst [c0, c1, c2, c3, c4, c5, c6, c7])"

definition copy_step_aligned :: "'b mem \<Rightarrow> nat \<Rightarrow> nat \<Rightarrow> 'b mem res" where
  "copy_step_aligned m dst src =
     bindR (load_aligned m (src + 0)) (\<lambda>c0.
     bindR (load_aligned m (src + 16)) (\<lambda>c1.
     bindR (load_aligned m (src + 32)) (\<lambda>c2.
     bindR (load_aligned m (src + 48)) (\<lambda>c3.
     bindR (load_aligned m (src + 64)) (\<lambda>c4.
     bindR (load_aligned m (src + 80)) (\<lambda>c5.
     bindR (load_aligned m (src + 96)) (\<lambda>c6.
     bindR (load_aligned m (src + 112)) (\<lambda>c7.
     store8_aligned m dst [c0, c1, c2, c3, c4, c5, c6, c7]))))))))"

text \<open>
  The three loops differ in the step only; each runs while \<open>size >= 128\<close> and leaves the
  advanced pointers and the rest of the size.
\<close>

function copy_loop ::
  "('b mem \<Rightarrow> nat \<Rightarrow> nat \<Rightarrow> 'b mem res) \<Rightarrow> 'b mem \<Rightarrow> nat \<Rightarrow> nat \<Rightarrow> nat
   \<Rightarrow> ('b mem \<times> nat \<times> nat \<times> nat) res" where
  "copy_loop step m dst src sz =
     (if 128 \<le> sz
      then bindR (step m dst src) (\<lambda>m. copy_loop step m (dst + 128) (src + 128) (sz - 128))
      else Inr (m, dst, src, sz))"
  by pat_completeness auto
termination
  by (relation "measure (\<lambda>(step, m, dst, src, sz). sz)") auto

declare copy_loop.simps [simp del]

definition cachesize :: nat where
  "cachesize = 0x200000"

definition align_head :: "'b mem \<Rightarrow> nat \<Rightarrow> nat \<Rightarrow> nat \<Rightarrow> 'b mem \<times> nat \<times> nat \<times> nat" where
  "align_head m dst src sz =
     (let padding = (16 - (dst AND 15)) AND 15
      in if padding > 0
         then let head = load16 m src; m = store m dst head
              in (m, dst + padding, src + padding, sz - padding)
         else (m, dst, src, sz))"

definition fast_memcpy :: "'b mem \<Rightarrow> nat \<Rightarrow> nat \<Rightarrow> nat \<Rightarrow> ('b mem \<times> nat) res" where
  "fast_memcpy m destination source sz =
     (if sz \<le> 128 then Inr (memcpy_tiny m destination source sz, destination)
      else
        let (m, dst, src, sz) = align_head m destination source sz
        in bindR
          (if sz \<le> cachesize then copy_loop copy_step_unaligned m dst src sz
           else if src AND 15 = 0 then copy_loop copy_step_aligned m dst src sz
           else copy_loop copy_step_unaligned m dst src sz)
          (\<lambda>(m, dst, src, sz). Inr (memcpy_tiny m dst src sz, destination)))"


section \<open>Correctness of the tiny copy\<close>

text \<open>
  The specification of a copy: \<open>moved m d s n\<close> holds the old contents of \<open>[s, s + n)\<close> at
  \<open>[d, d + n)\<close> and is \<open>m\<close> elsewhere.
\<close>

definition moved :: "'b mem \<Rightarrow> nat \<Rightarrow> nat \<Rightarrow> nat \<Rightarrow> 'b mem" where
  "moved m d s n = (\<lambda>x. if d \<le> x \<and> x < d + n then m (s + (x - d)) else m x)"

definition disjoint_regions :: "nat \<Rightarrow> nat \<Rightarrow> nat \<Rightarrow> bool" where
  "disjoint_regions d s n \<longleftrightarrow> d + n \<le> s \<or> s + n \<le> d"

lemma store_load_moved: "store m d (load m s n) = moved m d s n"
  by (auto simp: store_def moved_def fun_eq_iff)

lemma moved_0 [simp]: "moved m d s 0 = m"
  by (auto simp: moved_def fun_eq_iff)

text \<open>A later block may overlap what is already done; the union is again one move.\<close>

lemma moved_moved:
  assumes "disjoint_regions d s n" "c \<le> n" "p \<le> c" "p + w \<le> n"
  shows "moved (moved m d s c) (d + p) (s + p) w = moved m d s (max c (p + w))"
  using assms by (auto simp: moved_def fun_eq_iff disjoint_regions_def)

fun op_off :: "tiny_op \<Rightarrow> nat" where
  "op_off (U8 n) = n" | "op_off (U16 n) = n" | "op_off (U32 n) = n" | "op_off (U64 n) = n"
| "op_off (Sse16 n) = n" | "op_off (Sse32 n) = n" | "op_off (Sse64 n) = n" | "op_off (Sse128 n) = n"

fun op_width :: "tiny_op \<Rightarrow> nat" where
  "op_width (U8 n) = 1" | "op_width (U16 n) = 2" | "op_width (U32 n) = 4" | "op_width (U64 n) = 8"
| "op_width (Sse16 n) = 16" | "op_width (Sse32 n) = 32" | "op_width (Sse64 n) = 64"
| "op_width (Sse128 n) = 128"

lemmas sse2_moves = memcpy_sse2_16_move memcpy_sse2_32_move memcpy_sse2_64_move
  memcpy_sse2_128_move

lemma run_op_moved:
  "run_op m dd ss oper = moved m (dd - op_off oper) (ss - op_off oper) (op_width oper)"
  by (cases oper) (simp_all add: sse2_moves store_load_moved)

text \<open>\<open>covers n c ops\<close>: from a copied prefix of \<open>c\<close> cells, the blocks leave no gap up to \<open>n\<close>.\<close>

fun covers :: "nat \<Rightarrow> nat \<Rightarrow> tiny_op list \<Rightarrow> bool" where
  "covers n c [] \<longleftrightarrow> c = n"
| "covers n c (oper # ops) \<longleftrightarrow>
     op_width oper \<le> op_off oper \<and> op_off oper \<le> n \<and> n - op_off oper \<le> c \<and>
     covers n (max c (n - op_off oper + op_width oper)) ops"

lemma run_ops_moved:
  assumes "disjoint_regions d s n"
  shows "c \<le> n \<Longrightarrow> covers n c ops \<Longrightarrow>
    foldl (\<lambda>m oper. run_op m (d + n) (s + n) oper) (moved m d s c) ops = moved m d s n"
proof (induction ops arbitrary: c)
  case Nil
  then show ?case by simp
next
  case (Cons oper ops)
  let ?p = "n - op_off oper"
  from Cons.prems have "op_width oper \<le> op_off oper" "op_off oper \<le> n" "?p \<le> c" by auto
  then have "run_op (moved m d s c) (d + n) (s + n) oper = moved m d s (max c (?p + op_width oper))"
    using moved_moved [OF assms \<open>c \<le> n\<close>, of ?p "op_width oper" m]
    by (simp add: run_op_moved)
  moreover have "max c (?p + op_width oper) \<le> n" "covers n (max c (?p + op_width oper)) ops"
    using Cons.prems by auto
  ultimately show ?case using Cons.IH by (simp del: covers.simps)
qed

lemmas tiny_tables = tiny_blocks_0_def tiny_blocks_16_def tiny_blocks_32_def tiny_blocks_48_def

lemma all_tiny_ops_cover: "list_all (\<lambda>n. covers n 0 (tiny_ops n)) [0..<129]"
  by code_simp

lemma tiny_ops_cover: "n \<le> 128 \<Longrightarrow> covers n 0 (tiny_ops n)"
  using all_tiny_ops_cover by (auto simp: list_all_iff)

lemma memcpy_tiny_moved:
  assumes "sz \<le> 128" "disjoint_regions d s sz"
  shows "memcpy_tiny m d s sz = moved m d s sz"
  using run_ops_moved [OF assms(2), of 0 "tiny_ops sz" m] tiny_ops_cover [OF assms(1)]
  by (simp add: memcpy_tiny_def Let_def)


section \<open>Correctness of the main routine\<close>

lemma copy_step_unaligned_moved:
  assumes "16 dvd d"
  shows "copy_step_unaligned m d s = Inr (moved m d s 128)"
proof -
  have "16 dvd d + 16" "16 dvd d + 32" "16 dvd d + 48" "16 dvd d + 64" "16 dvd d + 80"
    "16 dvd d + 96" "16 dvd d + 112"
    using assms by presburger+
  then show ?thesis
    using assms memcpy_sse2_128_move [of m d s]
    by (simp add: copy_step_unaligned_def store8_aligned_def store_aligned_def Let_def
        memcpy_sse2_128_def store_load_moved)
qed

lemma copy_step_aligned_moved:
  assumes "16 dvd d" "16 dvd s"
  shows "copy_step_aligned m d s = Inr (moved m d s 128)"
proof -
  have "16 dvd s + 16" "16 dvd s + 32" "16 dvd s + 48" "16 dvd s + 64" "16 dvd s + 80"
    "16 dvd s + 96" "16 dvd s + 112"
    using assms by presburger+
  then have "copy_step_aligned m d s = copy_step_unaligned m d s"
    using assms by (simp add: copy_step_unaligned_def copy_step_aligned_def load_aligned_def)
  then show ?thesis using copy_step_unaligned_moved [OF assms(1)] by simp
qed

text \<open>
  The loop invariant: \<open>c\<close> cells are copied, the pointers stand at offset \<open>p \<le> c\<close> (the head
  may have copied more than the pointers advanced) and \<open>sz\<close> cells remain from there.
\<close>

lemma copy_loop_moved:
  assumes dis: "disjoint_regions d s n"
    and step: "\<And>m p. 16 dvd d + p \<Longrightarrow> 16 dvd s + p \<or> \<not> al \<Longrightarrow>
       step m (d + p) (s + p) = Inr (moved m (d + p) (s + p) 128)"
  shows "\<lbrakk>p \<le> c; c \<le> n; p + sz = n; 16 dvd d + p; 16 dvd s + p \<or> \<not> al\<rbrakk> \<Longrightarrow>
    \<exists>p' c'. copy_loop step (moved m d s c) (d + p) (s + p) sz =
        Inr (moved m d s c', d + p', s + p', n - p') \<and>
      p' \<le> c' \<and> c' \<le> n \<and> p' \<le> n \<and> n - p' < 128"
proof (induction sz arbitrary: p c rule: less_induct)
  case (less sz)
  show ?case
  proof (cases "128 \<le> sz")
    case False
    with less.prems show ?thesis
      by (intro exI [of _ p] exI [of _ c]) (auto simp: copy_loop.simps)
  next
    case True
    let ?c = "max c (p + 128)"
    have "step (moved m d s c) (d + p) (s + p) = Inr (moved m d s ?c)"
      using less.prems True by (subst step) (auto simp: moved_moved [OF dis])
    then have "copy_loop step (moved m d s c) (d + p) (s + p) sz =
        copy_loop step (moved m d s ?c) (d + (p + 128)) (s + (p + 128)) (sz - 128)"
      using less.prems True by (subst copy_loop.simps) (simp add: add.assoc)
    moreover have "16 dvd d + (p + 128)" using less.prems(4) by presburger
    moreover have "16 dvd s + (p + 128)" if al using less.prems(5) that by presburger
    ultimately show ?thesis
      using less.IH [of "sz - 128" "p + 128" ?c] less.prems(1-3) True by fastforce
  qed
qed

lemma and_15_mod [simp]: "(a::nat) AND 15 = a mod 16"
proof -
  have mask: "(15::nat) = mask 4" by (simp add: mask_eq_exp_minus_1)
  have "a AND 15 = a mod 2 ^ 4"
    by (metis mask take_bit_eq_mask take_bit_eq_mod)
  also have "\<dots> = a mod 16" by simp
  finally show ?thesis .
qed

lemma align_head_moved:
  assumes "128 < sz"
  obtains p c where "align_head m d s sz = (moved m d s c, d + p, s + p, sz - p)"
    "p \<le> c" "c \<le> 16" "p < 16" "16 dvd d + p"
proof -
  define p where "p = (16 - d mod 16) mod 16"
  have "d + (16 - d mod 16) = 16 * (d div 16) + 16"
    using mult_div_mod_eq [of 16 d] mod_less_divisor [of 16 d] by linarith
  then have "(d + p) mod 16 = 0" unfolding p_def mod_add_right_eq by simp
  then have "16 dvd d + p" by (simp add: mod_eq_0_iff_dvd)
  moreover have "p < 16" unfolding p_def by simp
  moreover have "align_head m d s sz = (moved m d s (if 0 < p then 16 else 0), d + p, s + p, sz - p)"
    unfolding align_head_def and_15_mod p_def [symmetric]
    by (cases "p = 0") (simp_all add: store_load_moved)
  moreover have "p \<le> (if 0 < p then 16 else 0)" using \<open>p < 16\<close> by simp
  ultimately show ?thesis
    by (intro that [where p = p and c = "if 0 < p then 16 else 0"]) simp_all
qed

text \<open>
  For regions that do not overlap, \<open>fast_memcpy\<close> succeeds whatever the alignment of the two
  pointers, and is the copy.
\<close>

lemma fast_memcpy_moved:
  assumes dis: "disjoint_regions d s sz"
  shows "fast_memcpy m d s sz = Inr (moved m d s sz, d)"
proof (cases "sz \<le> 128")
  case True
  then show ?thesis by (simp add: fast_memcpy_def memcpy_tiny_moved dis)
next
  case False
  then have "128 < sz" by simp
  then obtain p c where head: "align_head m d s sz = (moved m d s c, d + p, s + p, sz - p)"
    and pc: "p \<le> c" "c \<le> 16" "p < 16" "16 dvd d + p"
    by (rule align_head_moved [of sz m d s])
  have tail: "memcpy_tiny (moved m d s c') (d + p') (s + p') (sz - p') = moved m d s sz"
    if "p' \<le> c'" "c' \<le> sz" "p' \<le> sz" "sz - p' < 128" for p' c'
  proof -
    have "disjoint_regions (d + p') (s + p') (sz - p')"
      using dis that by (auto simp: disjoint_regions_def)
    then show ?thesis
      using that memcpy_tiny_moved [of "sz - p'" "d + p'" "s + p'" "moved m d s c'"]
        moved_moved [OF dis, of c' p' "sz - p'" m] by (simp add: max_def)
  qed
  have un: "\<exists>p' c'. copy_loop copy_step_unaligned (moved m d s c) (d + p) (s + p) (sz - p) =
        Inr (moved m d s c', d + p', s + p', sz - p') \<and>
      p' \<le> c' \<and> c' \<le> sz \<and> p' \<le> sz \<and> sz - p' < 128"
    by (rule copy_loop_moved [OF dis, where al = False])
      (use pc False in \<open>auto simp: copy_step_unaligned_moved\<close>)
  have al: "\<exists>p' c'. copy_loop copy_step_aligned (moved m d s c) (d + p) (s + p) (sz - p) =
        Inr (moved m d s c', d + p', s + p', sz - p') \<and>
      p' \<le> c' \<and> c' \<le> sz \<and> p' \<le> sz \<and> sz - p' < 128" if "16 dvd s + p"
    by (rule copy_loop_moved [OF dis, where al = True])
      (use pc False that in \<open>auto simp: copy_step_aligned_moved\<close>)
  show ?thesis
    using un al tail False by (auto simp: fast_memcpy_def head mod_eq_0_iff_dvd)
qed

end
