(* ===== verification/Snprintf_Base.thy ===== *)
theory Snprintf_Base
  imports Fast_Memcpy
begin

text \<open>
  \<open>src/src/base/mysnprintf.c\<close>, first part: the constants, the output buffer with the
  \<open>OUTCHAR\<close> macro, the string formatter \<open>fmtstr\<close>, the digit conversion \<open>convert\<close> and the
  integer formatter \<open>fmtint\<close>.

  The configuration is the one of \<open>mysnprintf.h\<close> on the Win32 target of
  \<open>build/dbservice.vcxproj\<close>: \<open>int\<close>, \<open>long\<close>, \<open>size_t\<close> and pointers have 32 bits, \<open>INTMAX_T\<close> is
  \<open>long long\<close> with 64; \<open>HAVE_LOCALECONV\<close> is not set, so the separators are fixed. The length
  counter \<open>len\<close> is a natural number: it does not wrap for outputs below \<open>2 ^ 32\<close> characters.
\<close>

unbundle bit_operations_syntax

section \<open>Format flags\<close>

definition PRINT_F_MINUS :: "32 word" where "PRINT_F_MINUS = push_bit 0 1"
definition PRINT_F_PLUS :: "32 word" where "PRINT_F_PLUS = push_bit 1 1"
definition PRINT_F_SPACE :: "32 word" where "PRINT_F_SPACE = push_bit 2 1"
definition PRINT_F_NUM :: "32 word" where "PRINT_F_NUM = push_bit 3 1"
definition PRINT_F_ZERO :: "32 word" where "PRINT_F_ZERO = push_bit 4 1"
definition PRINT_F_QUOTE :: "32 word" where "PRINT_F_QUOTE = push_bit 5 1"
definition PRINT_F_UP :: "32 word" where "PRINT_F_UP = push_bit 6 1"
definition PRINT_F_UNSIGNED :: "32 word" where "PRINT_F_UNSIGNED = push_bit 7 1"
definition PRINT_F_TYPE_G :: "32 word" where "PRINT_F_TYPE_G = push_bit 8 1"
definition PRINT_F_TYPE_E :: "32 word" where "PRINT_F_TYPE_E = push_bit 9 1"

lemmas print_flag_defs = PRINT_F_MINUS_def PRINT_F_PLUS_def PRINT_F_SPACE_def PRINT_F_NUM_def
  PRINT_F_ZERO_def PRINT_F_QUOTE_def PRINT_F_UP_def PRINT_F_UNSIGNED_def PRINT_F_TYPE_G_def
  PRINT_F_TYPE_E_def

definition has :: "32 word \<Rightarrow> 32 word \<Rightarrow> bool" where
  "has flags f \<longleftrightarrow> flags AND f \<noteq> 0"

definition MAX_CONVERT_LENGTH :: nat where
  "MAX_CONVERT_LENGTH = 43"

section \<open>The output buffer\<close>

text \<open>
  The buffer \<open>str\<close> of \<open>size\<close> bytes and the counter \<open>len\<close>. \<open>OUTCHAR\<close> stores a character when a
  byte stays free for the terminator, and counts it in either case.
\<close>

type_synonym obuf = "char list \<times> nat"

fun OUTCHAR :: "char \<Rightarrow> obuf \<Rightarrow> obuf res" where
  "OUTCHAR ch (str, len) =
     bindR (if len + 1 < length str then wr str len ch else Inr str)
       (\<lambda>str. Inr (str, len + 1))"

text \<open>The loops that print one character a number of times.\<close>

primrec out_times :: "nat \<Rightarrow> char \<Rightarrow> obuf \<Rightarrow> obuf res" where
  "out_times 0 ch b = Inr b"
| "out_times (Suc n) ch b = bindR (OUTCHAR ch b) (out_times n ch)"

section \<open>fmtstr\<close>

text \<open>
  The loop that measures the string reads a character before it compares the count with the
  precision, as \<open>value[strln] != '\0' && (noprecision || strln < precision)\<close> does.
\<close>

fun fmtstr_strln :: "char list \<Rightarrow> bool \<Rightarrow> int \<Rightarrow> int \<Rightarrow> int res" where
  "fmtstr_strln [] noprecision precision strln = Inl Read_Out_Of_Bounds"
| "fmtstr_strln (c # value) noprecision precision strln =
     (if c \<noteq> NUL \<and> (noprecision \<or> strln < precision)
      then fmtstr_strln value noprecision precision (strln + 1)
      else Inr strln)"

fun fmtstr_body :: "char list \<Rightarrow> bool \<Rightarrow> int \<Rightarrow> obuf \<Rightarrow> obuf res" where
  "fmtstr_body [] noprecision precision b = Inl Read_Out_Of_Bounds"
| "fmtstr_body (c # value) noprecision precision b =
     (if c \<noteq> NUL \<and> (noprecision \<or> precision > 0)
      then bindR (OUTCHAR c b) (fmtstr_body value noprecision (precision - 1))
      else Inr b)"

text \<open>\<open>value\<close> is the object the pointer points to, or \<open>None\<close> for a null pointer.\<close>

definition fmtstr :: "obuf \<Rightarrow> char list option \<Rightarrow> int \<Rightarrow> int \<Rightarrow> 32 word \<Rightarrow> obuf res" where
  "fmtstr b value width precision flags =
     (let noprecision = (precision = -1);
          value = (case value of None \<Rightarrow> cstr ''(null)'' | Some v \<Rightarrow> v)
      in bindR (fmtstr_strln value noprecision precision 0) (\<lambda>strln.
         let padlen = (if width - strln < 0 then 0 else width - strln);
             padlen = (if has flags PRINT_F_MINUS then - padlen else padlen)
         in bindR (out_times (nat padlen) CHR '' '' b) (\<lambda>b.
            bindR (fmtstr_body value noprecision precision b) (\<lambda>b.
            out_times (nat (- padlen)) CHR '' '' b))))"

section \<open>convert\<close>

text \<open>The digits are written in reverse order, the loop stops at the end of the buffer.\<close>

function convert_loop :: "nat \<Rightarrow> char list \<Rightarrow> nat \<Rightarrow> nat \<Rightarrow> string \<Rightarrow> (char list \<times> nat) res" where
  "convert_loop v buf pos base digits =
     bindR (rd digits (v mod base)) (\<lambda>d.
     bindR (wr buf pos d) (\<lambda>buf.
     let pos = pos + 1; v = v div base
     in if v \<noteq> 0 \<and> pos < length buf then convert_loop v buf pos base digits
        else Inr (buf, pos)))"
  by pat_completeness auto
termination
  by (relation "measure (\<lambda>(v, buf, pos, base, digits). length buf - pos)")
    (auto simp: wr_Inr_iff)

declare convert_loop.simps [simp del]

definition convert :: "nat \<Rightarrow> char list \<Rightarrow> nat \<Rightarrow> bool \<Rightarrow> (char list \<times> nat) res" where
  "convert v buf base caps =
     convert_loop v buf 0 base (if caps then ''0123456789ABCDEF'' else ''0123456789abcdef'')"

section \<open>fmtint\<close>

definition printsep :: "obuf \<Rightarrow> obuf res" where
  "printsep b = OUTCHAR CHR '','' b"

definition getnumsep :: "nat \<Rightarrow> nat" where
  "getnumsep digits = (digits - (if digits mod 3 = 0 then 1 else 0)) div 3"

text \<open>The loop that prints the digits, with a separator after every group of three.\<close>

fun fmtint_digits :: "char list \<Rightarrow> nat \<Rightarrow> bool \<Rightarrow> obuf \<Rightarrow> obuf res" where
  "fmtint_digits iconvert 0 separators b = Inr b"
| "fmtint_digits iconvert (Suc pos) separators b =
     bindR (rd iconvert pos) (\<lambda>d.
     bindR (OUTCHAR d b) (\<lambda>b.
     bindR (if separators \<and> 0 < pos \<and> pos mod 3 = 0 then printsep b else Inr b) (\<lambda>b.
     fmtint_digits iconvert pos separators b)))"

text \<open>The magnitude and the sign character (\<open>None\<close> is the code's \<open>0\<close>).\<close>

definition fmtint_sign :: "64 word \<Rightarrow> 32 word \<Rightarrow> (nat \<times> char option) res" where
  "fmtint_sign value flags =
     (if has flags PRINT_F_UNSIGNED then Inr (unat value, None)
      else
        bindR (if 0 \<le> sint value then Inr (unat value)
               else if sint value = - (2 ^ 63) then Inl Signed_Overflow
               else Inr (unat (- value))) (\<lambda>uvalue.
        Inr (uvalue,
          if sint value < 0 then Some CHR ''-''
          else if has flags PRINT_F_PLUS then Some CHR ''+''
          else if has flags PRINT_F_SPACE then Some CHR '' ''
          else None)))"

definition out_opt :: "char option \<Rightarrow> obuf \<Rightarrow> obuf res" where
  "out_opt c b = (case c of None \<Rightarrow> Inr b | Some c \<Rightarrow> OUTCHAR c b)"

text \<open>
  The layout of the field: the prefix character, the number of separators, the blanks
  (negative when they trail) and the zeros.
\<close>

definition fmtint_layout ::
  "nat \<Rightarrow> char option \<Rightarrow> nat \<Rightarrow> nat \<Rightarrow> int \<Rightarrow> int \<Rightarrow> 32 word \<Rightarrow> (char option \<times> nat \<times> int \<times> int) res"
where
  "fmtint_layout uvalue sign pos base width precision flags =
     (let noprecision = (precision = -1);
          alt = has flags PRINT_F_NUM \<and> uvalue \<noteq> 0;
          precision = (if alt \<and> base = 8 \<and> precision \<le> int pos then int pos + 1 else precision);
          hexprefix = (if alt \<and> base = 16
                       then Some (if has flags PRINT_F_UP then CHR ''X'' else CHR ''x'')
                       else None);
          separators = (if has flags PRINT_F_QUOTE then getnumsep pos else 0);
          zpadlen = precision - int pos - int separators
      in bindR (int32 (width - int separators - max precision (int pos)
                  - (if sign \<noteq> None then 1 else 0) - (if hexprefix \<noteq> None then 2 else 0)))
           (\<lambda>spadlen.
         let zpadlen = (if zpadlen < 0 then 0 else zpadlen);
             spadlen = (if spadlen < 0 then 0 else spadlen);
             (spadlen, zpadlen) =
               (if has flags PRINT_F_MINUS then (- spadlen, zpadlen)
                else if has flags PRINT_F_ZERO \<and> noprecision then (0, zpadlen + spadlen)
                else (spadlen, zpadlen))
         in Inr (hexprefix, separators, spadlen, zpadlen)))"

definition fmtint_print ::
  "obuf \<Rightarrow> char option \<Rightarrow> char list \<Rightarrow> nat \<Rightarrow> char option \<times> nat \<times> int \<times> int \<Rightarrow> obuf res" where
  "fmtint_print b sign iconvert pos layout =
     (case layout of (hexprefix, separators, spadlen, zpadlen) \<Rightarrow>
        bindR (out_times (nat spadlen) CHR '' '' b) (\<lambda>b.
        bindR (out_opt sign b) (\<lambda>b.
        bindR (case hexprefix of None \<Rightarrow> Inr b
               | Some x \<Rightarrow> bindR (OUTCHAR CHR ''0'' b) (OUTCHAR x)) (\<lambda>b.
        bindR (out_times (nat zpadlen) CHR ''0'' b) (\<lambda>b.
        bindR (fmtint_digits iconvert pos (0 < separators) b) (\<lambda>b.
        out_times (nat (- spadlen)) CHR '' '' b))))))"

definition fmtint :: "obuf \<Rightarrow> 64 word \<Rightarrow> nat \<Rightarrow> int \<Rightarrow> int \<Rightarrow> 32 word \<Rightarrow> obuf res" where
  "fmtint b value base width precision flags =
     bindR (fmtint_sign value flags) (\<lambda>(uvalue, sign).
     bindR (convert uvalue (replicate MAX_CONVERT_LENGTH NUL) base (has flags PRINT_F_UP))
       (\<lambda>(iconvert, pos).
     bindR (fmtint_layout uvalue sign pos base width precision flags)
       (fmtint_print b sign iconvert pos)))"

section \<open>What OUTCHAR prints\<close>

text \<open>
  \<open>putc\<close> is the total function \<open>OUTCHAR\<close> computes: the guard makes its store safe. \<open>emit s\<close>
  prints the characters of \<open>s\<close>.
\<close>

fun putc :: "char \<Rightarrow> obuf \<Rightarrow> obuf" where
  "putc ch (str, len) = (if len + 1 < length str then str[len := ch] else str, len + 1)"

definition emit :: "string \<Rightarrow> obuf \<Rightarrow> obuf" where
  "emit s b = fold putc s b"

lemma OUTCHAR_putc [simp, fault_simps]: "OUTCHAR ch b = Inr (putc ch b)"
  by (cases b) auto

lemma emit_simps [simp]:
  "emit [] b = b"
  "emit (c # s) b = emit s (putc c b)"
  by (simp_all add: emit_def)

lemma emit_append [simp]: "emit (s @ t) b = emit t (emit s b)"
  by (simp add: emit_def)

lemma out_times_emit [simp, fault_simps]: "out_times n ch b = Inr (emit (replicate n ch) b)"
  by (induction n arbitrary: b) auto

lemma out_opt_emit [simp, fault_simps]:
  "out_opt c b = Inr (emit (case c of None \<Rightarrow> [] | Some c \<Rightarrow> [c]) b)"
  by (cases c) (auto simp: out_opt_def)

lemma putc_length [simp]:
  "length (fst (putc c b)) = length (fst b)" "snd (putc c b) = Suc (snd b)"
  by (cases b; simp)+

lemma emit_length [simp]:
  "length (fst (emit s b)) = length (fst b)" "snd (emit s b) = snd b + length s"
  by (induction s arbitrary: b) auto

text \<open>
  \<open>prints b t\<close>: the bytes of the buffer before the terminator hold the text \<open>t\<close> as far as it
  fits. This is the invariant every formatter keeps, also those that stop counting.
\<close>

definition prints :: "obuf \<Rightarrow> string \<Rightarrow> bool" where
  "prints b t = (let (str, len) = b; room = length str - 1 in
     if len < room then len = length t \<and> take len str = t
     else room \<le> length t \<and> take room str = take room t)"

lemma prints_init [simp]: "prints (str, 0) []"
  by (simp add: prints_def)

lemma prints_putc:
  assumes "prints b t"
  shows "prints (putc c b) (t @ [c])"
proof (cases b)
  case (Pair str len)
  show ?thesis
  proof (cases "len + 1 < length str")
    case True
    then have "len = length t" "take len str = t"
      using assms by (auto simp: prints_def Pair Let_def)
    moreover have "take (Suc len) (str[len := c]) = take len str @ [c]"
      using True by (simp add: take_Suc_conv_app_nth)
    ultimately have "take (Suc len) (str[len := c]) = t @ [c]" by simp
    moreover have "Suc len = length str - 1 \<or> Suc len < length str - 1" using True by linarith
    ultimately show ?thesis
      using True \<open>len = length t\<close> by (auto simp: prints_def Pair Let_def)
  next
    case False
    then have "\<not> len < length str - 1" by linarith
    with False show ?thesis using assms by (auto simp: prints_def Pair Let_def)
  qed
qed

lemma prints_emit: "prints b t \<Longrightarrow> prints (emit s b) (t @ s)"
proof (induction s arbitrary: b t)
  case (Cons c s)
  from Cons.IH [OF prints_putc [OF Cons.prems]] show ?case by simp
qed simp

section \<open>The text fmtstr prints\<close>

definition pad :: "int \<Rightarrow> string" where
  "pad n = replicate (nat n) CHR '' ''"

definition fmtstr_text :: "string \<Rightarrow> int \<Rightarrow> 32 word \<Rightarrow> string" where
  "fmtstr_text t width flags =
     (let padlen = width - int (length t)
      in if has flags PRINT_F_MINUS then t @ pad padlen else pad padlen @ t)"

lemma fmtstr_strln_cstr:
  assumes "cvalid s" "0 \<le> strln"
  shows "fmtstr_strln (cstr s @ rest) noprecision precision strln =
    Inr (strln + int (length (if noprecision then s else take (nat (precision - strln)) s)))"
  using assms
proof (induction s arbitrary: strln)
  case Nil
  then show ?case by (simp add: cstr_def)
next
  case (Cons c s)
  show ?case
  proof (cases "noprecision \<or> strln < precision")
    case True
    then have "nat (precision - strln) = Suc (nat (precision - (strln + 1)))" if "\<not> noprecision"
      using that by linarith
    with True Cons show ?thesis by (auto simp: cstr_def)
  next
    case False
    with Cons show ?thesis by (auto simp: cstr_def)
  qed
qed

lemma fmtstr_body_cstr:
  assumes "cvalid s"
  shows "fmtstr_body (cstr s @ rest) noprecision precision b =
    Inr (emit (if noprecision then s else take (nat precision) s) b)"
  using assms
proof (induction s arbitrary: precision b)
  case Nil
  then show ?case by (simp add: cstr_def)
next
  case (Cons c s)
  show ?case
  proof (cases "noprecision \<or> 0 < precision")
    case True
    then have "nat precision = Suc (nat (precision - 1))" if "\<not> noprecision"
      using that by linarith
    with True Cons show ?thesis by (auto simp: cstr_def)
  next
    case False
    with Cons show ?thesis by (auto simp: cstr_def)
  qed
qed

text \<open>A terminated string is printed up to the precision, padded to the width.\<close>

lemma fmtstr_emit:
  assumes "cvalid s"
  shows "fmtstr b (Some (cstr s @ rest)) width precision flags =
    Inr (emit (fmtstr_text (if precision = - 1 then s else take (nat precision) s) width flags) b)"
  using assms
  by (simp add: fmtstr_def Let_def fmtstr_strln_cstr fmtstr_body_cstr fmtstr_text_def pad_def)

lemma fmtstr_null:
  "fmtstr b None width precision flags = fmtstr b (Some (cstr ''(null)'')) width precision flags"
  by (simp add: fmtstr_def)


section \<open>The digits convert writes\<close>

text \<open>The numeral of a number, most significant digit first.\<close>

function numeral_text :: "nat \<Rightarrow> string \<Rightarrow> nat \<Rightarrow> string" where
  "numeral_text base digits v =
     (if v < base \<or> base < 2 then [digits ! (v mod base)]
      else numeral_text base digits (v div base) @ [digits ! (v mod base)])"
  by pat_completeness auto
termination
  by (relation "measure (\<lambda>(base, digits, v). v)") auto

declare numeral_text.simps [simp del]

lemma numeral_text_small: "v < base \<Longrightarrow> numeral_text base digits v = [digits ! v]"
  by (simp add: numeral_text.simps)

lemma numeral_text_step:
  "2 \<le> base \<Longrightarrow> base \<le> v \<Longrightarrow>
    numeral_text base digits v = numeral_text base digits (v div base) @ [digits ! (v mod base)]"
  by (subst numeral_text.simps) simp

lemma length_numeral_text:
  "2 \<le> base \<Longrightarrow> 0 < n \<Longrightarrow> v < base ^ n \<Longrightarrow> length (numeral_text base digits v) \<le> n"
proof (induction n arbitrary: v)
  case (Suc n)
  show ?case
  proof (cases "v < base")
    case False
    then have "n \<noteq> 0" using Suc.prems by (cases n) auto
    moreover have "v div base < base ^ n"
      using Suc.prems by (simp add: less_mult_imp_div_less ac_simps)
    ultimately show ?thesis
      using Suc.IH [of "v div base"] Suc.prems False by (simp add: numeral_text_step)
  qed (simp add: numeral_text_small)
qed simp

lemma numeral_text_nonempty [simp]: "numeral_text base digits v \<noteq> []"
  by (subst numeral_text.simps) simp

text \<open>The loop writes the numeral backwards from \<open>pos\<close>, when the buffer has room for it.\<close>

lemma convert_loop_numeral:
  assumes "2 \<le> base" "base \<le> length digits"
  shows "pos + length (numeral_text base digits v) \<le> length buf \<Longrightarrow>
    convert_loop v buf pos base digits =
      Inr (take pos buf @ rev (numeral_text base digits v) @
             drop (pos + length (numeral_text base digits v)) buf,
           pos + length (numeral_text base digits v))"
proof (induction v arbitrary: pos buf rule: less_induct)
  case (less v)
  let ?d = "digits ! (v mod base)"
  have "v mod base < base" using assms(1) by simp
  then have b: "v mod base < length digits" using assms(2) by linarith
  have p: "pos < length buf"
    using less.prems by (cases "numeral_text base digits v") auto
  show ?case
  proof (cases "v < base")
    case True
    then show ?thesis
      using b p by (subst convert_loop.simps)
        (simp add: numeral_text_small upd_conv_take_nth_drop)
  next
    case False
    then have step: "numeral_text base digits v = numeral_text base digits (v div base) @ [?d]"
      using assms(1) by (simp add: numeral_text_step)
    have lt: "v div base < v" "v div base \<noteq> 0" using False assms(1) by (auto simp: div_eq_0_iff)
    let ?buf = "buf[pos := ?d]" and ?t = "numeral_text base digits (v div base)"
    have room: "Suc pos + length ?t \<le> length ?buf" using less.prems step by simp
    moreover have "0 < length ?t" by simp
    ultimately have "Suc pos < length ?buf" by linarith
    then have "convert_loop v buf pos base digits = convert_loop (v div base) ?buf (Suc pos) base digits"
      using b p lt by (subst convert_loop.simps) (simp add: Let_def)
    also have "\<dots> = Inr (take (Suc pos) ?buf @ rev ?t @ drop (Suc pos + length ?t) ?buf,
        Suc pos + length ?t)"
      by (rule less.IH [OF lt(1) room])
    also have "take (Suc pos) ?buf = take pos buf @ [?d]"
      using p by (simp add: take_Suc_conv_app_nth)
    finally show ?thesis by (simp add: step)
  qed
qed

definition digit_table :: "bool \<Rightarrow> string" where
  "digit_table caps = (if caps then ''0123456789ABCDEF'' else ''0123456789abcdef'')"

lemma length_digit_table [simp]: "length (digit_table caps) = 16"
  by (simp add: digit_table_def)

text \<open>A 64-bit value has at most 22 octal digits, so the 43 bytes of the buffer are enough.\<close>

lemma length_numeral_text_64:
  assumes "8 \<le> base" "v < 2 ^ 64"
  shows "length (numeral_text base digits v) \<le> 22"
proof -
  have "v < 8 ^ 22" using assms(2) by simp
  also have "(8::nat) ^ 22 \<le> base ^ 22" using assms(1) by (rule power_mono) simp
  finally show ?thesis using assms(1) by (intro length_numeral_text) simp_all
qed

lemma convert_numeral:
  assumes "2 \<le> base" "base \<le> 16" "length (numeral_text base (digit_table caps) v) \<le> length buf"
  shows "convert v buf base caps =
    Inr (rev (numeral_text base (digit_table caps) v) @
           drop (length (numeral_text base (digit_table caps) v)) buf,
         length (numeral_text base (digit_table caps) v))"
  using convert_loop_numeral [of base "digit_table caps" 0 v buf] assms
  by (simp add: convert_def digit_table_def)


section \<open>The text fmtint prints\<close>

text \<open>A separator before every group of three digits but the first.\<close>

fun group3 :: "string \<Rightarrow> string" where
  "group3 [] = []"
| "group3 (c # t) = (if t \<noteq> [] \<and> length t mod 3 = 0 then c # CHR '','' # group3 t else c # group3 t)"

lemma fmtint_digits_emit:
  "fmtint_digits (rev t @ rest) (length t) separators b =
    Inr (emit (if separators then group3 t else t) b)"
proof (induction t arbitrary: b rest)
  case (Cons c t)
  have "fmtint_digits (rev t @ c # rest) (length t) separators b' =
      Inr (emit (if separators then group3 t else t) b')" for b'
    using Cons.IH [of "c # rest"] by simp
  then show ?case by (cases separators) (simp_all add: nth_append printsep_def)
qed simp

lemma getnumsep_eq: "0 < n \<Longrightarrow> getnumsep n = (n - 1) div 3"
proof -
  assume "0 < n"
  then obtain k where k: "n = Suc k" using gr0_implies_Suc by blast
  show ?thesis unfolding getnumsep_def k by (cases "Suc k mod 3 = 0") presburger+
qed

text \<open>The number of separators printed is the number the padding was computed with.\<close>

lemma length_group3: "t \<noteq> [] \<Longrightarrow> length (group3 t) = length t + getnumsep (length t)"
proof (induction t)
  case (Cons c t)
  show ?case
  proof (cases "t = []")
    case True
    then show ?thesis by (simp add: getnumsep_eq)
  next
    case False
    then obtain k where k: "length t = Suc k" by (cases t) auto
    have "Suc k div 3 = (if Suc k mod 3 = 0 then Suc (k div 3) else k div 3)" by presburger
    then show ?thesis using Cons.IH [OF False] False k by (simp add: getnumsep_eq)
  qed
qed simp

text \<open>The parts of the field: the text of the number and the padding around it.\<close>

definition fmtint_sep :: "32 word \<Rightarrow> string \<Rightarrow> nat" where
  "fmtint_sep flags t = (if has flags PRINT_F_QUOTE then getnumsep (length t) else 0)"

definition fmtint_prec :: "nat \<Rightarrow> nat \<Rightarrow> int \<Rightarrow> 32 word \<Rightarrow> string \<Rightarrow> int" where
  "fmtint_prec uvalue base precision flags t =
     (if has flags PRINT_F_NUM \<and> uvalue \<noteq> 0 \<and> base = 8 \<and> precision \<le> int (length t)
      then int (length t) + 1 else precision)"

definition fmtint_prefix :: "nat \<Rightarrow> nat \<Rightarrow> 32 word \<Rightarrow> string" where
  "fmtint_prefix uvalue base flags =
     (if has flags PRINT_F_NUM \<and> uvalue \<noteq> 0 \<and> base = 16
      then [CHR ''0'', if has flags PRINT_F_UP then CHR ''X'' else CHR ''x''] else [])"

definition fmtint_spad :: "nat \<Rightarrow> char option \<Rightarrow> nat \<Rightarrow> int \<Rightarrow> int \<Rightarrow> 32 word \<Rightarrow> string \<Rightarrow> int" where
  "fmtint_spad uvalue sign base width precision flags t =
     width - int (fmtint_sep flags t) - max (fmtint_prec uvalue base precision flags t) (int (length t))
       - (if sign \<noteq> None then 1 else 0) - int (length (fmtint_prefix uvalue base flags))"

definition fmtint_text :: "nat \<Rightarrow> char option \<Rightarrow> nat \<Rightarrow> int \<Rightarrow> int \<Rightarrow> 32 word \<Rightarrow> string" where
  "fmtint_text uvalue sign base width precision flags =
     (let t = numeral_text base (digit_table (has flags PRINT_F_UP)) uvalue;
          zpad = max 0 (fmtint_prec uvalue base precision flags t
                   - int (length t) - int (fmtint_sep flags t));
          spad = max 0 (fmtint_spad uvalue sign base width precision flags t);
          zeros = \<not> has flags PRINT_F_MINUS \<and> has flags PRINT_F_ZERO \<and> precision = -1
      in (if has flags PRINT_F_MINUS \<or> zeros then [] else pad spad)
         @ (case sign of None \<Rightarrow> [] | Some c \<Rightarrow> [c])
         @ fmtint_prefix uvalue base flags
         @ replicate (nat (if zeros then zpad + spad else zpad)) CHR ''0''
         @ (if 0 < fmtint_sep flags t then group3 t else t)
         @ (if has flags PRINT_F_MINUS then pad spad else []))"

lemmas fmtint_parts = fmtint_sep_def fmtint_prec_def fmtint_prefix_def fmtint_spad_def

lemma fmtint_layout_parts:
  fixes t :: string and flags :: "32 word" and precision :: int and uvalue base :: nat
  defines "sep \<equiv> fmtint_sep flags t"
    and "prec \<equiv> fmtint_prec uvalue base precision flags t"
    and "prefix \<equiv> fmtint_prefix uvalue base flags"
    and "zeros \<equiv> \<not> has flags PRINT_F_MINUS \<and> has flags PRINT_F_ZERO \<and> precision = -1"
  assumes spad: "int32 (fmtint_spad uvalue sign base width precision flags t) = Inr spad"
  shows "fmtint_layout uvalue sign (length t) base width precision flags =
    Inr (if prefix = [] then None else Some (last prefix), sep,
         if has flags PRINT_F_MINUS then - max 0 spad else if zeros then 0 else max 0 spad,
         let zpad = max 0 (prec - int (length t) - int sep)
         in if zeros then zpad + max 0 spad else zpad)"
proof -
  let ?alt = "has flags PRINT_F_NUM \<and> uvalue \<noteq> 0"
  have prefix: "(if ?alt \<and> base = 16
      then Some (if has flags PRINT_F_UP then CHR ''X'' else CHR ''x'') else None) =
    (if prefix = [] then None else Some (last prefix))"
    "int (length prefix) = (if (if prefix = [] then None else Some (last prefix)) \<noteq> None then 2 else 0)"
    by (simp_all add: prefix_def fmtint_prefix_def)
  have prec: "(if ?alt \<and> base = 8 \<and> precision \<le> int (length t) then int (length t) + 1 else precision) = prec"
    by (simp add: prec_def fmtint_prec_def)
  have sep: "(if has flags PRINT_F_QUOTE then getnumsep (length t) else 0) = sep"
    by (simp add: sep_def fmtint_sep_def)
  have "bindR (int32 (width - int sep - max prec (int (length t)) - (if sign \<noteq> None then 1 else 0)
      - (if (if prefix = [] then None else Some (last prefix)) \<noteq> None then 2 else 0))) f = f spad"
    for f :: "int \<Rightarrow> (char option \<times> nat \<times> int \<times> int) res"
    using spad unfolding fmtint_spad_def prefix(2) [symmetric] by (simp add: sep_def prec_def prefix_def)
  then show ?thesis
    unfolding fmtint_layout_def Let_def prefix(1) prec sep zeros_def by (simp add: max_def)
qed

lemma fmtint_print_emit:
  "fmtint_print b sign (rev t @ rest) (length t) (if p = [] then None else Some x, sep, spad, zpad) =
    Inr (emit (pad spad @ (case sign of None \<Rightarrow> [] | Some c \<Rightarrow> [c])
      @ (if p = [] then [] else [CHR ''0'', x]) @ replicate (nat zpad) CHR ''0''
      @ (if 0 < sep then group3 t else t) @ pad (- spad)) b)"
  using fmtint_digits_emit [of t rest "0 < sep"]
  by (cases "p = []") (simp_all add: fmtint_print_def pad_def)

lemma unat_less_64: "unat w < 2 ^ 64" for w :: "64 word"
  using unsigned_less [where 'a = nat and w = w] by simp

lemma fmtint_emit:
  assumes sign: "fmtint_sign value flags = Inr (uvalue, sign)"
    and base: "8 \<le> base" "base \<le> 16"
    and fits: "int32 (fmtint_spad uvalue sign base width precision flags
       (numeral_text base (digit_table (has flags PRINT_F_UP)) uvalue)) = Inr spad"
  shows "fmtint b value base width precision flags =
    Inr (emit (fmtint_text uvalue sign base width precision flags) b)"
proof -
  let ?t = "numeral_text base (digit_table (has flags PRINT_F_UP)) uvalue"
  have "uvalue < 2 ^ 64"
    using sign unat_less_64 [of "value"] unat_less_64 [of "- value"]
    by (auto simp: fmtint_sign_def bindR_Inr_iff split: if_splits)
  then have "length ?t \<le> 22" using base(1) by (rule length_numeral_text_64 [rotated])
  then have conv: "convert uvalue (replicate MAX_CONVERT_LENGTH NUL) base (has flags PRINT_F_UP) =
      Inr (rev ?t @ drop (length ?t) (replicate MAX_CONVERT_LENGTH NUL), length ?t)"
    using base by (intro convert_numeral) (simp_all add: MAX_CONVERT_LENGTH_def)
  have prefix: "fmtint_prefix uvalue base flags =
      (if fmtint_prefix uvalue base flags = [] then []
       else [CHR ''0'', last (fmtint_prefix uvalue base flags)])"
    by (simp add: fmtint_prefix_def)
  have spad: "fmtint_spad uvalue sign base width precision flags ?t = spad"
    using fits by (auto simp: int32_def split: if_splits)
  have neg: "pad (- max 0 n) = []" "pad (- (- max 0 n)) = pad (max 0 n)" "pad 0 = []" for n
    by (simp_all add: pad_def)
  show ?thesis
    unfolding fmtint_def sign conv bindR_simps prod.case fmtint_layout_parts [OF fits]
      fmtint_print_emit fmtint_text_def Let_def spad
    by (subst (3) prefix) (simp add: neg)
qed

end
