(* ===== verification/Snprintf_Float.thy ===== *)
theory Snprintf_Float
  imports Complex_Main Snprintf_Base
begin

text \<open>
  \<open>src/src/base/mysnprintf.c\<close>, the floating point formatter \<open>fmtflt\<close> with its helpers
  \<open>getexponent\<close>, \<open>cast\<close>, \<open>myround\<close> and \<open>mypow10\<close>.

  \<open>LDOUBLE\<close> is \<open>double\<close> in this configuration. Its arithmetic is the parameter \<open>fops\<close>: one
  operation per C operator the code applies to a \<open>double\<close>. The lemmas hold for all operations, so
  also for the machine's; \<open>exact_fops\<close> computes with rational numbers and serves to evaluate the
  code on values whose decimal expansion is finite.
\<close>

unbundle bit_operations_syntax

section \<open>The operations on doubles\<close>

record 'f fops =
  f_of_uint :: "64 word \<Rightarrow> 'f"     \<comment> \<open>conversion from \<open>UINTMAX_T\<close>, also of integer constants\<close>
  f_half :: 'f                     \<comment> \<open>the constant 0.5\<close>
  f_to_uint :: "'f \<Rightarrow> 64 word"     \<comment> \<open>conversion to \<open>UINTMAX_T\<close>\<close>
  f_lt :: "'f \<Rightarrow> 'f \<Rightarrow> bool"
  f_ge :: "'f \<Rightarrow> 'f \<Rightarrow> bool"
  f_eq :: "'f \<Rightarrow> 'f \<Rightarrow> bool"
  f_add :: "'f \<Rightarrow> 'f \<Rightarrow> 'f"
  f_sub :: "'f \<Rightarrow> 'f \<Rightarrow> 'f"
  f_mul :: "'f \<Rightarrow> 'f \<Rightarrow> 'f"
  f_div :: "'f \<Rightarrow> 'f \<Rightarrow> 'f"
  f_neg :: "'f \<Rightarrow> 'f"

definition UINTMAX_MAX :: "64 word" where
  "UINTMAX_MAX = 18446744073709551615"

definition ISNAN :: "'f fops \<Rightarrow> 'f \<Rightarrow> bool" where
  "ISNAN F x \<longleftrightarrow> \<not> f_eq F x x"

definition ISINF :: "'f fops \<Rightarrow> 'f \<Rightarrow> bool" where
  "ISINF F x \<longleftrightarrow> \<not> f_eq F x (f_of_uint F 0) \<and> f_eq F (f_add F x x) x"

section \<open>cast, myround, mypow10, getexponent\<close>

definition castf :: "'f fops \<Rightarrow> 'f \<Rightarrow> 64 word" where
  "castf F v =
     (if f_ge F v (f_of_uint F UINTMAX_MAX) then UINTMAX_MAX
      else let result = f_to_uint F v
           in if f_ge F v (f_of_uint F result) then result else result - 1)"

definition myround :: "'f fops \<Rightarrow> 'f \<Rightarrow> 64 word" where
  "myround F v =
     (let intpart = castf F v
      in if f_lt F (f_sub F v (f_of_uint F intpart)) (f_half F) then intpart else intpart + 1)"

definition mypow10 :: "'f fops \<Rightarrow> int \<Rightarrow> 'f" where
  "mypow10 F exponent =
     (let ten = f_of_uint F 10
      in if 0 < exponent then ((\<lambda>result. f_mul F result ten) ^^ nat exponent) (f_of_uint F 1)
         else ((\<lambda>result. f_div F result ten) ^^ nat (- exponent)) (f_of_uint F 1))"

text \<open>
  The two loops of \<open>getexponent\<close>. The conditions decrement and increment \<open>exponent\<close>, which stops
  both loops whatever the arithmetic does.
\<close>

function getexponent_down :: "'f fops \<Rightarrow> 'f \<Rightarrow> int \<Rightarrow> 'f \<times> int" where
  "getexponent_down F tmp exponent =
     (if f_lt F tmp (f_of_uint F 1) \<and> f_lt F (f_of_uint F 0) tmp then
        (let exponent = exponent - 1
         in if -99 < exponent then getexponent_down F (f_mul F tmp (f_of_uint F 10)) exponent
            else (tmp, exponent))
      else (tmp, exponent))"
  by pat_completeness auto
termination
  by (relation "measure (\<lambda>(F, tmp, exponent). nat (exponent + 99))") auto

function getexponent_up :: "'f fops \<Rightarrow> 'f \<Rightarrow> int \<Rightarrow> int" where
  "getexponent_up F tmp exponent =
     (if f_ge F tmp (f_of_uint F 10) then
        (let exponent = exponent + 1
         in if exponent < 99 then getexponent_up F (f_div F tmp (f_of_uint F 10)) exponent
            else exponent)
      else exponent)"
  by pat_completeness auto
termination
  by (relation "measure (\<lambda>(F, tmp, exponent). nat (99 - exponent))") auto

declare getexponent_down.simps [simp del] getexponent_up.simps [simp del]

definition getexponent :: "'f fops \<Rightarrow> 'f \<Rightarrow> int" where
  "getexponent F v =
     (let tmp = (if f_ge F v (f_of_uint F 0) then v else f_neg F v);
          (tmp, exponent) = getexponent_down F tmp 0
      in getexponent_up F tmp exponent)"

section \<open>fmtflt\<close>

definition fmtflt_sign :: "'f fops \<Rightarrow> 'f \<Rightarrow> 32 word \<Rightarrow> char option" where
  "fmtflt_sign F fvalue flags =
     (if f_lt F fvalue (f_of_uint F 0) then Some CHR ''-''
      else if has flags PRINT_F_PLUS then Some CHR ''+''
      else if has flags PRINT_F_SPACE then Some CHR '' ''
      else None)"

definition fmtflt_infnan :: "'f fops \<Rightarrow> 'f \<Rightarrow> 32 word \<Rightarrow> string option" where
  "fmtflt_infnan F fvalue flags =
     (if ISNAN F fvalue then Some (if has flags PRINT_F_UP then ''NAN'' else ''nan'')
      else if ISINF F fvalue then Some (if has flags PRINT_F_UP then ''INF'' else ''inf'')
      else None)"

text \<open>
  One pass of the code after the label \<open>again\<close>: the integer and the fractional part of the scaled
  value, \<open>None\<close> for a value that is too large.
\<close>

definition fmtflt_parts ::
  "'f fops \<Rightarrow> 'f \<Rightarrow> int \<Rightarrow> int \<Rightarrow> bool \<Rightarrow> (int \<times> 64 word \<times> 64 word \<times> int) option" where
  "fmtflt_parts F fvalue precision exponent estyle =
     (let precision = (if 19 < precision then 19 else precision);
          ufvalue = (if f_ge F fvalue (f_of_uint F 0) then fvalue else f_neg F fvalue);
          ufvalue = (if estyle then f_div F ufvalue (mypow10 F exponent) else ufvalue);
          intpart = castf F ufvalue
      in if intpart = UINTMAX_MAX then None
         else
           let mask = f_to_uint F (mypow10 F precision);
               fracpart = myround F (f_mul F (f_of_uint F mask) (f_sub F ufvalue (f_of_uint F intpart)))
           in if mask \<le> fracpart then
                (let intpart = intpart + 1
                 in if estyle \<and> intpart = 10 then Some (precision, 1, 0, exponent + 1)
                    else Some (precision, intpart, 0, exponent))
              else Some (precision, intpart, fracpart, exponent))"

text \<open>The \<open>goto again\<close>: taken at most once, since it clears \<open>estyle\<close>.\<close>

definition fmtflt_again ::
  "'f fops \<Rightarrow> 'f \<Rightarrow> int \<Rightarrow> int \<Rightarrow> bool \<Rightarrow> 32 word \<Rightarrow> (int \<times> 64 word \<times> 64 word \<times> int \<times> bool) option"
where
  "fmtflt_again F fvalue precision exponent estyle flags =
     (case fmtflt_parts F fvalue precision exponent estyle of
        None \<Rightarrow> None
      | Some (precision, intpart, fracpart, exponent) \<Rightarrow>
          if has flags PRINT_F_TYPE_G \<and> estyle \<and> exponent < precision + 1 \<and> -4 \<le> exponent then
            (case fmtflt_parts F fvalue (precision - exponent) exponent False of
               None \<Rightarrow> None
             | Some (precision, intpart, fracpart, exponent) \<Rightarrow>
                 Some (precision, intpart, fracpart, exponent, False))
          else Some (precision, intpart, fracpart, exponent, estyle))"

text \<open>The exponent in reverse, into the 4 bytes of \<open>econvert\<close>; \<open>convert\<close> is given 2 of them.\<close>

definition fmtflt_exponent :: "int \<Rightarrow> 32 word \<Rightarrow> (char list \<times> nat) res" where
  "fmtflt_exponent exponent flags =
     (let (exponent, esign) = (if exponent < 0 then (- exponent, CHR ''-'') else (exponent, CHR ''+''))
      in bindR (convert (nat exponent) (replicate 2 NUL) 10 False) (\<lambda>(buf, epos).
         let econvert = buf @ replicate 2 NUL
         in bindR (if epos = 1 then bindR (wr econvert epos CHR ''0'') (\<lambda>e. Inr (e, epos + 1))
                   else Inr (econvert, epos)) (\<lambda>(econvert, epos).
            bindR (wr econvert epos esign) (\<lambda>econvert.
            bindR (wr econvert (epos + 1) (if has flags PRINT_F_UP then CHR ''E'' else CHR ''e''))
              (\<lambda>econvert. Inr (econvert, epos + 2))))))"

fun fmtflt_omit :: "char list \<Rightarrow> nat \<Rightarrow> nat \<Rightarrow> nat" where
  "fmtflt_omit fconvert 0 omitcount = omitcount"
| "fmtflt_omit fconvert (Suc n) omitcount =
     (if fconvert ! omitcount = CHR ''0'' then fmtflt_omit fconvert n (omitcount + 1) else omitcount)"

text \<open>
  The zeros after the point, the digits that are omitted, and the digits of the fraction that stay:
  \<open>(leadfraczeros, omitcount, precision)\<close>. The loop of \<open>fmtflt_omit\<close> makes at most \<open>fpos\<close> steps.
\<close>

definition fmtflt_fraction :: "char list \<Rightarrow> nat \<Rightarrow> int \<Rightarrow> bool \<Rightarrow> int \<times> int \<times> int" where
  "fmtflt_fraction fconvert fpos precision omitzeros =
     (let leadfraczeros = precision - int fpos
      in if omitzeros then
           (if 0 < fpos then
              (let omitcount = int (fmtflt_omit fconvert fpos 0)
               in (leadfraczeros, omitcount, precision - omitcount))
            else (0, precision, 0))
         else (leadfraczeros, 0, precision))"

fun fmtflt_frac_digits :: "char list \<Rightarrow> nat \<Rightarrow> int \<Rightarrow> obuf \<Rightarrow> obuf res" where
  "fmtflt_frac_digits fconvert 0 omitcount b = Inr b"
| "fmtflt_frac_digits fconvert (Suc fpos) omitcount b =
     (if omitcount < int (Suc fpos) then
        bindR (rd fconvert fpos) (\<lambda>d.
        bindR (OUTCHAR d b) (fmtflt_frac_digits fconvert fpos omitcount))
      else Inr b)"

text \<open>The padding of the field and its sign: what is printed before the integer part.\<close>

definition fmtflt_lead :: "obuf \<Rightarrow> char option \<Rightarrow> int \<Rightarrow> 32 word \<Rightarrow> (obuf \<times> int) res" where
  "fmtflt_lead b sign padlen flags =
     (let padlen = (if padlen < 0 then 0 else padlen)
      in if has flags PRINT_F_MINUS then bindR (out_opt sign b) (\<lambda>b. Inr (b, - padlen))
         else if has flags PRINT_F_ZERO \<and> 0 < padlen then
           bindR (out_opt sign b) (\<lambda>b.
           bindR (out_times (nat padlen) CHR ''0'' b) (\<lambda>b. Inr (b, 0)))
         else
           bindR (out_times (nat padlen) CHR '' '' b) (\<lambda>b.
           bindR (out_opt sign b) (\<lambda>b. Inr (b, 0))))"

definition fmtflt_print ::
  "obuf \<Rightarrow> char option \<Rightarrow> int \<Rightarrow> 32 word \<Rightarrow> char list \<times> nat \<Rightarrow> char list \<times> nat \<Rightarrow> char list \<times> nat
    \<Rightarrow> int \<times> int \<times> int \<Rightarrow> obuf res" where
  "fmtflt_print b sign width flags I F E fraction =
     (let (iconvert, ipos) = I; (fconvert, fpos) = F; (econvert, epos) = E;
          (leadfraczeros, omitcount, precision) = fraction;
          emitpoint = (0 < precision \<or> has flags PRINT_F_NUM);
          separators = (if has flags PRINT_F_QUOTE then getnumsep ipos else 0)
      in bindR (int32 (width - int ipos - int epos - precision - int separators
                  - (if emitpoint then 1 else 0) - (if sign \<noteq> None then 1 else 0))) (\<lambda>padlen.
         bindR (fmtflt_lead b sign padlen flags) (\<lambda>(b, padlen).
         bindR (fmtint_digits iconvert ipos (0 < separators) b) (\<lambda>b.
         bindR (if emitpoint then OUTCHAR CHR ''.'' b else Inr b) (\<lambda>b.
         bindR (out_times (nat leadfraczeros) CHR ''0'' b) (\<lambda>b.
         bindR (fmtflt_frac_digits fconvert fpos omitcount b) (\<lambda>b.
         bindR (fmtint_digits econvert epos False b)
           (out_times (nat (- padlen)) CHR '' ''))))))))"

text \<open>The result is the buffer and the flag \<open>*overflow\<close>.\<close>

definition fmtflt ::
  "'f fops \<Rightarrow> obuf \<Rightarrow> 'f \<Rightarrow> int \<Rightarrow> int \<Rightarrow> 32 word \<Rightarrow> (obuf \<times> bool) res" where
  "fmtflt F b fvalue width precision flags =
     (let precision = (if precision = -1 then 6 else precision);
          sign = fmtflt_sign F fvalue flags
      in case fmtflt_infnan F fvalue flags of
           Some infnan \<Rightarrow>
             (let text = (case sign of None \<Rightarrow> [] | Some c \<Rightarrow> [c]) @ infnan;
                  iconvert = text @ replicate (MAX_CONVERT_LENGTH - length text) NUL
              in bindR (fmtstr b (Some iconvert) width (int (length text)) flags)
                   (\<lambda>b. Inr (b, False)))
         | None \<Rightarrow>
             (let typed = has flags PRINT_F_TYPE_E \<or> has flags PRINT_F_TYPE_G;
                  precision = (if has flags PRINT_F_TYPE_G then precision - 1 else precision);
                  omitzeros = (has flags PRINT_F_TYPE_G \<and> \<not> has flags PRINT_F_NUM);
                  exponent = (if typed then getexponent F fvalue else 0)
              in case fmtflt_again F fvalue precision exponent typed flags of
                   None \<Rightarrow> Inr (b, True)
                 | Some (precision, intpart, fracpart, exponent, estyle) \<Rightarrow>
                     bindR (if estyle then fmtflt_exponent exponent flags else Inr ([], 0)) (\<lambda>E.
                     bindR (convert (unat intpart) (replicate MAX_CONVERT_LENGTH NUL) 10 False) (\<lambda>I.
                     bindR (if fracpart \<noteq> 0
                            then convert (unat fracpart) (replicate MAX_CONVERT_LENGTH NUL) 10 False
                            else Inr ([], 0)) (\<lambda>F.
                     bindR (fmtflt_print b sign width flags I F E
                              (fmtflt_fraction (fst F) (snd F) precision omitzeros))
                       (\<lambda>b. Inr (b, False)))))))"

section \<open>Every branch of fmtflt only prints\<close>

lemma convert_loop_total:
  "2 \<le> base \<Longrightarrow> base \<le> length digits \<Longrightarrow> pos < length buf \<Longrightarrow>
    \<exists>buf' pos'. convert_loop v buf pos base digits = Inr (buf', pos') \<and>
      length buf' = length buf \<and> pos < pos' \<and> pos' \<le> length buf"
proof (induction v buf pos base digits rule: convert_loop.induct)
  case (1 v buf pos base digits)
  have d: "v mod base < length digits"
    using 1(2,3) mod_less_divisor [of base v] by linarith
  show ?case
  proof (cases "v div base \<noteq> 0 \<and> Suc pos < length buf")
    case True
    then show ?thesis
      using 1(1) [of "digits ! (v mod base)" "buf[pos := digits ! (v mod base)]" "pos + 1" "v div base"]
        1(2-4) d by (subst convert_loop.simps) (fastforce simp: Let_def)
  next
    case False
    then show ?thesis using 1(4) d by (subst convert_loop.simps) (auto simp: Let_def)
  qed
qed

lemma convert_total:
  assumes "2 \<le> base" "base \<le> 16" "buf \<noteq> []"
  obtains buf' pos where "convert v buf base caps = Inr (buf', pos)"
    "length buf' = length buf" "0 < pos" "pos \<le> length buf"
proof -
  have "convert v buf base caps = convert_loop v buf 0 base (digit_table caps)"
    by (simp add: convert_def digit_table_def)
  then show ?thesis
    using convert_loop_total [of base "digit_table caps" 0 buf v] assms that by auto
qed

lemma fmtint_digits_total:
  "pos \<le> length iconvert \<Longrightarrow> \<exists>s. fmtint_digits iconvert pos separators b = Inr (emit s b)"
proof (induction pos arbitrary: b)
  case 0
  then show ?case by (auto intro: exI [of _ "[]"])
next
  case (Suc pos)
  let ?s = "iconvert ! pos # (if separators \<and> 0 < pos \<and> pos mod 3 = 0 then '','' else [])"
  obtain t where "fmtint_digits iconvert pos separators (emit ?s b) = Inr (emit t (emit ?s b))"
    using Suc by fastforce
  then show ?case
    using Suc.prems by (intro exI [of _ "?s @ t"]) (auto simp: printsep_def)
qed

lemma fmtflt_frac_digits_total:
  "pos \<le> length fconvert \<Longrightarrow> \<exists>s. fmtflt_frac_digits fconvert pos omitcount b = Inr (emit s b)"
proof (induction pos arbitrary: b)
  case 0
  then show ?case by (auto intro: exI [of _ "[]"])
next
  case (Suc pos)
  obtain t where "fmtflt_frac_digits fconvert pos omitcount (putc (fconvert ! pos) b)
      = Inr (emit t (putc (fconvert ! pos) b))"
    using Suc by fastforce
  then show ?case
    using Suc.prems
    by (cases "omitcount < int (Suc pos)")
      (auto intro: exI [of _ "fconvert ! pos # t"] exI [of _ "[]"])
qed

lemma fmtflt_lead_total:
  "\<exists>s padlen'. fmtflt_lead b sign padlen flags = Inr (emit s b, padlen')"
proof -
  let ?sg = "case sign of None \<Rightarrow> [] | Some c \<Rightarrow> [c]" and ?n = "nat (if padlen < 0 then 0 else padlen)"
  have "emit ?sg b = emit ?sg b"
    "emit (replicate ?n CHR ''0'') (emit ?sg b) = emit (?sg @ replicate ?n CHR ''0'') b"
    "emit ?sg (emit (replicate ?n CHR '' '') b) = emit (replicate ?n CHR '' '' @ ?sg) b"
    by simp_all
  then show ?thesis
    unfolding fmtflt_lead_def Let_def out_opt_emit out_times_emit bindR_simps
    by (metis (no_types, lifting))
qed

text \<open>Each part of the field is printed in full, so the output is one text.\<close>

lemma fmtflt_print_total:
  assumes "snd I \<le> length (fst I)" "snd F \<le> length (fst F)" "snd E \<le> length (fst E)"
  shows "(\<exists>s. fmtflt_print b sign width flags I F E fraction = Inr (emit s b)) \<or>
    fmtflt_print b sign width flags I F E fraction = Inl Signed_Overflow"
proof -
  obtain iconvert ipos fconvert fpos econvert epos lead omit prec where
    parts: "I = (iconvert, ipos)" "F = (fconvert, fpos)" "E = (econvert, epos)"
      "fraction = (lead, omit, prec)"
    by (cases I; cases F; cases E; cases fraction) auto
  have bounds: "ipos \<le> length iconvert" "fpos \<le> length fconvert" "epos \<le> length econvert"
    using assms by (simp_all add: parts)
  have int32_cases: "int32 n = Inr n \<or> int32 n = Inl Signed_Overflow" for n
    by (simp add: int32_def)
  have point: "(if c then OUTCHAR CHR ''.'' b else Inr b) = Inr (emit (if c then ''.'' else []) b)"
    for c b by simp
  have tail: "\<exists>s. bindR (fmtint_digits iconvert ipos sp b') (\<lambda>b.
      bindR (if c then OUTCHAR CHR ''.'' b else Inr b) (\<lambda>b.
      bindR (out_times n CHR ''0'' b) (\<lambda>b.
      bindR (fmtflt_frac_digits fconvert fpos omit b) (\<lambda>b.
      bindR (fmtint_digits econvert epos False b) (out_times m CHR '' ''))))) = Inr (emit s b')"
    for sp c n m b'
  proof -
    obtain s1 where s1: "fmtint_digits iconvert ipos sp b' = Inr (emit s1 b')"
      using fmtint_digits_total [OF bounds(1)] by blast
    let ?b1 = "emit (s1 @ (if c then ''.'' else []) @ replicate n CHR ''0'') b'"
    obtain s2 where s2: "fmtflt_frac_digits fconvert fpos omit ?b1 = Inr (emit s2 ?b1)"
      using fmtflt_frac_digits_total [OF bounds(2)] by blast
    obtain s3 where s3: "fmtint_digits econvert epos False (emit s2 ?b1) = Inr (emit s3 (emit s2 ?b1))"
      using fmtint_digits_total [OF bounds(3)] by blast
    show ?thesis
      using s2 s3 unfolding s1 bindR_simps point out_times_emit
      by (intro exI [of _ "s1 @ (if c then ''.'' else []) @ replicate n CHR ''0'' @ s2 @ s3 @
            replicate m CHR '' ''"]) simp
  qed
  let ?e = "0 < prec \<or> has flags PRINT_F_NUM"
  let ?sep = "if has flags PRINT_F_QUOTE then getnumsep ipos else 0"
  let ?pad = "width - int ipos - int epos - prec - int ?sep - (if ?e then 1 else 0)
    - (if sign \<noteq> None then 1 else 0)"
  define p where "p = ?pad"
  obtain s0 padlen' where lead: "fmtflt_lead b sign p flags = Inr (emit s0 b, padlen')"
    using fmtflt_lead_total by blast
  obtain s1 where "fmtflt_print b sign width flags I F E fraction =
      bindR (int32 p) (\<lambda>_. Inr (emit s1 (emit s0 b)))"
    using tail [of "0 < ?sep" "emit s0 b" ?e "nat lead" "nat (- padlen')"] int32_cases [of p] lead
    unfolding fmtflt_print_def Let_def parts prod.case p_def [symmetric] by auto
  then show ?thesis
    using int32_cases [of p] by (auto intro: exI [of _ "s0 @ s1"])
qed

lemma fmtflt_exponent_total:
  "\<exists>E. fmtflt_exponent exponent flags = Inr E \<and> snd E \<le> length (fst E)"
proof -
  have "(2::nat) \<le> 10" "(10::nat) \<le> 16" "replicate 2 NUL \<noteq> []" by (simp_all add: numeral_2_eq_2)
  then obtain buf epos where
    "convert (nat \<bar>exponent\<bar>) (replicate 2 NUL) 10 False = Inr (buf, epos)"
    "length buf = 2" "0 < epos" "epos \<le> 2"
    by (metis convert_total length_replicate)
  then show ?thesis
  proof -
    let ?sg = "if exponent < 0 then CHR ''-'' else CHR ''+''"
    have n: "(if exponent < 0 then (- exponent, CHR ''-'') else (exponent, CHR ''+'')) = (\<bar>exponent\<bar>, ?sg)"
      by simp
    have "epos = 1 \<or> epos = 2" using \<open>0 < epos\<close> \<open>epos \<le> 2\<close> by linarith
    then show ?thesis
      unfolding fmtflt_exponent_def Let_def n prod.case
        \<open>convert (nat \<bar>exponent\<bar>) (replicate 2 NUL) 10 False = Inr (buf, epos)\<close> bindR_simps
      using \<open>length buf = 2\<close> by (elim disjE) simp_all
  qed
qed

text \<open>
  Whatever the arithmetic: \<open>fmtflt\<close> never reads or writes outside its buffers; it prints a text, or
  reports an overflow and prints nothing, or the width overflows an \<open>int\<close>.
\<close>

lemma fmtflt_total:
  "(\<exists>s ov. fmtflt F b fvalue width precision flags = Inr (emit s b, ov)) \<or>
    fmtflt F b fvalue width precision flags = Inl Signed_Overflow"
proof (cases "fmtflt_infnan F fvalue flags")
  case (Some infnan)
  let ?text = "(case fmtflt_sign F fvalue flags of None \<Rightarrow> [] | Some c \<Rightarrow> [c]) @ infnan"
  have "cvalid ?text" "length ?text < MAX_CONVERT_LENGTH"
    using Some by (auto simp: fmtflt_infnan_def fmtflt_sign_def MAX_CONVERT_LENGTH_def split: if_splits)
  moreover from this obtain k where "MAX_CONVERT_LENGTH - length ?text = Suc k"
    by (metis Suc_diff_Suc)
  ultimately have "fmtstr b (Some (?text @ replicate (MAX_CONVERT_LENGTH - length ?text) NUL)) width
      (int (length ?text)) flags = Inr (emit (fmtstr_text ?text width flags) b)"
    using fmtstr_emit [of ?text b "replicate k NUL" width "int (length ?text)" flags]
    by (simp add: cstr_def)
  then have "fmtflt F b fvalue width precision flags = Inr (emit (fmtstr_text ?text width flags) b, False)"
    by (simp add: fmtflt_def Some Let_def)
  then show ?thesis by blast
next
  case None
  let ?typed = "has flags PRINT_F_TYPE_E \<or> has flags PRINT_F_TYPE_G"
  let ?p = "if precision = -1 then 6 else precision"
  let ?r = "fmtflt_again F fvalue (if has flags PRINT_F_TYPE_G then ?p - 1 else ?p)
    (if ?typed then getexponent F fvalue else 0) ?typed flags"
  have conv: "\<exists>I. convert v (replicate MAX_CONVERT_LENGTH NUL) 10 False = Inr I \<and> snd I \<le> length (fst I)"
    for v
    by (rule convert_total [of 10 "replicate MAX_CONVERT_LENGTH NUL" v False])
      (auto simp: MAX_CONVERT_LENGTH_def)
  have frac: "\<exists>I. (if c then convert v (replicate MAX_CONVERT_LENGTH NUL) 10 False else Inr ([], 0)) = Inr I
      \<and> snd I \<le> length (fst I)" for c v
    using conv [of v] by simp
  have expo: "\<exists>E. (if c then fmtflt_exponent e flags else Inr ([], 0)) = Inr E \<and> snd E \<le> length (fst E)"
    for c e
    using fmtflt_exponent_total [of e flags] by simp
  show ?thesis
  proof (cases ?r)
    case None
    then show ?thesis
      using \<open>fmtflt_infnan F fvalue flags = None\<close> unfolding fmtflt_def Let_def
      by (auto intro: exI [of _ "[]"])
  next
    case (Some r)
    obtain prec intpart fracpart exponent estyle where r: "r = (prec, intpart, fracpart, exponent, estyle)"
      by (cases r) auto
    obtain I where I: "convert (unat intpart) (replicate MAX_CONVERT_LENGTH NUL) 10 False = Inr I"
      "snd I \<le> length (fst I)" using conv by blast
    obtain G where G: "(if fracpart \<noteq> 0 then convert (unat fracpart) (replicate MAX_CONVERT_LENGTH NUL) 10 False
        else Inr ([], 0)) = Inr G" "snd G \<le> length (fst G)" using frac by blast
    obtain E where E: "(if estyle then fmtflt_exponent exponent flags else Inr ([], 0)) = Inr E"
      "snd E \<le> length (fst E)" using expo by blast
    show ?thesis
      using fmtflt_print_total [OF I(2) G(2) E(2), of b "fmtflt_sign F fvalue flags" width flags]
      unfolding fmtflt_def Let_def None option.case Some r prod.case E(1) I(1) G(1) bindR_simps
      by (metis bindR_simps)
  qed
qed

end
