(* ===== verification/Snprintf_Format.thy ===== *)
theory Snprintf_Format
  imports Snprintf_Table Snprintf_Float
begin

text \<open>
  \<open>src/src/base/mysnprintf.c\<close>, \<open>o_vsnprintf\<close> and \<open>o_snprintf\<close>: the state machine that reads the
  format, with the fast paths for \<open>%c %s %d %i %u %ld %li %lu %lld %lli %llu %N\<close> in its state
  \<open>PRINT_S_FLAGS\<close>.

  The record \<open>printer\<close> holds the local variables of the function, the static \<open>scratch_buffer\<close> and
  what is reachable through its pointers: the output buffer, the rest of the format with its
  terminator, the rest of the arguments, and the stores of \<open>%n\<close>. There is one definition per state
  of the machine and per fast path. A step ends with \<open>Next\<close>, or with \<open>Over\<close> where the code does
  \<open>goto over\<close>.
\<close>

unbundle bit_operations_syntax

section \<open>The variables of the function\<close>

datatype print_s =
  PRINT_S_DEFAULT | PRINT_S_FLAGS | PRINT_S_WIDTH | PRINT_S_DOT | PRINT_S_PRECISION
| PRINT_S_MOD | PRINT_S_CONV

datatype print_c =
  PRINT_C_NONE   \<comment> \<open>the initial value 0\<close>
| PRINT_C_CHAR | PRINT_C_SHORT | PRINT_C_LONG | PRINT_C_LLONG | PRINT_C_LDOUBLE | PRINT_C_SIZE
| PRINT_C_PTRDIFF | PRINT_C_INTMAX

text \<open>
  The variable arguments: \<open>VInt\<close> for \<open>int\<close>, \<open>unsigned int\<close> and \<open>size_t\<close>, \<open>VLong\<close> for the two \<open>long\<close>
  types and \<open>ptrdiff_t\<close>, \<open>VLLong\<close> for the two \<open>long long\<close> types. A string is the object its pointer
  points to; \<open>VOut\<close> is the address of a variable that \<open>%n\<close> stores to.
\<close>

datatype 'f vararg =
  VInt "32 word" | VLong "32 word" | VLLong "64 word" | VDouble 'f
| VStr "char list option" | VPtr "32 word" | VOut nat

record 'f printer =
  p_out :: "char list"
  p_len :: nat
  p_overflow :: bool
  p_base :: nat
  p_cflags :: print_c
  p_flags :: "32 word"
  p_width :: int
  p_precision :: int
  p_state :: print_s
  p_ch :: char
  p_format :: "char list"
  p_args :: "'f vararg list"
  p_scratch :: "char list"
  p_stores :: "(nat \<times> nat \<times> nat) list"    \<comment> \<open>address, bytes, value\<close>

datatype 'a ctl = Next 'a | Over 'a

definition p_buf :: "'f printer \<Rightarrow> obuf" where
  "p_buf s = (p_out s, p_len s)"

definition with_buf :: "obuf \<Rightarrow> 'f printer \<Rightarrow> 'f printer" where
  "with_buf b s = s\<lparr>p_out := fst b, p_len := snd b\<rparr>"

text \<open>\<open>ch = *format++\<close>, and the fetch with which the fast paths end.\<close>

definition fetch :: "'f printer \<Rightarrow> 'f printer res" where
  "fetch s = (case p_format s of [] \<Rightarrow> Inl Read_Out_Of_Bounds
              | c # f \<Rightarrow> Inr (s\<lparr>p_ch := c, p_format := f\<rparr>))"

definition resume :: "'f printer \<Rightarrow> 'f printer ctl res" where
  "resume s = bindR (fetch (s\<lparr>p_state := PRINT_S_DEFAULT\<rparr>)) (\<lambda>s. Inr (Next s))"

definition set_flag :: "32 word \<Rightarrow> 'f printer \<Rightarrow> 'f printer" where
  "set_flag f s = s\<lparr>p_flags := p_flags s OR f\<rparr>"

section \<open>va_arg\<close>

definition va_int :: "'f printer \<Rightarrow> ('f printer \<times> 32 word) res" where
  "va_int s = (case p_args s of VInt w # as \<Rightarrow> Inr (s\<lparr>p_args := as\<rparr>, w) | _ \<Rightarrow> Inl Bad_Vararg)"

definition va_long :: "'f printer \<Rightarrow> ('f printer \<times> 32 word) res" where
  "va_long s = (case p_args s of VLong w # as \<Rightarrow> Inr (s\<lparr>p_args := as\<rparr>, w) | _ \<Rightarrow> Inl Bad_Vararg)"

definition va_llong :: "'f printer \<Rightarrow> ('f printer \<times> 64 word) res" where
  "va_llong s = (case p_args s of VLLong w # as \<Rightarrow> Inr (s\<lparr>p_args := as\<rparr>, w) | _ \<Rightarrow> Inl Bad_Vararg)"

definition va_double :: "'f printer \<Rightarrow> ('f printer \<times> 'f) res" where
  "va_double s = (case p_args s of VDouble v # as \<Rightarrow> Inr (s\<lparr>p_args := as\<rparr>, v) | _ \<Rightarrow> Inl Bad_Vararg)"

definition va_str :: "'f printer \<Rightarrow> ('f printer \<times> char list option) res" where
  "va_str s = (case p_args s of VStr v # as \<Rightarrow> Inr (s\<lparr>p_args := as\<rparr>, v) | _ \<Rightarrow> Inl Bad_Vararg)"

definition va_ptr :: "'f printer \<Rightarrow> ('f printer \<times> 32 word) res" where
  "va_ptr s = (case p_args s of VPtr w # as \<Rightarrow> Inr (s\<lparr>p_args := as\<rparr>, w) | _ \<Rightarrow> Inl Bad_Vararg)"

definition va_out :: "'f printer \<Rightarrow> ('f printer \<times> nat) res" where
  "va_out s = (case p_args s of VOut a # as \<Rightarrow> Inr (s\<lparr>p_args := as\<rparr>, a) | _ \<Rightarrow> Inl Bad_Vararg)"

lemmas va_defs = va_int_def va_long_def va_llong_def va_double_def va_str_def va_ptr_def va_out_def

section \<open>The fast decimal conversion\<close>

text \<open>
  The loop divides by 1000 and copies three digits from the table, from the end of
  \<open>scratch_buffer\<close> downwards; \<open>s\<close> is the index of the next byte to store.
\<close>

function atoi_digits :: "nat \<Rightarrow> char list \<Rightarrow> int \<Rightarrow> (char list \<times> int) res" where
  "atoi_digits v1 scratch s =
     (let v2 = v1 div 1000;
          ap = 2 + (v1 - 1000 * v2) * 4
      in bindR (rd atoi_tab ap) (\<lambda>d. bindR (wri scratch s d) (\<lambda>scratch.
         bindR (rd atoi_tab (ap - 1)) (\<lambda>d. bindR (wri scratch (s - 1) d) (\<lambda>scratch.
         bindR (rd atoi_tab (ap - 2)) (\<lambda>d. bindR (wri scratch (s - 2) d) (\<lambda>scratch.
         if 0 < v2 then atoi_digits v2 scratch (s - 3) else Inr (scratch, s - 3))))))))"
  by pat_completeness auto
termination
  by (relation "measure (\<lambda>(v1, scratch, s). v1)") auto

text \<open>\<open>while ('0' == *++s)\<close>.\<close>

function atoi_skip :: "char list \<Rightarrow> int \<Rightarrow> int res" where
  "atoi_skip scratch s =
     bindR (rdi scratch (s + 1)) (\<lambda>c.
     if c = CHR ''0'' then atoi_skip scratch (s + 1) else Inr (s + 1))"
  by pat_completeness auto
termination
  by (relation "measure (\<lambda>(scratch, s). nat (int (length scratch) - s))")
    (auto simp: rdi_def rd_Inr_iff split: if_splits)

declare atoi_digits.simps [simp del] atoi_skip.simps [simp del]

text \<open>
  \<open>fast_memcpy(out + len, s, n)\<close> on a memory that holds the output buffer and the scratch buffer
  one after the other.
\<close>

definition copy_out :: "char list \<Rightarrow> nat \<Rightarrow> char list \<Rightarrow> nat \<Rightarrow> nat \<Rightarrow> char list res" where
  "copy_out out len scratch s n =
     bindR (assertR (len + n \<le> length out) Write_Out_Of_Bounds) (\<lambda>_.
     bindR (assertR (s + n \<le> length scratch) Read_Out_Of_Bounds) (\<lambda>_.
     bindR (fast_memcpy (\<lambda>a. (out @ scratch) ! a) len (length out + s) n) (\<lambda>(m, _).
     Inr (map m [0..<length out]))))"

text \<open>The digits of a positive value, then the copy of those that fit.\<close>

definition fast_digits :: "nat \<Rightarrow> 'f printer \<Rightarrow> 'f printer res" where
  "fast_digits v1 s =
     bindR (atoi_digits v1 (p_scratch s) (int (length (p_scratch s)) - 1)) (\<lambda>(scratch, i).
     bindR (atoi_skip scratch i) (\<lambda>i.
     let n = nat (int (length scratch) - i);
         n = (if p_len s + n < length (p_out s) then n else length (p_out s) - p_len s)
     in bindR (copy_out (p_out s) (p_len s) scratch (nat i) n) (\<lambda>out.
        Inr (s\<lparr>p_out := out, p_len := p_len s + n, p_scratch := scratch\<rparr>))))"

text \<open>\<open>out[len++] = c\<close>.\<close>

definition put1 :: "char \<Rightarrow> 'f printer \<Rightarrow> 'f printer res" where
  "put1 c s = bindR (wr (p_out s) (p_len s) c) (\<lambda>out. Inr (s\<lparr>p_out := out, p_len := p_len s + 1\<rparr>))"

definition full :: "'f printer \<Rightarrow> bool" where
  "full s \<longleftrightarrow> length (p_out s) \<le> p_len s + 1"

text \<open>\<open>format += n\<close>.\<close>

definition skip_format :: "nat \<Rightarrow> 'f printer \<Rightarrow> 'f printer" where
  "skip_format n s = s\<lparr>p_format := drop n (p_format s)\<rparr>"

section \<open>The fast paths\<close>

definition fast_c :: "'f printer \<Rightarrow> 'f printer ctl res" where
  "fast_c s =
     bindR (va_int s) (\<lambda>(s, v).
     bindR (if \<not> full s then put1 (char_of (unat v)) s else Inr s) resume)"

fun fast_s_loop :: "char list \<Rightarrow> obuf \<Rightarrow> obuf res" where
  "fast_s_loop [] b = Inl Read_Out_Of_Bounds"
| "fast_s_loop (c # v) (out, len) =
     (if c \<noteq> NUL \<and> len + 1 < length out
      then bindR (wr out len c) (\<lambda>out. fast_s_loop v (out, len + 1))
      else Inr (out, len))"

definition fast_s :: "'f printer \<Rightarrow> 'f printer ctl res" where
  "fast_s s =
     bindR (va_str s) (\<lambda>(s, v).
     case v of None \<Rightarrow> Inl Null_Dereference
     | Some v \<Rightarrow> bindR (fast_s_loop v (p_buf s)) (\<lambda>b. resume (with_buf b s)))"

text \<open>The negation \<open>v1 = -v1\<close> of an \<open>int\<close> or \<open>long\<close>, and of a \<open>long long\<close>.\<close>

definition negate32 :: "32 word \<Rightarrow> nat res" where
  "negate32 v = (if sint v = - (2 ^ 31) then Inl Signed_Overflow else Inr (nat (- sint v)))"

definition negate64 :: "64 word \<Rightarrow> nat res" where
  "negate64 v = (if sint v = - (2 ^ 63) then Inl Signed_Overflow else Inr (nat (- sint v)))"

definition fast_d :: "'f printer \<Rightarrow> 'f printer ctl res" where
  "fast_d s =
     bindR (va_int s) (\<lambda>(s, v1).
     if full s then Inr (Over s)
     else if v1 = 0 then bindR (put1 CHR ''0'' s) resume
     else if sint v1 < 0 then
       bindR (put1 CHR ''-'' s) (\<lambda>s.
       bindR (negate32 v1) (\<lambda>v1. bindR (fast_digits v1 s) resume))
     else bindR (fast_digits (unat v1) s) resume)"

definition fast_u :: "'f printer \<Rightarrow> 'f printer ctl res" where
  "fast_u s =
     bindR (va_int s) (\<lambda>(s, v1).
     if full s then Inr (Over s)
     else if v1 = 0 then bindR (put1 CHR ''0'' s) resume
     else bindR (fast_digits (unat v1) s) resume)"

text \<open>
  The branches of \<open>'l'\<close>. For the value zero they fetch the next character without the increment of
  \<open>format\<close> that the other branches have.
\<close>

definition fast_ld :: "'f printer \<Rightarrow> 'f printer ctl res" where
  "fast_ld s =
     bindR (va_long s) (\<lambda>(s, v1).
     if full s then Inr (Over s)
     else if v1 = 0 then bindR (put1 CHR ''0'' s) resume
     else if sint v1 < 0 then
       bindR (put1 CHR ''-'' s) (\<lambda>s.
       bindR (negate32 v1) (\<lambda>v1. bindR (fast_digits v1 s) (\<lambda>s. resume (skip_format 1 s))))
     else bindR (fast_digits (unat v1) s) (\<lambda>s. resume (skip_format 1 s)))"

definition fast_lu :: "'f printer \<Rightarrow> 'f printer ctl res" where
  "fast_lu s =
     bindR (va_long s) (\<lambda>(s, v1).
     if full s then Inr (Over s)
     else if v1 = 0 then bindR (put1 CHR ''0'' s) resume
     else bindR (fast_digits (unat v1) s) (\<lambda>s. resume (skip_format 1 s)))"

definition fast_lld :: "'f printer \<Rightarrow> 'f printer ctl res" where
  "fast_lld s =
     bindR (va_llong s) (\<lambda>(s, v1).
     if full s then Inr (Over s)
     else if v1 = 0 then bindR (put1 CHR ''0'' s) resume
     else if sint v1 < 0 then
       bindR (put1 CHR ''-'' s) (\<lambda>s.
       bindR (negate64 v1) (\<lambda>v1. bindR (fast_digits v1 s) (\<lambda>s. resume (skip_format 2 s))))
     else bindR (fast_digits (unat v1) s) (\<lambda>s. resume (skip_format 2 s)))"

definition fast_llu :: "'f printer \<Rightarrow> 'f printer ctl res" where
  "fast_llu s =
     bindR (va_llong s) (\<lambda>(s, v1).
     if full s then Inr (Over s)
     else if v1 = 0 then bindR (put1 CHR ''0'' s) resume
     else bindR (fast_digits (unat v1) s) (\<lambda>s. resume (skip_format 2 s)))"

text \<open>\<open>*(format)\<close> and \<open>*(format + 1)\<close>; the second is read only after an \<open>l\<close>.\<close>

definition fast_l :: "'f printer \<Rightarrow> 'f printer ctl res" where
  "fast_l s =
     bindR (rd (p_format s) 0) (\<lambda>c.
     if c = CHR ''d'' \<or> c = CHR ''i'' then fast_ld s
     else if c = CHR ''u'' then fast_lu s
     else if c = CHR ''l'' then
       bindR (rd (p_format s) 1) (\<lambda>c.
       if c = CHR ''d'' \<or> c = CHR ''i'' then fast_lld s
       else if c = CHR ''u'' then fast_llu s
       else Inr (Next (s\<lparr>p_state := PRINT_S_WIDTH\<rparr>)))
     else Inr (Next (s\<lparr>p_state := PRINT_S_WIDTH\<rparr>)))"

definition fast_N :: "'f printer \<Rightarrow> 'f printer ctl res" where
  "fast_N s =
     bindR (va_int s) (\<lambda>(s, v1).
     let ap = unat (push_bit 2 v1)
     in bindR (if p_len s + 3 < length (p_out s) then
                 bindR (rd atoi_tab ap) (\<lambda>c. bindR (put1 c s) (\<lambda>s.
                 bindR (rd atoi_tab (ap + 1)) (\<lambda>c. bindR (put1 c s) (\<lambda>s.
                 bindR (rd atoi_tab (ap + 2)) (\<lambda>c. put1 c s)))))
               else Inr s) resume)"

section \<open>The states of the machine\<close>

definition step_default :: "'f printer \<Rightarrow> 'f printer ctl res" where
  "step_default s =
     bindR (if p_ch s = CHR ''%'' then Inr (s\<lparr>p_state := PRINT_S_FLAGS\<rparr>)
            else bindR (OUTCHAR (p_ch s) (p_buf s)) (\<lambda>b. Inr (with_buf b s))) (\<lambda>s.
     bindR (fetch s) (\<lambda>s. Inr (Next s)))"

text \<open>The flag a character of the state \<open>PRINT_S_FLAGS\<close> sets.\<close>

definition flag_of :: "char \<Rightarrow> 32 word option" where
  "flag_of c =
     (if c = CHR ''-'' then Some PRINT_F_MINUS
      else if c = CHR ''+'' then Some PRINT_F_PLUS
      else if c = CHR '' '' then Some PRINT_F_SPACE
      else if c = CHR ''#'' then Some PRINT_F_NUM
      else if c = CHR ''0'' then Some PRINT_F_ZERO
      else if c = CHR 0x27 then Some PRINT_F_QUOTE
      else None)"

definition step_flags :: "'f printer \<Rightarrow> 'f printer ctl res" where
  "step_flags s =
     (case flag_of (p_ch s) of
        Some f \<Rightarrow> bindR (fetch (set_flag f s)) (\<lambda>s. Inr (Next s))
      | None \<Rightarrow>
          if p_ch s = CHR ''c'' then fast_c s
          else if p_ch s = CHR ''s'' then fast_s s
          else if p_ch s = CHR ''d'' \<or> p_ch s = CHR ''i'' then fast_d s
          else if p_ch s = CHR ''u'' then fast_u s
          else if p_ch s = CHR ''l'' then fast_l s
          else if p_ch s = CHR ''N'' then fast_N s
          else Inr (Next (s\<lparr>p_state := PRINT_S_WIDTH\<rparr>)))"

definition CHARTOINT :: "char \<Rightarrow> int" where
  "CHARTOINT c = int (of_char c) - 48"

definition step_width :: "'f printer \<Rightarrow> 'f printer ctl res" where
  "step_width s =
     (if isdigit (p_ch s) then
        (if (INT_MAX - CHARTOINT (p_ch s)) div 10 < p_width s
         then Inr (Over (s\<lparr>p_overflow := True\<rparr>))
         else bindR (fetch (s\<lparr>p_width := 10 * p_width s + CHARTOINT (p_ch s)\<rparr>)) (\<lambda>s. Inr (Next s)))
      else if p_ch s = CHR ''*'' then
        bindR (va_int s) (\<lambda>(s, w).
        bindR (if sint w < 0
               then bindR (int32 (- sint w)) (\<lambda>w. Inr ((set_flag PRINT_F_MINUS s)\<lparr>p_width := w\<rparr>))
               else Inr (s\<lparr>p_width := sint w\<rparr>)) (\<lambda>s.
        bindR (fetch s) (\<lambda>s. Inr (Next (s\<lparr>p_state := PRINT_S_DOT\<rparr>)))))
      else Inr (Next (s\<lparr>p_state := PRINT_S_DOT\<rparr>)))"

definition step_dot :: "'f printer \<Rightarrow> 'f printer ctl res" where
  "step_dot s =
     (if p_ch s = CHR ''.''
      then bindR (fetch (s\<lparr>p_state := PRINT_S_PRECISION\<rparr>)) (\<lambda>s. Inr (Next s))
      else Inr (Next (s\<lparr>p_state := PRINT_S_MOD\<rparr>)))"

definition step_precision :: "'f printer \<Rightarrow> 'f printer ctl res" where
  "step_precision s =
     (let s = (if p_precision s = -1 then s\<lparr>p_precision := 0\<rparr> else s)
      in if isdigit (p_ch s) then
        (if (INT_MAX - CHARTOINT (p_ch s)) div 10 < p_precision s
         then Inr (Over (s\<lparr>p_overflow := True\<rparr>))
         else bindR (fetch (s\<lparr>p_precision := 10 * p_precision s + CHARTOINT (p_ch s)\<rparr>))
                (\<lambda>s. Inr (Next s)))
      else if p_ch s = CHR ''*'' then
        bindR (va_int s) (\<lambda>(s, w).
        bindR (fetch (s\<lparr>p_precision := if sint w < 0 then -1 else sint w\<rparr>)) (\<lambda>s.
        Inr (Next (s\<lparr>p_state := PRINT_S_MOD\<rparr>))))
      else Inr (Next (s\<lparr>p_state := PRINT_S_MOD\<rparr>)))"

text \<open>A modifier that is doubled, as in \<open>hh\<close> and \<open>ll\<close>.\<close>

definition mod_double :: "char \<Rightarrow> print_c \<Rightarrow> print_c \<Rightarrow> 'f printer \<Rightarrow> 'f printer res" where
  "mod_double c twice once s =
     bindR (fetch s) (\<lambda>s.
     if p_ch s = c then bindR (fetch s) (\<lambda>s. Inr (s\<lparr>p_cflags := twice\<rparr>))
     else Inr (s\<lparr>p_cflags := once\<rparr>))"

definition step_mod :: "'f printer \<Rightarrow> 'f printer ctl res" where
  "step_mod s =
     (let ch = p_ch s
      in bindR (if ch = CHR ''h'' then mod_double CHR ''h'' PRINT_C_CHAR PRINT_C_SHORT s
                else if ch = CHR ''l'' then mod_double CHR ''l'' PRINT_C_LLONG PRINT_C_LONG s
                else if ch = CHR ''L'' then fetch (s\<lparr>p_cflags := PRINT_C_LDOUBLE\<rparr>)
                else if ch = CHR ''j'' then fetch (s\<lparr>p_cflags := PRINT_C_INTMAX\<rparr>)
                else if ch = CHR ''t'' then fetch (s\<lparr>p_cflags := PRINT_C_PTRDIFF\<rparr>)
                else if ch = CHR ''z'' then fetch (s\<lparr>p_cflags := PRINT_C_SIZE\<rparr>)
                else Inr s)
           (\<lambda>s. Inr (Next (s\<lparr>p_state := PRINT_S_CONV\<rparr>))))"

section \<open>The state PRINT_S_CONV\<close>

text \<open>
  The value of \<open>%d\<close> as an \<open>INTMAX_T\<close>. \<open>SSIZE_T\<close> is \<open>size_t\<close> in this configuration, so the value of
  \<open>%zd\<close> is extended with zeros.
\<close>

definition signed_arg :: "'f printer \<Rightarrow> ('f printer \<times> 64 word) res" where
  "signed_arg s =
     (case p_cflags s of
        PRINT_C_CHAR \<Rightarrow> bindR (va_int s) (\<lambda>(s, w). Inr (s, scast (ucast w :: 8 word)))
      | PRINT_C_SHORT \<Rightarrow> bindR (va_int s) (\<lambda>(s, w). Inr (s, scast (ucast w :: 16 word)))
      | PRINT_C_LONG \<Rightarrow> bindR (va_long s) (\<lambda>(s, w). Inr (s, scast w))
      | PRINT_C_LLONG \<Rightarrow> va_llong s
      | PRINT_C_SIZE \<Rightarrow> bindR (va_int s) (\<lambda>(s, w). Inr (s, ucast w))
      | PRINT_C_INTMAX \<Rightarrow> va_llong s
      | PRINT_C_PTRDIFF \<Rightarrow> bindR (va_long s) (\<lambda>(s, w). Inr (s, scast w))
      | _ \<Rightarrow> bindR (va_int s) (\<lambda>(s, w). Inr (s, scast w)))"

text \<open>The value of \<open>%o %u %x\<close>; \<open>UPTRDIFF_T\<close> is the signed \<open>long\<close>, so \<open>%tu\<close> extends the sign.\<close>

definition unsigned_arg :: "'f printer \<Rightarrow> ('f printer \<times> 64 word) res" where
  "unsigned_arg s =
     (case p_cflags s of
        PRINT_C_CHAR \<Rightarrow> bindR (va_int s) (\<lambda>(s, w). Inr (s, ucast (ucast w :: 8 word)))
      | PRINT_C_SHORT \<Rightarrow> bindR (va_int s) (\<lambda>(s, w). Inr (s, ucast (ucast w :: 16 word)))
      | PRINT_C_LONG \<Rightarrow> bindR (va_long s) (\<lambda>(s, w). Inr (s, ucast w))
      | PRINT_C_LLONG \<Rightarrow> va_llong s
      | PRINT_C_SIZE \<Rightarrow> bindR (va_int s) (\<lambda>(s, w). Inr (s, ucast w))
      | PRINT_C_INTMAX \<Rightarrow> va_llong s
      | PRINT_C_PTRDIFF \<Rightarrow> bindR (va_long s) (\<lambda>(s, w). Inr (s, scast w))
      | _ \<Rightarrow> bindR (va_int s) (\<lambda>(s, w). Inr (s, ucast w)))"

definition conv_signed :: "'f printer \<Rightarrow> 'f printer res" where
  "conv_signed s =
     bindR (signed_arg s) (\<lambda>(s, v).
     bindR (fmtint (p_buf s) v 10 (p_width s) (p_precision s) (p_flags s)) (\<lambda>b.
     Inr (with_buf b s)))"

definition conv_unsigned :: "'f printer \<Rightarrow> 'f printer res" where
  "conv_unsigned s =
     (let ch = p_ch s;
          s = (if ch = CHR ''X'' then set_flag PRINT_F_UP s else s);
          s = (if ch = CHR ''X'' \<or> ch = CHR ''x'' then s\<lparr>p_base := 16\<rparr> else s);
          s = (if ch \<noteq> CHR ''u'' \<and> p_base s = 0 then s\<lparr>p_base := 8\<rparr> else s);
          s = (if p_base s = 0 then s\<lparr>p_base := 10\<rparr> else s);
          s = set_flag PRINT_F_UNSIGNED s
      in bindR (unsigned_arg s) (\<lambda>(s, v).
         bindR (fmtint (p_buf s) v (p_base s) (p_width s) (p_precision s) (p_flags s)) (\<lambda>b.
         Inr (with_buf b s))))"

text \<open>The flags the letter of a floating point conversion sets.\<close>

definition float_flags :: "'f printer \<Rightarrow> 'f printer" where
  "float_flags s =
     (let ch = p_ch s;
          s = (if ch \<in> {CHR ''A'', CHR ''F'', CHR ''E'', CHR ''G''} then set_flag PRINT_F_UP s else s);
          s = (if ch \<in> {CHR ''E'', CHR ''e''} then set_flag PRINT_F_TYPE_E s else s)
      in if ch \<in> {CHR ''G'', CHR ''g''} then set_flag PRINT_F_TYPE_G s else s)"

definition conv_float :: "'f fops \<Rightarrow> 'f printer \<Rightarrow> 'f printer ctl res" where
  "conv_float F s =
     bindR (va_double (float_flags s)) (\<lambda>(s, v).
     let s = (if p_ch s \<in> {CHR ''G'', CHR ''g''} \<and> p_precision s = 0 then s\<lparr>p_precision := 1\<rparr> else s)
     in bindR (fmtflt F (p_buf s) v (p_width s) (p_precision s) (p_flags s)) (\<lambda>(b, overflow).
        if overflow then Inr (Over ((with_buf b s)\<lparr>p_overflow := True\<rparr>))
        else Inr (Next (with_buf b s))))"

definition conv_c :: "'f printer \<Rightarrow> 'f printer res" where
  "conv_c s =
     bindR (va_int s) (\<lambda>(s, w).
     bindR (OUTCHAR (char_of (unat w)) (p_buf s)) (\<lambda>b. Inr (with_buf b s)))"

definition conv_s :: "'f printer \<Rightarrow> 'f printer res" where
  "conv_s s =
     bindR (va_str s) (\<lambda>(s, v).
     bindR (fmtstr (p_buf s) v (p_width s) (p_precision s) (p_flags s)) (\<lambda>b.
     Inr (with_buf b s)))"

definition conv_p :: "'f printer \<Rightarrow> 'f printer res" where
  "conv_p s =
     bindR (va_ptr s) (\<lambda>(s, w).
     if w = 0 then
       bindR (fmtstr (p_buf s) (Some (cstr ''(nil)'')) (p_width s) (-1) (p_flags s)) (\<lambda>b.
       Inr (with_buf b s))
     else
       (let s = set_flag PRINT_F_UNSIGNED (set_flag PRINT_F_NUM s)
        in bindR (fmtint (p_buf s) (ucast w) 16 (p_width s) (p_precision s) (p_flags s)) (\<lambda>b.
           Inr (with_buf b s))))"

text \<open>\<open>%n\<close> stores the low bytes of \<open>len\<close>.\<close>

definition conv_n :: "'f printer \<Rightarrow> 'f printer res" where
  "conv_n s =
     bindR (va_out s) (\<lambda>(s, a).
     let n = (case p_cflags s of PRINT_C_CHAR \<Rightarrow> 1 | PRINT_C_SHORT \<Rightarrow> 2
              | PRINT_C_LLONG \<Rightarrow> 8 | PRINT_C_INTMAX \<Rightarrow> 8 | _ \<Rightarrow> 4)
     in Inr (s\<lparr>p_stores := p_stores s @ [(a, n, p_len s mod 2 ^ (8 * n))]\<rparr>))"

definition reset_conv :: "'f printer \<Rightarrow> 'f printer ctl res" where
  "reset_conv s =
     bindR (fetch s) (\<lambda>s.
     Inr (Next (s\<lparr>p_state := PRINT_S_DEFAULT, p_base := 0, p_cflags := PRINT_C_NONE, p_flags := 0,
                 p_width := 0, p_precision := -1\<rparr>)))"

definition conv_float_reset :: "'f fops \<Rightarrow> 'f printer \<Rightarrow> 'f printer ctl res" where
  "conv_float_reset F s =
     bindR (conv_float F s) (\<lambda>r. case r of Over s \<Rightarrow> Inr (Over s) | Next s \<Rightarrow> reset_conv s)"

definition step_conv :: "'f fops \<Rightarrow> 'f printer \<Rightarrow> 'f printer ctl res" where
  "step_conv F s =
     (let ch = p_ch s
      in if ch = CHR ''d'' \<or> ch = CHR ''i'' then bindR (conv_signed s) reset_conv
         else if ch = CHR ''X'' \<or> ch = CHR ''x'' \<or> ch = CHR ''o'' \<or> ch = CHR ''u''
           then bindR (conv_unsigned s) reset_conv
         else if ch \<in> {CHR ''A'', CHR ''F'', CHR ''a'', CHR ''f'', CHR ''E'', CHR ''e'', CHR ''G'', CHR ''g''}
           then conv_float_reset F s
         else if ch = CHR ''c'' then bindR (conv_c s) reset_conv
         else if ch = CHR ''s'' then bindR (conv_s s) reset_conv
         else if ch = CHR ''p'' then bindR (conv_p s) reset_conv
         else if ch = CHR ''n'' then bindR (conv_n s) reset_conv
         else if ch = CHR ''%'' then
           bindR (OUTCHAR ch (p_buf s)) (\<lambda>b. reset_conv (with_buf b s))
         else reset_conv s)"

section \<open>o_vsnprintf\<close>

definition step :: "'f fops \<Rightarrow> 'f printer \<Rightarrow> 'f printer ctl res" where
  "step F s =
     (case p_state s of
        PRINT_S_DEFAULT \<Rightarrow> step_default s
      | PRINT_S_FLAGS \<Rightarrow> step_flags s
      | PRINT_S_WIDTH \<Rightarrow> step_width s
      | PRINT_S_DOT \<Rightarrow> step_dot s
      | PRINT_S_PRECISION \<Rightarrow> step_precision s
      | PRINT_S_MOD \<Rightarrow> step_mod s
      | PRINT_S_CONV \<Rightarrow> step_conv F s)"

text \<open>Every step consumes a character of the format or moves to a later state.\<close>

fun rank :: "print_s \<Rightarrow> nat" where
  "rank PRINT_S_DEFAULT = 0"
| "rank PRINT_S_FLAGS = 6"
| "rank PRINT_S_WIDTH = 5"
| "rank PRINT_S_DOT = 4"
| "rank PRINT_S_PRECISION = 3"
| "rank PRINT_S_MOD = 2"
| "rank PRINT_S_CONV = 1"

definition work :: "'f printer \<Rightarrow> nat" where
  "work s = 8 * length (p_format s) + rank (p_state s)"

section \<open>Termination\<close>

text \<open>What the operations leave alone: the format and the state.\<close>

definition keeps :: "'f printer \<Rightarrow> 'f printer \<Rightarrow> bool" where
  "keeps s s' \<longleftrightarrow> p_format s' = p_format s \<and> p_state s' = p_state s"

named_theorems frames "the operations that keep the format and the state"

lemma keeps_refl [simp]: "keeps s s"
  by (simp add: keeps_def)

lemma keeps_trans [trans]: "keeps s t \<Longrightarrow> keeps t u \<Longrightarrow> keeps s u"
  by (simp add: keeps_def)

lemma keeps_updates [simp]:
  "keeps s (with_buf b t) = keeps s t"
  "keeps s (set_flag f t) = keeps s t"
  by (simp_all add: keeps_def with_buf_def set_flag_def)

lemma fetch_Inr:
  "fetch s = Inr s' \<longleftrightarrow> (\<exists>c f. p_format s = c # f \<and> s' = s\<lparr>p_ch := c, p_format := f\<rparr>)"
  by (auto simp: fetch_def split: list.splits)

lemma va_keeps [frames]:
  "va_int s = Inr (s', w) \<Longrightarrow> keeps s s'"
  "va_long s = Inr (s', w) \<Longrightarrow> keeps s s'"
  "va_llong s = Inr (s', w') \<Longrightarrow> keeps s s'"
  "va_double s = Inr (s', v) \<Longrightarrow> keeps s s'"
  "va_str s = Inr (s', x) \<Longrightarrow> keeps s s'"
  "va_ptr s = Inr (s', w) \<Longrightarrow> keeps s s'"
  "va_out s = Inr (s', a) \<Longrightarrow> keeps s s'"
  by (auto simp: va_defs keeps_def split: list.splits vararg.splits)

lemma put1_keeps [frames]: "put1 c s = Inr s' \<Longrightarrow> keeps s s'"
  by (auto simp: put1_def bindR_Inr_iff keeps_def)

lemma fast_digits_keeps [frames]: "fast_digits v s = Inr s' \<Longrightarrow> keeps s s'"
  by (auto simp: fast_digits_def bindR_Inr_iff keeps_def Let_def split: prod.splits)

lemma signed_arg_keeps [frames]: "signed_arg s = Inr (s', v) \<Longrightarrow> keeps s s'"
  by (auto simp: signed_arg_def bindR_Inr_iff split: print_c.splits dest: frames)

lemma unsigned_arg_keeps [frames]: "unsigned_arg s = Inr (s', v) \<Longrightarrow> keeps s s'"
  by (auto simp: unsigned_arg_def bindR_Inr_iff split: print_c.splits dest: frames)

lemma conv_signed_keeps [frames]: "conv_signed s = Inr s' \<Longrightarrow> keeps s s'"
  by (auto simp: conv_signed_def bindR_Inr_iff dest: frames)

lemma conv_unsigned_keeps [frames]:
  assumes "conv_unsigned s = Inr s'" shows "keeps s s'"
proof -
  obtain t t' v where "unsigned_arg t = Inr (t', v)" "keeps s t" "keeps t' s'"
    using assms unfolding conv_unsigned_def Let_def
    by (auto simp: bindR_Inr_iff keeps_def set_flag_def with_buf_def split: prod.splits if_splits)
  then show ?thesis using unsigned_arg_keeps keeps_trans by blast
qed

lemma conv_other_keeps [frames]:
  "conv_c s = Inr s' \<Longrightarrow> keeps s s'"
  "conv_s s = Inr s' \<Longrightarrow> keeps s s'"
  by (auto simp: conv_c_def conv_s_def bindR_Inr_iff dest: frames)

lemma conv_p_keeps [frames]: "conv_p s = Inr s' \<Longrightarrow> keeps s s'"
  by (auto simp: conv_p_def bindR_Inr_iff Let_def split: if_splits dest: frames)

lemma conv_n_keeps [frames]: "conv_n s = Inr s' \<Longrightarrow> keeps s s'"
  by (auto simp: conv_n_def bindR_Inr_iff Let_def keeps_def dest: frames)

lemma conv_float_keeps [frames]:
  assumes "conv_float F s = Inr (Next s')" shows "keeps s s'"
proof -
  obtain t t' v where "va_double t = Inr (t', v)" "keeps s t" "keeps t' s'"
    using assms unfolding conv_float_def float_flags_def Let_def
    by (auto simp: bindR_Inr_iff keeps_def set_flag_def with_buf_def split: prod.splits if_splits)
  then show ?thesis using va_keeps(4) keeps_trans by metis
qed

text \<open>What a conversion does to them: it consumes and returns to the first state.\<close>

definition ends :: "'f printer \<Rightarrow> 'f printer \<Rightarrow> bool" where
  "ends s s' \<longleftrightarrow> p_state s' = PRINT_S_DEFAULT \<and> length (p_format s') < length (p_format s)"

lemma keeps_ends: "keeps s t \<Longrightarrow> ends t u \<Longrightarrow> ends s u"
  by (simp add: keeps_def ends_def)

lemma resume_ends: "resume s = Inr (Next s') \<Longrightarrow> ends s s'"
  by (auto simp: resume_def bindR_Inr_iff fetch_Inr ends_def)

lemma resume_not_Over [simp]: "resume s \<noteq> Inr (Over s')"
  by (auto simp: resume_def bindR_Inr_iff)

lemma resume_skip_ends: "resume (skip_format n s) = Inr (Next s') \<Longrightarrow> ends s s'"
  by (drule resume_ends) (auto simp: ends_def skip_format_def)

lemma reset_conv_ends: "reset_conv s = Inr (Next s') \<Longrightarrow> ends s s'"
  by (auto simp: reset_conv_def bindR_Inr_iff fetch_Inr ends_def)

lemmas end_rules = resume_ends resume_skip_ends reset_conv_ends

lemma fast_signed_ends:
  "fast_d s = Inr (Next s') \<Longrightarrow> ends s s'"
  "fast_ld s = Inr (Next s') \<Longrightarrow> ends s s'"
  "fast_lld s = Inr (Next s') \<Longrightarrow> ends s s'"
  by (auto simp: fast_d_def fast_ld_def fast_lld_def bindR_Inr_iff split: if_splits
      dest!: end_rules frames) (auto simp: ends_def keeps_def)

lemma fast_unsigned_ends:
  "fast_u s = Inr (Next s') \<Longrightarrow> ends s s'"
  "fast_lu s = Inr (Next s') \<Longrightarrow> ends s s'"
  "fast_llu s = Inr (Next s') \<Longrightarrow> ends s s'"
  by (auto simp: fast_u_def fast_lu_def fast_llu_def bindR_Inr_iff split: if_splits
      dest!: end_rules frames) (auto simp: ends_def keeps_def)

lemma fast_text_ends:
  "fast_c s = Inr (Next s') \<Longrightarrow> ends s s'"
  "fast_s s = Inr (Next s') \<Longrightarrow> ends s s'"
  by (auto simp: fast_c_def fast_s_def bindR_Inr_iff split: if_splits option.splits
      dest!: end_rules frames)
    (auto simp: ends_def keeps_def with_buf_def)

lemma fast_N_ends: "fast_N s = Inr (Next s') \<Longrightarrow> ends s s'"
  by (auto simp: fast_N_def bindR_Inr_iff Let_def split: if_splits
      dest!: end_rules frames) (auto simp: ends_def keeps_def)

lemma fast_l_ends:
  assumes "fast_l s = Inr (Next s')"
  shows "ends s s' \<or> s' = s\<lparr>p_state := PRINT_S_WIDTH\<rparr>"
  using assms
  by (auto simp: fast_l_def bindR_Inr_iff split: if_splits
      dest: fast_signed_ends fast_unsigned_ends)

lemma conv_float_reset_ends:
  assumes "conv_float_reset F s = Inr (Next s')"
  shows "ends s s'"
proof -
  obtain t where "conv_float F s = Inr (Next t)" "reset_conv t = Inr (Next s')"
    using assms unfolding conv_float_reset_def
    by (auto simp: bindR_Inr_iff split: ctl.split_asm) (metis ctl.exhaust)
  then show ?thesis by (blast intro: keeps_ends conv_float_keeps reset_conv_ends)
qed

lemma step_conv_ends: "step_conv F s = Inr (Next s') \<Longrightarrow> ends s s'"
  by (auto simp: step_conv_def Let_def bindR_Inr_iff split: if_splits
      dest!: conv_float_reset_ends reset_conv_ends frames intro: keeps_ends)
    (auto simp: ends_def with_buf_def)

lemma fetch_work:
  "fetch s = Inr s' \<Longrightarrow> length (p_format s) = Suc (length (p_format s')) \<and> p_state s' = p_state s"
  by (auto simp: fetch_Inr)

lemma keeps_work:
  "keeps s s' \<Longrightarrow> length (p_format s') = length (p_format s) \<and> p_state s' = p_state s"
  by (simp add: keeps_def)

lemmas work_rules = fetch_work keeps_work

lemma step_flags_work:
  assumes "step_flags s = Inr (Next s')" "p_state s = PRINT_S_FLAGS"
  shows "work s' < work s"
proof -
  have "ends s s' \<Longrightarrow> ?thesis" "s' = s\<lparr>p_state := PRINT_S_WIDTH\<rparr> \<Longrightarrow> ?thesis"
    by (auto simp: ends_def work_def assms(2))
  moreover have "fetch (set_flag f s) = Inr s' \<Longrightarrow> ?thesis" for f
    using fetch_work [of "set_flag f s" s'] by (simp add: work_def set_flag_def)
  ultimately show ?thesis
    using assms(1)
    by (auto simp: step_flags_def bindR_Inr_iff split: option.splits if_splits
        dest: fast_signed_ends fast_unsigned_ends fast_text_ends fast_N_ends fast_l_ends)
qed

lemma mod_double_work:
  "mod_double c t o' s = Inr s' \<Longrightarrow> length (p_format s') < length (p_format s)"
  by (auto simp: mod_double_def bindR_Inr_iff split: if_splits dest!: fetch_work)

lemma step_work:
  assumes "step F s = Inr (Next s')" shows "work s' < work s"
proof (cases "p_state s")
  case PRINT_S_DEFAULT
  then show ?thesis
    using assms by (auto simp: step_def step_default_def bindR_Inr_iff work_def with_buf_def
        split: if_splits dest!: fetch_work)
next
  case PRINT_S_FLAGS
  then show ?thesis using assms step_flags_work [of s s'] by (simp add: step_def)
next
  case PRINT_S_WIDTH
  then show ?thesis
    using assms by (auto simp: step_def step_width_def bindR_Inr_iff work_def set_flag_def
        split: if_splits dest!: fetch_work frames keeps_work)
next
  case PRINT_S_DOT
  then show ?thesis
    using assms by (auto simp: step_def step_dot_def bindR_Inr_iff work_def
        split: if_splits dest!: fetch_work)
next
  case PRINT_S_PRECISION
  then show ?thesis
    using assms by (auto simp: step_def step_precision_def Let_def bindR_Inr_iff work_def
        split: if_splits dest!: fetch_work frames keeps_work)
next
  case PRINT_S_MOD
  then show ?thesis
    using assms by (auto simp: step_def step_mod_def Let_def bindR_Inr_iff work_def
        split: if_splits dest!: mod_double_work fetch_work)
next
  case PRINT_S_CONV
  then show ?thesis
    using assms step_conv_ends [of F s s'] by (simp add: step_def ends_def work_def)
qed

section \<open>The loop and the function\<close>

text \<open>\<open>while (ch != '\0') switch (state) ...\<close>.\<close>

function run :: "'f fops \<Rightarrow> 'f printer \<Rightarrow> 'f printer res" where
  "run F s =
     (if p_ch s = NUL then Inr s
      else bindR (step F s) (\<lambda>r. case r of Next s \<Rightarrow> run F s | Over s \<Rightarrow> Inr s))"
  by pat_completeness auto
termination
  by (relation "measure (\<lambda>(F, s). work s)") (auto simp: step_work)

declare run.simps [simp del]

text \<open>The initial values of the static buffer.\<close>

definition scratch_buffer :: "char list" where
  "scratch_buffer = map char_of (rev [0..<32])"

definition init_printer :: "char list \<Rightarrow> char list \<Rightarrow> char list \<Rightarrow> 'f vararg list \<Rightarrow> 'f printer" where
  "init_printer str scratch format args =
     \<lparr>p_out = str, p_len = 0, p_overflow = False, p_base = 0, p_cflags = PRINT_C_NONE, p_flags = 0,
      p_width = 0, p_precision = -1, p_state = PRINT_S_DEFAULT, p_ch = NUL, p_format = format,
      p_args = args, p_scratch = scratch, p_stores = []\<rparr>"

text \<open>The code after the label \<open>over\<close>: the terminator and the return value.\<close>

definition finish :: "'f printer \<Rightarrow> (int \<times> 'f printer) res" where
  "finish s =
     bindR (if p_len s < length (p_out s) then wr (p_out s) (p_len s) NUL
            else if 0 < length (p_out s) then wr (p_out s) (length (p_out s) - 1) NUL
            else Inr (p_out s)) (\<lambda>out.
     Inr (if p_overflow s \<or> INT_MAX \<le> int (p_len s) then -1 else int (p_len s), s\<lparr>p_out := out\<rparr>))"

text \<open>
  \<open>str\<close> is the object of \<open>size\<close> bytes, \<open>None\<close> for a null pointer. The first character of the format
  is fetched before the test of \<open>str\<close> and \<open>size\<close>.
\<close>

definition o_vsnprintf ::
  "'f fops \<Rightarrow> char list option \<Rightarrow> char list \<Rightarrow> char list \<Rightarrow> 'f vararg list \<Rightarrow> (int \<times> 'f printer) res" where
  "o_vsnprintf F str scratch format args =
     bindR (fetch (init_printer (case str of None \<Rightarrow> [] | Some str \<Rightarrow> str) scratch format args)) (\<lambda>s.
     if p_out s = [] then Inr (0, s)
     else bindR (run F s) finish)"

definition o_snprintf ::
  "'f fops \<Rightarrow> char list option \<Rightarrow> char list \<Rightarrow> char list \<Rightarrow> 'f vararg list \<Rightarrow> (int \<times> 'f printer) res" where
  "o_snprintf F str scratch format args = o_vsnprintf F str scratch format args"

end
