(* ===== verification/Snprintf_Digits.thy ===== *)
theory Snprintf_Digits
  imports Snprintf_Format
begin

text \<open>
  The fast decimal conversion of \<open>o_vsnprintf\<close>: three digits at a time from \<open>atoi_tab\<close> into
  \<open>scratch_buffer\<close>, the leading zeros skipped, and the copy of the digits with \<open>fast_memcpy\<close>. It
  prints the numeral that the digit loop of \<open>convert\<close> computes one digit at a time.
\<close>

section \<open>An interface for copies\<close>

text \<open>
  What the formatter needs of a memory copy: for regions that do not overlap, it succeeds, moves
  the bytes and changes no other. Inside the locale, the copy between two objects of a memory is a
  splice of lists.
\<close>

locale memory_copy =
  fixes cp :: "'b mem \<Rightarrow> nat \<Rightarrow> nat \<Rightarrow> nat \<Rightarrow> ('b mem \<times> nat) res"
  assumes cp_moved: "disjoint_regions d s n \<Longrightarrow> cp m d s n = Inr (moved m d s n, d)"
begin

lemma cp_outside:
  assumes "disjoint_regions d s n" "a < d \<or> d + n \<le> a"
  shows "\<exists>m'. cp m d s n = Inr (m', d) \<and> m' a = m a"
  using assms by (auto simp: cp_moved moved_def)

lemma cp_splice:
  assumes "len + n \<le> length xs" "s + n \<le> length ys"
  shows "\<exists>m'. cp (\<lambda>a. (xs @ ys) ! a) len (length xs + s) n = Inr (m', len) \<and>
    map m' [0..<length xs] = take len xs @ take n (drop s ys) @ drop (len + n) xs"
proof -
  have dis: "disjoint_regions len (length xs + s) n"
    using assms(1) by (simp add: disjoint_regions_def)
  have "map (moved (\<lambda>a. (xs @ ys) ! a) len (length xs + s) n) [0..<length xs] =
      take len xs @ take n (drop s ys) @ drop (len + n) xs" (is "?l = ?r")
  proof (rule nth_equalityI)
    show "length ?l = length ?r" using assms by simp
  next
    fix i assume "i < length ?l"
    then show "?l ! i = ?r ! i"
      using assms by (auto simp: moved_def nth_append)
  qed
  then show ?thesis using cp_moved [OF dis] by blast
qed

end

interpretation fast: memory_copy fast_memcpy
  by unfold_locales (rule fast_memcpy_moved)

lemma copy_out_splice [simp, fault_simps]:
  assumes "len + n \<le> length out" "s + n \<le> length scratch"
  shows "copy_out out len scratch s n = Inr (take len out @ take n (drop s scratch) @ drop (len + n) out)"
  using fast.cp_splice [OF assms] assms by (auto simp: copy_out_def)

section \<open>The digits\<close>

text \<open>The decimal numeral, as \<open>convert\<close> writes it.\<close>

definition dec :: "nat \<Rightarrow> string" where
  "dec v = numeral_text 10 (digit_table False) v"

lemma digit_table_digit: "d < 10 \<Longrightarrow> digit_table caps ! d = digit d"
proof -
  assume "d < 10"
  then have "d \<in> {0, 1, 2, 3, 4, 5, 6, 7, 8, 9}" by auto
  then show ?thesis by (auto simp: digit_table_def digit_def)
qed

lemma dec_small: "v < 10 \<Longrightarrow> dec v = [digit v]"
  by (simp add: dec_def numeral_text_small digit_table_digit)

lemma dec_step: "10 \<le> v \<Longrightarrow> dec v = dec (v div 10) @ [digit (v mod 10)]"
  by (simp add: dec_def numeral_text_step digit_table_digit)

lemma dec_thousand:
  assumes "1000 \<le> v"
  shows "dec v = dec (v div 1000) @ row3 (v mod 1000)"
proof -
  have "dec v = dec (v div 10) @ [digit (v mod 10)]" using assms by (intro dec_step) simp
  also have "dec (v div 10) = dec (v div 10 div 10) @ [digit (v div 10 mod 10)]"
    using assms by (intro dec_step) simp
  also have "dec (v div 10 div 10) = dec (v div 10 div 10 div 10) @ [digit (v div 10 div 10 mod 10)]"
    using assms by (intro dec_step) simp
  also have "v div 10 div 10 div 10 = v div 1000" by (simp add: div_mult2_eq [symmetric])
  finally have d: "dec v = dec (v div 1000) @ [digit (v div 100 mod 10), digit (v div 10 mod 10), digit (v mod 10)]"
    by (simp add: div_mult2_eq [symmetric])
  have h: "v mod 1000 = 100 * (v div 100 mod 10) + v mod 100"
    using mod_mult2_eq [of v 100 10] by simp
  have t: "v mod 1000 = 10 * (v div 10 mod 100) + v mod 10"
    using mod_mult2_eq [of v 10 100] by simp
  have "v mod 1000 div 100 = v div 100 mod 10" by (subst h) simp
  moreover have "v mod 1000 div 10 = v div 10 mod 100" by (subst t) simp
  moreover have "v div 10 mod 100 mod 10 = v div 10 mod 10" "v mod 1000 mod 10 = v mod 10"
    using mod_mod_cancel [of 10 1000 v] mod_mod_cancel [of 10 100 "v div 10"] by simp_all
  ultimately have "row3 (v mod 1000) = [digit (v div 100 mod 10), digit (v div 10 mod 10), digit (v mod 10)]"
    unfolding row3_def by metis
  then show ?thesis using d by simp
qed

lemma digit_zero: "d < 10 \<Longrightarrow> digit d = CHR ''0'' \<longleftrightarrow> d = 0"
proof -
  assume "d < 10"
  then have "d \<in> {0, 1, 2, 3, 4, 5, 6, 7, 8, 9}" by auto
  then show ?thesis by (auto simp: digit_def)
qed

text \<open>The text of the loop: groups of three digits, the first with leading zeros.\<close>

function groups :: "nat \<Rightarrow> string" where
  "groups v = (if v < 1000 then row3 v else groups (v div 1000) @ row3 (v mod 1000))"
  by pat_completeness auto
termination
  by (relation "measure id") auto

declare groups.simps [simp del]

abbreviation zero :: "char \<Rightarrow> bool" where
  "zero c \<equiv> c = CHR ''0''"

lemma row3_dec: "0 < v \<Longrightarrow> v < 1000 \<Longrightarrow> dropWhile zero (row3 v) = dec v"
proof -
  assume v: "0 < v" "v < 1000"
  consider "v < 10" | "10 \<le> v" "v < 100" | "100 \<le> v" by linarith
  then show ?thesis
  proof cases
    case 1
    then show ?thesis using v by (simp add: row3_def digit_zero dec_small)
  next
    case 2
    then have "v div 10 < 10" "v div 10 \<noteq> 0" "v div 100 = 0" by auto
    then show ?thesis using 2 by (simp add: row3_def digit_zero dec_small dec_step)
  next
    case 3
    then have "10 \<le> v" "10 \<le> v div 10" "v div 10 div 10 < 10" using v by auto
    moreover have "v div 10 div 10 = v div 100" by (simp add: div_mult2_eq [symmetric])
    moreover have "v div 100 \<noteq> 0" "v div 100 < 10" using 3 v by auto
    ultimately show ?thesis by (simp add: row3_def digit_zero dec_small dec_step)
  qed
qed

lemma dec_not_zeros: "0 < v \<Longrightarrow> \<exists>c\<in>set (dec v). \<not> zero c"
proof (induction v rule: less_induct)
  case (less v)
  show ?case
  proof (cases "v < 10")
    case True
    then show ?thesis using less.prems by (simp add: dec_small digit_zero)
  next
    case False
    then show ?thesis using less.IH [of "v div 10"] by (auto simp: dec_step)
  qed
qed

lemma groups_dec: "0 < v \<Longrightarrow> dropWhile zero (groups v) = dec v"
proof (induction v rule: groups.induct)
  case (1 v)
  show ?case
  proof (cases "v < 1000")
    case True
    then show ?thesis using 1(2) by (simp add: groups.simps [of v] row3_dec)
  next
    case False
    then have ih: "dropWhile zero (groups (v div 1000)) = dec (v div 1000)"
      using 1 by (simp add: div_greater_zero_iff)
    then have "dropWhile zero (groups (v div 1000)) \<noteq> []"
      using dec_not_zeros [of "v div 1000"] False by (auto simp: div_greater_zero_iff)
    then have "dropWhile zero (groups (v div 1000) @ row3 (v mod 1000))
        = dropWhile zero (groups (v div 1000)) @ row3 (v mod 1000)"
      by (auto simp: dropWhile_append dropWhile_eq_Nil_conv)
    then show ?thesis using False ih by (subst groups.simps) (simp add: dec_thousand)
  qed
qed

lemma length_groups: "v < 1000 ^ k \<Longrightarrow> 0 < k \<Longrightarrow> length (groups v) \<le> 3 * k"
proof (induction k arbitrary: v)
  case (Suc k)
  show ?case
  proof (cases "v < 1000")
    case True
    then show ?thesis by (simp add: groups.simps [of v] row3_def)
  next
    case False
    then have "0 < k" "v div 1000 < 1000 ^ k"
      using Suc.prems by (cases k; simp add: less_mult_imp_div_less ac_simps)+
    then show ?thesis
      using Suc.IH [of "v div 1000"] False by (subst groups.simps) (simp add: row3_def)
  qed
qed simp

section \<open>The loops of the fast path\<close>

lemma atoi_tab_row:
  assumes "v < 1000"
  shows "atoi_tab ! (v * 4 + 2) = row3 v ! 2" "atoi_tab ! (v * 4 + 1) = row3 v ! 1"
    "atoi_tab ! (v * 4) = row3 v ! 0"
  using atoi_tab_nth [OF assms, of 2] atoi_tab_nth [OF assms, of 1] atoi_tab_nth [OF assms, of 0]
  by simp_all

lemma row3_list: "row3 v = [row3 v ! 0, row3 v ! 1, row3 v ! 2]"
  by (simp add: row3_def)

text \<open>One pass stores the three digits below index \<open>k\<close>.\<close>

lemma atoi_digits_pass:
  assumes "3 \<le> k" "k \<le> length scratch"
  shows "atoi_digits v scratch (int k - 1) =
    (let scratch' = take (k - 3) scratch @ row3 (v mod 1000) @ drop k scratch
     in if 1000 \<le> v then atoi_digits (v div 1000) scratch' (int (k - 3) - 1)
        else Inr (scratch', int (k - 3) - 1))"
proof -
  define m where "m = v mod 1000"
  have m: "m < 1000" by (simp add: m_def)
  have idx: "2 + (v - 1000 * (v div 1000)) * 4 = m * 4 + 2"
    by (simp add: m_def minus_mult_div_eq_mod)
  obtain j where k: "k = j + 3" using assms(1) by (metis add.commute le_iff_add)
  have upd: "scratch[j + 2 := c, j + 1 := b, j := a] = take j scratch @ [a, b, c] @ drop (j + 3) scratch"
    for a b c
  proof (rule nth_equalityI)
    fix i assume "i < length (scratch[j + 2 := c, j + 1 := b, j := a])"
    moreover have "i < j \<or> i = j \<or> i = j + 1 \<or> i = j + 2 \<or> (\<exists>t. i = j + 3 + t)"
    proof -
      have "j + 3 \<le> i \<or> i = j + 2 \<or> i = j + 1 \<or> i = j \<or> i < j" by linarith
      then show ?thesis using le_Suc_ex [of "j + 3" i] by blast
    qed
    ultimately show "scratch[j + 2 := c, j + 1 := b, j := a] ! i
        = (take j scratch @ [a, b, c] @ drop (j + 3) scratch) ! i"
      using assms(2) k by (elim disjE exE) (auto simp: nth_append nth_list_update)
  qed (use assms(2) k in simp)
  obtain a b c where r: "row3 m = [a, b, c]" using row3_list by blast
  have tab: "rd atoi_tab (m * 4 + 2) = Inr c" "rd atoi_tab (m * 4 + 2 - 1) = Inr b"
    "rd atoi_tab (m * 4 + 2 - 2) = Inr a"
    using m atoi_tab_row [OF m] by (simp_all add: r)
  have st: "wri xs (2 + int j) x = Inr (xs[j + 2 := x])" "wri xs (1 + int j) x = Inr (xs[j + 1 := x])"
    "wri xs (int j) x = Inr (xs[j := x])" if "j + 3 \<le> length xs" for xs x
    using that by (simp_all add: wri_def nat_add_distrib)
  have "0 < v div 1000 \<longleftrightarrow> 1000 \<le> v" by (simp add: div_greater_zero_iff)
  moreover have "int k - 1 - 3 = int (k - 3) - 1" "k - 3 = j" by (simp_all add: k)
  ultimately show ?thesis
    unfolding atoi_digits.simps [of v] Let_def idx tab bindR_simps m_def [symmetric] r
    using assms(2) upd [of c b a] by (simp add: st k)
qed

text \<open>The whole loop: the groups of the value end where the buffer ended.\<close>

lemma atoi_digits_groups:
  "length (groups v) \<le> k \<Longrightarrow> k \<le> length scratch \<Longrightarrow>
    atoi_digits v scratch (int k - 1) =
      Inr (take (k - length (groups v)) scratch @ groups v @ drop k scratch,
           int (k - length (groups v)) - 1)"
proof (induction v arbitrary: k scratch rule: groups.induct)
  case (1 v)
  have g: "groups v = (if v < 1000 then row3 v else groups (v div 1000) @ row3 (v mod 1000))"
    by (rule groups.simps)
  have l3: "length (row3 u) = 3" for u by (simp add: row3_def)
  have k3: "3 \<le> k" using 1(2) g l3 by (auto split: if_splits)
  show ?case
  proof (cases "v < 1000")
    case True
    then show ?thesis using 1(3) k3 g l3 by (simp add: atoi_digits_pass)
  next
    case False
    let ?scratch = "take (k - 3) scratch @ row3 (v mod 1000) @ drop k scratch"
    have "length (groups (v div 1000)) \<le> k - 3" "k - 3 \<le> length ?scratch"
      using 1(2,3) False g l3 k3 by auto
    then have "atoi_digits (v div 1000) ?scratch (int (k - 3) - 1) =
        Inr (take (k - 3 - length (groups (v div 1000))) ?scratch @ groups (v div 1000)
              @ drop (k - 3) ?scratch,
             int (k - 3 - length (groups (v div 1000))) - 1)"
      by (rule 1(1) [OF False])
    moreover have "length (groups v) = length (groups (v div 1000)) + 3" using False g l3 by simp
    moreover have "drop (k - 3) ?scratch = row3 (v mod 1000) @ drop k scratch"
      "take (k - 3 - length (groups (v div 1000))) ?scratch = take (k - 3 - length (groups (v div 1000))) scratch"
      using 1(3) k3 by simp_all
    moreover have "atoi_digits v scratch (int k - 1) = atoi_digits (v div 1000) ?scratch (int (k - 3) - 1)"
      using atoi_digits_pass [OF k3 1(3)] False by (simp add: Let_def)
    ultimately show ?thesis using False g by (simp add: add.commute)
  qed
qed

lemma atoi_skip_zeros:
  "0 \<le> s + 1 \<Longrightarrow> drop (nat (s + 1)) scratch = t \<Longrightarrow> \<exists>c\<in>set t. \<not> zero c \<Longrightarrow>
    atoi_skip scratch s = Inr (s + 1 + int (length (takeWhile zero t)))"
proof (induction t arbitrary: s)
  case (Cons c t)
  have "nat (s + 1) < length scratch" "scratch ! nat (s + 1) = c" "drop (Suc (nat (s + 1))) scratch = t"
    using Cons.prems by (metis drop_eq_Nil list.distinct(1) not_le,
      metis nth_via_drop, metis drop_Suc list.sel(3) tl_drop)
  then have rd: "rdi scratch (s + 1) = Inr c" and d: "drop (nat (s + 1 + 1)) scratch = t"
    using Cons.prems(1) by (simp_all add: rdi_def nat_add_distrib Suc_nat_eq_nat_zadd1 add.commute)
  show ?case
  proof (cases "zero c")
    case True
    then have "atoi_skip scratch (s + 1) = Inr (s + 1 + 1 + int (length (takeWhile zero t)))"
      using Cons.prems d by (intro Cons.IH) auto
    then show ?thesis using True rd by (subst atoi_skip.simps) simp
  next
    case False
    then show ?thesis using rd by (subst atoi_skip.simps) simp
  qed
qed simp

text \<open>The store of a text that may be cut off where the buffer ends.\<close>

definition blit :: "string \<Rightarrow> obuf \<Rightarrow> obuf" where
  "blit t b = (let (str, len) = b;
                   n = (if len + length t < length str then length t else length str - len)
               in (take len str @ take n t @ drop (len + n) str, len + n))"

lemma atoi_loops_dec:
  assumes "length scratch = 32" "0 < v" "v < 2 ^ 64"
  obtains scratch' j i where "atoi_digits v scratch 31 = Inr (scratch', j)" "atoi_skip scratch' j = Inr (int i)"
    "length scratch' = 32" "i + length (dec v) = 32" "drop i scratch' = dec v"
proof -
  have "v < 1000 ^ 7" using assms(3) by simp
  then have L: "length (groups v) \<le> 32" using length_groups [of v 7] by simp
  let ?scratch = "take (32 - length (groups v)) scratch @ groups v"
  let ?z = "length (takeWhile zero (groups v))"
  have gd: "groups v = takeWhile zero (groups v) @ dec v"
    using groups_dec [OF assms(2)] by (metis takeWhile_dropWhile_id)
  then have z: "?z + length (dec v) = length (groups v)" by (metis length_append)
  have dg: "atoi_digits v scratch 31 = Inr (?scratch, int (32 - length (groups v)) - 1)"
    using atoi_digits_groups [of v 32 scratch] L assms(1) by simp
  have gr: "drop (32 - length (groups v)) ?scratch = groups v"
    using assms(1) L by (simp add: min_def)
  moreover have "\<exists>c\<in>set (groups v). \<not> zero c"
    using dec_not_zeros [OF assms(2)] gd by (metis Un_iff set_append)
  ultimately have sk: "atoi_skip ?scratch (int (32 - length (groups v)) - 1)
      = Inr (int (32 - length (groups v) + ?z))"
    using atoi_skip_zeros [of "int (32 - length (groups v)) - 1" ?scratch "groups v"] by simp
  have "drop (32 - length (groups v) + ?z) ?scratch = drop ?z (drop (32 - length (groups v)) ?scratch)"
    by (simp only: drop_drop add.commute)
  also have "\<dots> = dec v" unfolding gr by (metis gd append_eq_conv_conj)
  finally have "drop (32 - length (groups v) + ?z) ?scratch = dec v" .
  moreover have "32 - length (groups v) + ?z + length (dec v) = 32" using z L by simp
  moreover have "length ?scratch = 32" using assms(1) L by simp
  ultimately show ?thesis by (intro that [OF dg sk])
qed

lemma fast_digits_dec:
  assumes "length (p_scratch s) = 32" "0 < v" "v < 2 ^ 64" "p_len s \<le> length (p_out s)"
  shows "\<exists>scratch. length scratch = 32 \<and>
    fast_digits v s = Inr ((with_buf (blit (dec v) (p_buf s)) s)\<lparr>p_scratch := scratch\<rparr>)"
proof -
  obtain scratch' j i where loops: "atoi_digits v (p_scratch s) 31 = Inr (scratch', j)"
    "atoi_skip scratch' j = Inr (int i)" "length scratch' = 32" "i + length (dec v) = 32"
    "drop i scratch' = dec v"
    using atoi_loops_dec [OF assms(1-3)] by blast
  let ?n = "if p_len s + length (dec v) < length (p_out s) then length (dec v) else length (p_out s) - p_len s"
  have "p_len s + ?n \<le> length (p_out s)" "i + ?n \<le> length scratch'"
    using assms(4) loops(3,4) by auto
  from copy_out_splice [OF this]
  have "copy_out (p_out s) (p_len s) scratch' i ?n =
      Inr (take (p_len s) (p_out s) @ take ?n (dec v) @ drop (p_len s + ?n) (p_out s))"
    unfolding loops(5) .
  moreover have "nat (int 32 - int i) = length (dec v)" using loops(4) by linarith
  ultimately show ?thesis
    using loops(1-3) assms(1)
    by (intro exI [of _ scratch'])
      (cases "p_len s + length (dec v) < length (p_out s)";
        simp add: fast_digits_def Let_def with_buf_def blit_def p_buf_def)
qed

end
