(* ===== verification/Snprintf_Safety.thy ===== *)
theory Snprintf_Safety
  imports Snprintf_Digits
begin

text \<open>
  Memory safety of \<open>o_vsnprintf\<close> for every format and all arguments. A small logic of results
  (\<open>holds\<close>) carries an invariant of the variables through the states of the machine: no store goes
  outside the output or the scratch buffer; and no load does when the format and the string
  arguments are terminated and the format does not use \<open>%N\<close>, whose table index is not checked.
\<close>

section \<open>Results that hold a predicate or a permitted fault\<close>

definition holds :: "fault set \<Rightarrow> ('a \<Rightarrow> bool) \<Rightarrow> 'a res \<Rightarrow> bool" where
  "holds E P m \<longleftrightarrow> (case m of Inl e \<Rightarrow> e \<in> E | Inr x \<Rightarrow> P x)"

lemma holds_simps [simp]:
  "holds E P (Inl e) \<longleftrightarrow> e \<in> E"
  "holds E P (Inr x) \<longleftrightarrow> P x"
  by (simp_all add: holds_def)

lemma holds_bindR: "holds E P (bindR m f) \<longleftrightarrow> holds E (\<lambda>x. holds E P (f x)) m"
  by (cases m) simp_all

lemma holds_bind: "holds E P m \<Longrightarrow> (\<And>x. P x \<Longrightarrow> holds E Q (f x)) \<Longrightarrow> holds E Q (bindR m f)"
  by (cases m) auto

lemma holds_mono: "holds E P m \<Longrightarrow> (\<And>x. P x \<Longrightarrow> Q x) \<Longrightarrow> holds E Q m"
  by (cases m) auto

lemma holds_if: "(c \<Longrightarrow> holds E P a) \<Longrightarrow> (\<not> c \<Longrightarrow> holds E P b) \<Longrightarrow> holds E P (if c then a else b)"
  by simp

section \<open>The invariant of the variables\<close>

definition may_fault :: "bool \<Rightarrow> fault set" where
  "may_fault R = {Bad_Vararg, Null_Dereference, Signed_Overflow} \<union> (if R then {Read_Out_Of_Bounds} else {})"

lemma may_fault_simps [simp]:
  "Bad_Vararg \<in> may_fault R" "Null_Dereference \<in> may_fault R" "Signed_Overflow \<in> may_fault R"
  "Read_Out_Of_Bounds \<in> may_fault R \<longleftrightarrow> R"
  "Write_Out_Of_Bounds \<notin> may_fault R" "Misaligned_Access \<notin> may_fault R" "Assertion_Failed \<notin> may_fault R"
  by (auto simp: may_fault_def)

fun good_arg :: "'f vararg \<Rightarrow> bool" where
  "good_arg (VStr (Some v)) = (NUL \<in> set v)"
| "good_arg _ = True"

text \<open>
  \<open>R\<close> says whether loads may fail. \<open>ready\<close> is the invariant inside a step, before the next
  character is fetched; \<open>n\<close> is the size of the output buffer.
\<close>

definition ready :: "bool \<Rightarrow> nat \<Rightarrow> 'f printer \<Rightarrow> bool" where
  "ready R n s \<longleftrightarrow> length (p_scratch s) = 32 \<and> length (p_out s) = n \<and> 0 < n \<and>
     p_base s \<in> {0, 8, 10, 16} \<and>
     (\<not> R \<longrightarrow> (\<forall>a\<in>set (p_args s). good_arg a) \<and> CHR ''N'' \<notin> set (p_format s) \<and> NUL \<in> set (p_format s))"

definition sound :: "bool \<Rightarrow> nat \<Rightarrow> 'f printer \<Rightarrow> bool" where
  "sound R n s \<longleftrightarrow> length (p_scratch s) = 32 \<and> length (p_out s) = n \<and> 0 < n \<and>
     p_base s \<in> {0, 8, 10, 16} \<and>
     (\<not> R \<longrightarrow> (\<forall>a\<in>set (p_args s). good_arg a) \<and> CHR ''N'' \<notin> set (p_ch s # p_format s) \<and>
        (p_ch s = NUL \<or> NUL \<in> set (p_format s)))"

lemma sound_ready: "sound R n s \<Longrightarrow> p_ch s \<noteq> NUL \<Longrightarrow> ready R n s"
  by (auto simp: sound_def ready_def)

lemma ready_updates [simp]:
  "ready R n (s\<lparr>p_state := st\<rparr>) = ready R n s"
  "ready R n (s\<lparr>p_overflow := ov\<rparr>) = ready R n s"
  "ready R n (s\<lparr>p_cflags := cf\<rparr>) = ready R n s"
  "ready R n (s\<lparr>p_flags := fl\<rparr>) = ready R n s"
  "ready R n (s\<lparr>p_width := w\<rparr>) = ready R n s"
  "ready R n (s\<lparr>p_precision := pr\<rparr>) = ready R n s"
  "ready R n (s\<lparr>p_stores := sts\<rparr>) = ready R n s"
  "ready R n (set_flag f s) = ready R n s"
  by (simp_all add: ready_def set_flag_def)

lemma sound_updates [simp]:
  "sound R n (s\<lparr>p_state := st\<rparr>) = sound R n s"
  "sound R n (s\<lparr>p_overflow := ov\<rparr>) = sound R n s"
  "sound R n (s\<lparr>p_cflags := cf\<rparr>) = sound R n s"
  "sound R n (s\<lparr>p_flags := fl\<rparr>) = sound R n s"
  "sound R n (s\<lparr>p_width := w\<rparr>) = sound R n s"
  "sound R n (s\<lparr>p_precision := pr\<rparr>) = sound R n s"
  by (simp_all add: sound_def)

lemma ready_base [simp]: "b \<in> {0, 8, 10, 16} \<Longrightarrow> ready R n s \<Longrightarrow> ready R n (s\<lparr>p_base := b\<rparr>)"
  by (simp add: ready_def)

lemma ready_with_buf [simp]:
  "length (fst b) = n \<Longrightarrow> ready R n s \<Longrightarrow> ready R n (with_buf b s)"
  by (simp add: ready_def with_buf_def)

lemma ready_buf: "ready R n s \<Longrightarrow> length (fst (p_buf s)) = n"
  by (simp add: ready_def p_buf_def)

section \<open>The operations keep it\<close>

lemma fetch_sound [intro]: "ready R n s \<Longrightarrow> holds (may_fault R) (sound R n) (fetch s)"
  by (cases R) (auto simp: ready_def sound_def fetch_def split: list.splits)

lemma fetch_next: "ready R n s \<Longrightarrow> holds (may_fault R) (\<lambda>s. sound R n (f s)) (fetch s)"
  if "\<And>s. sound R n s \<Longrightarrow> sound R n (f s)"
  using fetch_sound that by (blast intro: holds_mono)

definition keeps_ready :: "bool \<Rightarrow> nat \<Rightarrow> 'f printer \<Rightarrow> ('f printer \<times> 'a) res \<Rightarrow> bool" where
  "keeps_ready R n s m \<longleftrightarrow> holds (may_fault R)
     (\<lambda>(s', x). ready R n s' \<and> keeps s s' \<and> p_out s' = p_out s \<and> p_len s' = p_len s) m"

lemma va_ready:
  assumes "ready R n s"
  shows "keeps_ready R n s (va_int s)" "keeps_ready R n s (va_long s)"
    "keeps_ready R n s (va_llong s)" "keeps_ready R n s (va_double s)"
    "keeps_ready R n s (va_ptr s)" "keeps_ready R n s (va_out s)"
  using assms
  by (auto simp: keeps_ready_def ready_def va_defs keeps_def split: list.splits vararg.splits)

lemma va_str_ready:
  assumes "ready R n s"
  shows "holds (may_fault R) (\<lambda>(s', x). ready R n s' \<and>
    (case x of None \<Rightarrow> True | Some v \<Rightarrow> R \<or> NUL \<in> set v)) (va_str s)"
  using assms
  by (auto simp: ready_def va_str_def split: list.splits vararg.splits option.splits)

lemma put1_ready:
  "ready R n s \<Longrightarrow> p_len s < n \<Longrightarrow>
    holds (may_fault R) (\<lambda>s'. ready R n s' \<and> p_format s' = p_format s \<and> p_len s' = p_len s + 1) (put1 c s)"
  by (auto simp: put1_def ready_def)

lemma length_blit: "snd b \<le> length (fst b) \<Longrightarrow> length (fst (blit t b)) = length (fst b)"
  by (cases b) (auto simp: blit_def Let_def)

lemma fast_digits_ready:
  assumes "ready R n s" "0 < v" "v < 2 ^ 64" "p_len s \<le> n"
  shows "holds (may_fault R) (\<lambda>s'. ready R n s' \<and> p_format s' = p_format s) (fast_digits v s)"
proof -
  obtain scratch where "length scratch = 32"
    "fast_digits v s = Inr ((with_buf (blit (dec v) (p_buf s)) s)\<lparr>p_scratch := scratch\<rparr>)"
    using fast_digits_dec [of s v] assms by (auto simp: ready_def)
  moreover have "length (fst (blit (dec v) (p_buf s))) = n"
    using assms length_blit [of "p_buf s" "dec v"] by (simp add: ready_def p_buf_def)
  ultimately show ?thesis using assms(1) by (simp add: ready_def with_buf_def)
qed

lemma resume_sound [intro]:
  "ready R n s \<Longrightarrow> holds (may_fault R) (\<lambda>r. case r of Next s \<Rightarrow> sound R n s | Over s \<Rightarrow> ready R n s) (resume s)"
  unfolding resume_def by (auto intro!: holds_bind [OF fetch_sound])

text \<open>The outcome of a step.\<close>

abbreviation step_ok :: "bool \<Rightarrow> nat \<Rightarrow> 'f printer ctl res \<Rightarrow> bool" where
  "step_ok R n \<equiv> holds (may_fault R) (\<lambda>r. case r of Next s \<Rightarrow> sound R n s | Over s \<Rightarrow> ready R n s)"

section \<open>The fast paths\<close>

lemma skip_ready:
  assumes "ready R n s" "\<not> R \<Longrightarrow> NUL \<in> set (drop k (p_format s))"
  shows "ready R n (skip_format k s)"
  using assms set_drop_subset [of k "p_format s"] by (auto simp: ready_def skip_format_def)

lemma resume_skip:
  assumes "ready R n s" "\<not> R \<Longrightarrow> NUL \<in> set (drop k (p_format s))"
  shows "step_ok R n (resume (skip_format k s))"
  using resume_sound [OF skip_ready [OF assms]] by simp

lemma negate32_range:
  "sint v < 0 \<Longrightarrow> holds (may_fault R) (\<lambda>u. 0 < u \<and> u < 2 ^ 64) (negate32 v)"
  using sint_greater_eq [of v] by (auto simp: negate32_def nat_less_iff)

lemma negate64_range:
  "sint v < 0 \<Longrightarrow> holds (may_fault R) (\<lambda>u. 0 < u \<and> u < 2 ^ 64) (negate64 v)"
  using sint_greater_eq [of v] by (auto simp: negate64_def nat_less_iff)

lemma unat_range: "(v :: 32 word) \<noteq> 0 \<Longrightarrow> 0 < unat v \<and> unat v < 2 ^ 64"
  using unsigned_less [where 'a = nat and w = v] by (auto simp: unat_gt_0)

lemma unat_range64: "(v :: 64 word) \<noteq> 0 \<Longrightarrow> 0 < unat v \<and> unat v < 2 ^ 64"
  using unat_less_64 [of v] by (auto simp: unat_gt_0)

text \<open>
  The common part of the decimal fast paths; \<open>f\<close> is the fetch that ends them, \<open>zero\<close> and \<open>neg\<close>
  the tests of the value, \<open>mag\<close> and \<open>w\<close> its magnitude.
\<close>

lemma digits_tail:
  assumes "ready R n t" "p_format t = p_format s" "p_len t \<le> n" "0 < u" "u < 2 ^ 64"
    and "\<And>s'. ready R n s' \<Longrightarrow> p_format s' = p_format s \<Longrightarrow> step_ok R n (f s')"
  shows "step_ok R n (bindR (fast_digits u t) f)"
  using assms by (intro holds_bind [OF fast_digits_ready]) auto

lemma unsigned_tail:
  assumes r: "ready R n s"
    and f: "\<And>s'. ready R n s' \<Longrightarrow> p_format s' = p_format s \<Longrightarrow> step_ok R n (f s')"
    and w: "\<not> is0 \<Longrightarrow> 0 < w \<and> w < 2 ^ 64"
  shows "step_ok R n (if full s then Inr (Over s) else if is0 then bindR (put1 c s) resume
    else bindR (fast_digits w s) f)"
proof (intro holds_if)
  assume "\<not> full s"
  then have len: "p_len s + 1 < n" using r by (simp add: ready_def full_def)
  show "step_ok R n (bindR (put1 c s) resume)"
    using len by (intro holds_bind [OF put1_ready [OF r]]) auto
  show "step_ok R n (bindR (fast_digits w s) f)" if "\<not> is0"
    using len w [OF that] by (intro digits_tail [OF r refl _ _ _ f]) auto
qed (simp add: r)

lemma signed_tail:
  assumes r: "ready R n s"
    and f: "\<And>s'. ready R n s' \<Longrightarrow> p_format s' = p_format s \<Longrightarrow> step_ok R n (f s')"
    and mag: "neg \<Longrightarrow> holds (may_fault R) (\<lambda>u. 0 < u \<and> u < 2 ^ 64) mag"
    and w: "\<not> is0 \<Longrightarrow> 0 < w \<and> w < 2 ^ 64"
  shows "step_ok R n (if full s then Inr (Over s) else if is0 then bindR (put1 c s) resume
    else if neg then bindR (put1 d s) (\<lambda>s. bindR mag (\<lambda>u. bindR (fast_digits u s) f))
    else bindR (fast_digits w s) f)"
proof (cases "neg \<and> \<not> is0 \<and> \<not> full s")
  case True
  then have len: "p_len s + 1 < n" using r by (simp add: ready_def full_def)
  have "step_ok R n (bindR (put1 d s) (\<lambda>s. bindR mag (\<lambda>u. bindR (fast_digits u s) f)))"
    using len True
    by (intro holds_bind [OF put1_ready [OF r]] holds_bind [OF mag] digits_tail [where s = s]) (auto intro: f)
  then show ?thesis using True by simp
next
  case False
  have "step_ok R n (if full s then Inr (Over s) else if is0 then bindR (put1 c s) resume
      else bindR (fast_digits w s) f)"
    by (rule unsigned_tail) (use r f w in auto)
  with False show ?thesis by (auto split: if_splits)
qed

lemma holds_va:
  assumes "keeps_ready R n s m"
    and "\<And>s' x. ready R n s' \<Longrightarrow> p_format s' = p_format s \<Longrightarrow> p_len s' = p_len s \<Longrightarrow> p_out s' = p_out s
      \<Longrightarrow> holds (may_fault R) P (f s' x)"
  shows "holds (may_fault R) P (bindR m (\<lambda>(s', x). f s' x))"
  using assms unfolding keeps_ready_def
  by (intro holds_bind [where P = "\<lambda>(s', x). ready R n s' \<and> keeps s s' \<and> p_out s' = p_out s \<and> p_len s' = p_len s"])
    (auto simp: keeps_def)

lemma fast_decimal_ok:
  assumes "ready R n s"
  shows "step_ok R n (fast_d s)" "step_ok R n (fast_u s)"
  unfolding fast_d_def fast_u_def
  by (intro holds_va [OF va_ready(1) [OF assms]] signed_tail unsigned_tail resume_sound negate32_range
      unat_range; assumption)+

lemma fast_long_ok:
  assumes "ready R n s" "\<not> R \<Longrightarrow> NUL \<in> set (drop 1 (p_format s))"
  shows "step_ok R n (fast_ld s)" "step_ok R n (fast_lu s)"
  unfolding fast_ld_def fast_lu_def
  by (intro holds_va [OF va_ready(2) [OF assms(1)]] signed_tail unsigned_tail resume_skip negate32_range
      unat_range; (assumption | use assms(2) in simp))+

lemma fast_llong_ok:
  assumes "ready R n s" "\<not> R \<Longrightarrow> NUL \<in> set (drop 2 (p_format s))"
  shows "step_ok R n (fast_lld s)" "step_ok R n (fast_llu s)"
  unfolding fast_lld_def fast_llu_def
  by (intro holds_va [OF va_ready(3) [OF assms(1)]] signed_tail unsigned_tail resume_skip negate64_range
      unat_range64; (assumption | use assms(2) in simp))+

lemma put1_run:
  assumes "ready R n s" "p_len s < n" "\<And>t. ready R n t \<Longrightarrow> p_len t = p_len s + 1 \<Longrightarrow> holds (may_fault R) P (f t)"
  shows "holds (may_fault R) P (bindR (put1 c s) f)"
  using assms by (intro holds_bind [OF put1_ready]) auto

lemma fast_c_ok: "ready R n s \<Longrightarrow> step_ok R n (fast_c s)"
  unfolding fast_c_def
proof (rule holds_va [OF va_ready(1)])
  fix s' :: "'a printer" and v :: "32 word"
  assume r: "ready R n s'"
  show "step_ok R n (bindR (if \<not> full s' then put1 (char_of (unat v)) s' else Inr s') resume)"
  proof (cases "full s'")
    case True
    then show ?thesis using r by auto
  next
    case False
    then have "p_len s' < n" using r by (simp add: full_def ready_def)
    then show ?thesis using False r by (auto intro!: put1_run)
  qed
qed

lemma fast_s_loop_ok:
  assumes "R \<or> NUL \<in> set v"
  shows "holds (may_fault R) (\<lambda>b'. length (fst b') = length (fst b)) (fast_s_loop v b)"
  using assms
proof (induction v b rule: fast_s_loop.induct)
  case (2 c v out len)
  then show ?case by (cases "c \<noteq> NUL \<and> len + 1 < length out") auto
qed simp

lemma fast_s_ok: "ready R n s \<Longrightarrow> step_ok R n (fast_s s)"
  unfolding fast_s_def
proof (rule holds_bind [OF va_str_ready], assumption, clarify)
  fix t :: "'a printer" and x
  assume r: "ready R n t" and x: "case x of None \<Rightarrow> True | Some v \<Rightarrow> R \<or> NUL \<in> set v"
  show "step_ok R n (case x of None \<Rightarrow> Inl Null_Dereference
    | Some v \<Rightarrow> bindR (fast_s_loop v (p_buf t)) (\<lambda>b. resume (with_buf b t)))"
    using x r
    by (cases x) (auto intro!: holds_bind [OF fast_s_loop_ok] resume_sound simp: ready_buf)
qed

lemma holds_rd: "holds (may_fault True) (\<lambda>_. True) (rd xs i)"
  by (cases "i < length xs") auto

lemma fast_N_ok:
  assumes "ready True n s" shows "step_ok True n (fast_N s)"
  unfolding fast_N_def Let_def
proof (rule holds_va [OF va_ready(1) [OF assms]])
  fix t :: "'a printer" and v :: "32 word"
  assume r: "ready True n t"
  show "step_ok True n (bindR (if p_len t + 3 < length (p_out t) then
      bindR (rd atoi_tab (unat (push_bit 2 v))) (\<lambda>c. bindR (put1 c t) (\<lambda>s.
      bindR (rd atoi_tab (unat (push_bit 2 v) + 1)) (\<lambda>c. bindR (put1 c s) (\<lambda>s.
      bindR (rd atoi_tab (unat (push_bit 2 v) + 2)) (\<lambda>c. put1 c s))))) else Inr t) resume)"
  proof (cases "p_len t + 3 < length (p_out t)")
    case True
    then have "p_len t + 3 < n" using r by (simp add: ready_def)
    then show ?thesis
      using True r
      by (simp add: bindR_assoc)
        (intro holds_bind [OF holds_rd] put1_run resume_sound; (assumption | simp))
  qed (use r in auto)
qed

lemma nul_drop:
  assumes "NUL \<in> set f" "\<forall>i<k. f ! i \<noteq> NUL"
  shows "NUL \<in> set (drop k f)" "k < length f"
proof -
  obtain i where i: "i < length f" "f ! i = NUL" using assms(1) by (auto simp: in_set_conv_nth)
  then have "k \<le> i" using assms(2) by (meson not_le)
  then show "NUL \<in> set (drop k f)"
    using i by (auto simp: in_set_conv_nth intro!: exI [of _ "i - k"])
  show "k < length f" using \<open>k \<le> i\<close> i by simp
qed

lemma fast_l_ok:
  assumes r: "ready R n s" and i: "p_ch s \<noteq> NUL" "sound R n s"
  shows "step_ok R n (fast_l s)"
proof -
  let ?f = "p_format s"
  have nul: "\<not> R \<Longrightarrow> NUL \<in> set ?f" using r by (simp add: ready_def)
  have 1: "\<not> R \<Longrightarrow> NUL \<in> set (drop 1 ?f)" if "?f ! 0 \<noteq> NUL"
    using nul_drop [of ?f 1] nul that by simp
  have 2: "\<not> R \<Longrightarrow> NUL \<in> set (drop 2 ?f)" if "?f ! 0 \<noteq> NUL" "?f ! 1 \<noteq> NUL"
    using nul_drop [of ?f 2] nul that by (simp add: less_2_cases_iff)
  have w: "step_ok R n (Inr (Next (s\<lparr>p_state := PRINT_S_WIDTH\<rparr>)))" using i(2) by simp
  have r0: "holds (may_fault R) (\<lambda>c. c = ?f ! 0) (rd ?f 0)"
    using nul by (cases "0 < length ?f") auto
  have r1: "holds (may_fault R) (\<lambda>c. c = ?f ! 1) (rd ?f 1)" if "?f ! 0 \<noteq> NUL"
    using 1 [OF that] by (cases "1 < length ?f") auto
  show ?thesis
    unfolding fast_l_def
  proof (intro holds_bind [OF r0] holds_if w)
    fix c assume c: "c = ?f ! 0"
    show "step_ok R n (fast_ld s)" if "c = CHR ''d'' \<or> c = CHR ''i''"
      using that c by (intro fast_long_ok r 1) auto
    show "step_ok R n (fast_lu s)" if "c = CHR ''u''"
      using that c by (intro fast_long_ok r 1) auto
    assume l: "c = CHR ''l''"
    show "step_ok R n (bindR (rd ?f 1) (\<lambda>c. if c = CHR ''d'' \<or> c = CHR ''i'' then fast_lld s
        else if c = CHR ''u'' then fast_llu s else Inr (Next (s\<lparr>p_state := PRINT_S_WIDTH\<rparr>))))"
    proof (intro holds_bind [OF r1] holds_if w)
      show "?f ! 0 \<noteq> NUL" using l c by auto
      fix d assume d: "d = ?f ! 1"
      show "step_ok R n (fast_lld s)" if "d = CHR ''d'' \<or> d = CHR ''i''"
        using that c d l by (intro fast_llong_ok r 2) auto
      show "step_ok R n (fast_llu s)" if "d = CHR ''u''"
        using that c d l by (intro fast_llong_ok r 2) auto
    qed
  qed
qed

section \<open>The formatters keep the size of the buffer\<close>

definition sized :: "bool \<Rightarrow> obuf \<Rightarrow> obuf res \<Rightarrow> bool" where
  "sized R b m \<longleftrightarrow> holds (may_fault R) (\<lambda>b'. length (fst b') = length (fst b)) m"

lemma sized_emit: "\<exists>s. m = Inr (emit s b) \<Longrightarrow> sized R b m"
  by (auto simp: sized_def)

lemma fmtstr_body_sized: "R \<Longrightarrow> sized R b (fmtstr_body v noprecision precision b)"
proof (induction v arbitrary: precision b)
  case (Cons c v)
  then have "sized R (putc c b) (fmtstr_body v noprecision (precision - 1) (putc c b))" by blast
  then show ?case by (simp add: sized_def)
qed (simp add: sized_def)

lemma split_cstr: "NUL \<in> set v \<Longrightarrow> \<exists>s rest. cvalid s \<and> v = cstr s @ rest"
  using split_list_first [of NUL v] by (fastforce simp: cstr_def cvalid_def)

lemma fmtstr_sized:
  assumes "R \<or> (case v of None \<Rightarrow> True | Some v \<Rightarrow> NUL \<in> set v)"
  shows "sized R b (fmtstr b v width precision flags)"
proof (cases "case v of None \<Rightarrow> True | Some v \<Rightarrow> NUL \<in> set v")
  case True
  then obtain s rest where "cvalid s"
    "fmtstr b v width precision flags = fmtstr b (Some (cstr s @ rest)) width precision flags"
  proof (cases v)
    case None
    then show ?thesis
      using that [of "''(null)''" "[]"] by (simp add: fmtstr_null)
  qed (use split_cstr in fastforce)
  then show ?thesis using fmtstr_emit by (intro sized_emit) auto
next
  case False
  then have R: "R" and "v \<noteq> None" using assms by (auto split: option.splits)
  have ln: "holds (may_fault R) (\<lambda>_. True) (fmtstr_strln w np p n)" for w np p n
    using R by (induction w np p n rule: fmtstr_strln.induct) auto
  have body: "sized R b (bindR (fmtstr_body w np p b') g)"
    if "length (fst b') = length (fst b)" "\<And>b'. length (fst b') = length (fst b) \<Longrightarrow> sized R b (g b')"
    for w np p b' g
    unfolding sized_def
    by (rule holds_bind [OF fmtstr_body_sized [OF R, unfolded sized_def]])
      (use that in \<open>auto simp: sized_def\<close>)
  show ?thesis
    using \<open>v \<noteq> None\<close>
    by (auto simp: fmtstr_def Let_def sized_def intro!: holds_bind [OF ln] body [unfolded sized_def])
qed

lemma fmtint_total:
  assumes "2 \<le> base" "base \<le> 16"
  shows "(\<exists>s. fmtint b v base width precision flags = Inr (emit s b)) \<or>
    fmtint b v base width precision flags = Inl Signed_Overflow"
proof (cases "fmtint_sign v flags")
  case (Inl e)
  then have "e = Signed_Overflow"
    by (auto simp: fmtint_sign_def bindR_Inl_iff split: if_splits)
  then show ?thesis by (simp add: fmtint_def Inl)
next
  case (Inr us)
  obtain u sg where us: "us = (u, sg)" by (cases us)
  obtain iconvert pos where conv: "convert u (replicate MAX_CONVERT_LENGTH NUL) base (has flags PRINT_F_UP)
      = Inr (iconvert, pos)" "pos \<le> length iconvert"
    by (rule convert_total [OF assms, of "replicate MAX_CONVERT_LENGTH NUL" u "has flags PRINT_F_UP"])
      (auto simp: MAX_CONVERT_LENGTH_def)
  show ?thesis
  proof (cases "fmtint_layout u sg pos base width precision flags")
    case (Inl e)
    then have "e = Signed_Overflow"
      unfolding fmtint_layout_def Let_def int32_def by (auto split: if_splits prod.splits)
    then show ?thesis by (simp add: fmtint_def Inr us conv Inl)
  next
    case L: (Inr layout)
    obtain hex sep spad zpad where layout: "layout = (hex, sep, spad, zpad)" by (cases layout)
    have hx: "\<exists>h. (case hex of None \<Rightarrow> Inr b' | Some x \<Rightarrow> bindR (OUTCHAR CHR ''0'' b') (OUTCHAR x))
        = Inr (emit h b')" for b'
      by (cases hex) (auto intro: exI [of _ "[]"] exI [of _ "[CHR ''0'', the hex]"])
    obtain h where h: "\<And>b'. (case hex of None \<Rightarrow> Inr b' | Some x \<Rightarrow> bindR (OUTCHAR CHR ''0'' b') (OUTCHAR x))
        = Inr (emit (h b') b')"
      using hx by metis
    obtain d where d: "\<And>b'. fmtint_digits iconvert pos (0 < sep) b' = Inr (emit (d b') b')"
      using fmtint_digits_total [OF conv(2)] by metis
    have "\<exists>s. fmtint_print b sg iconvert pos layout = Inr (emit s b)"
      unfolding fmtint_print_def layout prod.case out_times_emit out_opt_emit bindR_simps h d
        emit_append [symmetric] by blast
    then show ?thesis by (simp add: fmtint_def Inr us conv L)
  qed
qed

lemma fmtint_sized: "2 \<le> base \<Longrightarrow> base \<le> 16 \<Longrightarrow> sized R b (fmtint b v base width precision flags)"
  using fmtint_total [of base b v width precision flags] by (auto simp: sized_def)

lemma fmtflt_sized:
  "holds (may_fault R) (\<lambda>(b', ov). length (fst b') = length (fst b)) (fmtflt F b v width precision flags)"
  using fmtflt_total [of F b v width precision flags] by auto

lemma sized_ready:
  assumes "sized R (p_buf s) m" "ready R n s"
    "\<And>b. ready R n (with_buf b s) \<Longrightarrow> holds (may_fault R) P (f b)"
  shows "holds (may_fault R) P (bindR m f)"
  using assms by (intro holds_bind [OF assms(1) [unfolded sized_def]]) (simp add: ready_buf)

section \<open>The states\<close>

lemma reset_conv_ok: "ready R n s \<Longrightarrow> step_ok R n (reset_conv s)"
  unfolding reset_conv_def
  by (rule holds_bind [OF fetch_sound]) (auto simp: sound_def)

lemma fetch_step: "ready R n s \<Longrightarrow> step_ok R n (bindR (fetch s) (\<lambda>s. Inr (Next s)))"
  by (rule holds_bind [OF fetch_sound]) auto

lemma fetch_step_state:
  "ready R n s \<Longrightarrow> step_ok R n (bindR (fetch s) (\<lambda>s. Inr (Next (s\<lparr>p_state := st\<rparr>))))"
  by (rule holds_bind [OF fetch_sound]) auto

lemma step_default_ok: "ready R n s \<Longrightarrow> step_ok R n (step_default s)"
  unfolding step_default_def
  by (cases "p_ch s = CHR ''%''")
    (auto simp: ready_buf intro!: fetch_step)

lemma step_flags_ok:
  assumes "sound R n s" "p_ch s \<noteq> NUL"
  shows "step_ok R n (step_flags s)"
proof -
  have r: "ready R n s" using assms by (rule sound_ready)
  have N: "R" if "p_ch s = CHR ''N''" using assms(1) that by (auto simp: sound_def)
  have w: "step_ok R n (Inr (Next (s\<lparr>p_state := PRINT_S_WIDTH\<rparr>)))" using assms(1) by simp
  have fN: "step_ok R n (fast_N s)" if "p_ch s = CHR ''N''"
    using N [OF that] fast_N_ok [of n s] r by (cases R) simp_all
  show ?thesis
    unfolding step_flags_def
    by (cases "flag_of (p_ch s)")
      (simp_all add: fast_c_ok fast_s_ok fast_decimal_ok fast_l_ok fN w r assms fetch_step
        del: holds_simps)
qed

lemma step_width_ok:
  assumes "sound R n s" "p_ch s \<noteq> NUL"
  shows "step_ok R n (step_width s)"
proof -
  have r: "ready R n s" using assms by (rule sound_ready)
  have star: "step_ok R n (bindR (va_int s) (\<lambda>(s, w).
      bindR (if sint w < 0
             then bindR (int32 (- sint w)) (\<lambda>w. Inr ((set_flag PRINT_F_MINUS s)\<lparr>p_width := w\<rparr>))
             else Inr (s\<lparr>p_width := sint w\<rparr>)) (\<lambda>s.
      bindR (fetch s) (\<lambda>s. Inr (Next (s\<lparr>p_state := PRINT_S_DOT\<rparr>))))))"
    by (rule holds_va [OF va_ready(1) [OF r]])
      (auto simp: int32_def intro!: fetch_step_state)
  show ?thesis
    unfolding step_width_def using star r assms(1) by (auto intro!: fetch_step)
qed

lemma step_dot_ok:
  assumes "sound R n s" "p_ch s \<noteq> NUL"
  shows "step_ok R n (step_dot s)"
  using assms(1) sound_ready [OF assms] by (auto simp: step_dot_def intro!: fetch_step)

lemma step_precision_ok:
  assumes "sound R n s" "p_ch s \<noteq> NUL"
  shows "step_ok R n (step_precision s)"
proof -
  let ?s = "if p_precision s = -1 then s\<lparr>p_precision := 0\<rparr> else s"
  have r: "ready R n ?s" "sound R n ?s" using assms sound_ready by auto
  have star: "step_ok R n (bindR (va_int ?s) (\<lambda>(s, w).
      bindR (fetch (s\<lparr>p_precision := if sint w < 0 then -1 else sint w\<rparr>)) (\<lambda>s.
      Inr (Next (s\<lparr>p_state := PRINT_S_MOD\<rparr>)))))"
    by (rule holds_va [OF va_ready(1) [OF r(1)]]) (auto intro!: fetch_step_state)
  have dig: "step_ok R n (bindR (fetch (?s\<lparr>p_precision := p\<rparr>)) (\<lambda>s. Inr (Next s)))" for p
    using r(1) by (intro fetch_step) simp
  show ?thesis
    unfolding step_precision_def Let_def using star r dig
    by (intro holds_if) (auto simp del: if_split split del: if_split)
qed

lemma mod_double_ok:
  assumes "ready R n s" "c \<noteq> NUL"
  shows "holds (may_fault R) (sound R n) (mod_double c t o' s)"
  unfolding mod_double_def
proof (rule holds_bind [OF fetch_sound [OF assms(1)]])
  fix s' :: "'a printer" assume i: "sound R n s'"
  then have "p_ch s' = c \<Longrightarrow> ready R n s'" using assms(2) by (intro sound_ready) auto
  then show "holds (may_fault R) (sound R n)
    (if p_ch s' = c then bindR (fetch s') (\<lambda>s. Inr (s\<lparr>p_cflags := t\<rparr>)) else Inr (s'\<lparr>p_cflags := o'\<rparr>))"
    using i by (auto intro!: holds_bind [OF fetch_sound])
qed

lemma step_mod_ok:
  assumes "sound R n s" "p_ch s \<noteq> NUL"
  shows "step_ok R n (step_mod s)"
proof -
  have r: "ready R n s" using assms by (rule sound_ready)
  have f: "holds (may_fault R) (sound R n) (fetch (s\<lparr>p_cflags := c\<rparr>))" for c using r by (intro fetch_sound) simp
  show ?thesis
    unfolding step_mod_def Let_def
    by (rule holds_bind [where P = "sound R n"])
      (auto simp: f assms(1) intro!: mod_double_ok [OF r])
qed

section \<open>The conversions\<close>

lemma signed_arg_ready: "ready R n s \<Longrightarrow> keeps_ready R n s (signed_arg s)"
  using va_ready [of R n s] unfolding keeps_ready_def signed_arg_def
  by (cases "p_cflags s") (auto elim!: holds_mono simp: holds_bindR)

lemma unsigned_arg_ready: "ready R n s \<Longrightarrow> keeps_ready R n s (unsigned_arg s)"
  using va_ready [of R n s] unfolding keeps_ready_def unsigned_arg_def
  by (cases "p_cflags s") (auto elim!: holds_mono simp: holds_bindR)

lemma conv_signed_ok: "ready R n s \<Longrightarrow> holds (may_fault R) (ready R n) (conv_signed s)"
  unfolding conv_signed_def
  by (rule holds_va [OF signed_arg_ready], assumption)
    (auto intro!: sized_ready [OF fmtint_sized])

lemma conv_unsigned_ok:
  assumes "ready R n s" shows "holds (may_fault R) (ready R n) (conv_unsigned s)"
proof -
  let ?ch = "p_ch s"
  let ?s1 = "if ?ch = CHR ''X'' then set_flag PRINT_F_UP s else s"
  let ?s2 = "if ?ch = CHR ''X'' \<or> ?ch = CHR ''x'' then ?s1\<lparr>p_base := 16\<rparr> else ?s1"
  let ?s3 = "if ?ch \<noteq> CHR ''u'' \<and> p_base ?s2 = 0 then ?s2\<lparr>p_base := 8\<rparr> else ?s2"
  let ?s4 = "set_flag PRINT_F_UNSIGNED (if p_base ?s3 = 0 then ?s3\<lparr>p_base := 10\<rparr> else ?s3)"
  have "ready R n ?s2" using assms by simp
  then have "ready R n ?s3" by simp
  then have r: "ready R n ?s4 \<and> p_base ?s4 \<in> {8, 10, 16}"
    by (auto simp: ready_def set_flag_def)
  have "p_base t \<in> {8, 10, 16}" if "unsigned_arg ?s4 = Inr (t, v)" for t v
  proof -
    have "p_base t = p_base u" if "unsigned_arg u = Inr (t, v)" for u
      using that by (auto simp: unsigned_arg_def va_defs bindR_Inr_iff
          split: print_c.splits list.splits vararg.splits)
    then show ?thesis using that r by simp
  qed
  then have "holds (may_fault R) (\<lambda>(t, v). ready R n t \<and> p_base t \<in> {8, 10, 16}) (unsigned_arg ?s4)"
    using unsigned_arg_ready [of R n ?s4] r unfolding keeps_ready_def
    by (cases "unsigned_arg ?s4") auto
  then show ?thesis
    unfolding conv_unsigned_def Let_def
    by (rule holds_bind) (auto intro!: sized_ready [OF fmtint_sized])
qed

lemma conv_c_ok: "ready R n s \<Longrightarrow> holds (may_fault R) (ready R n) (conv_c s)"
  unfolding conv_c_def
  by (rule holds_va [OF va_ready(1)], assumption) (simp add: ready_buf)

lemma conv_s_ok: "ready R n s \<Longrightarrow> holds (may_fault R) (ready R n) (conv_s s)"
  unfolding conv_s_def
  by (rule holds_bind [OF va_str_ready], assumption)
    (auto intro!: sized_ready [OF fmtstr_sized] split: option.splits)

lemma conv_p_ok: "ready R n s \<Longrightarrow> holds (may_fault R) (ready R n) (conv_p s)"
  unfolding conv_p_def Let_def
  by (rule holds_va [OF va_ready(5)], assumption)
    (auto intro!: sized_ready [OF fmtstr_sized] sized_ready [OF fmtint_sized] simp: cstr_def)

lemma conv_n_ok: "ready R n s \<Longrightarrow> holds (may_fault R) (ready R n) (conv_n s)"
  unfolding conv_n_def Let_def
  by (rule holds_va [OF va_ready(6)], assumption) simp

lemma conv_float_ok:
  assumes "ready R n s"
  shows "holds (may_fault R) (\<lambda>r. case r of Next s \<Rightarrow> ready R n s | Over s \<Rightarrow> ready R n s) (conv_float F s)"
proof -
  have "ready R n (float_flags s)" using assms by (simp add: float_flags_def Let_def)
  then show ?thesis
    unfolding conv_float_def
  proof (rule holds_va [OF va_ready(4)])
    fix u :: "'a printer" and v assume "ready R n u"
    then have u: "ready R n (if p_ch u \<in> {CHR ''G'', CHR ''g''} \<and> p_precision u = 0
        then u\<lparr>p_precision := 1\<rparr> else u)" (is "ready R n ?u")
      by simp
    show "holds (may_fault R) (\<lambda>r. case r of Next s \<Rightarrow> ready R n s | Over s \<Rightarrow> ready R n s)
      (let s = ?u in bindR (fmtflt F (p_buf s) v (p_width s) (p_precision s) (p_flags s)) (\<lambda>(b, overflow).
           if overflow then Inr (Over ((with_buf b s)\<lparr>p_overflow := True\<rparr>))
           else Inr (Next (with_buf b s))))"
      unfolding Let_def
      by (rule holds_bind [OF fmtflt_sized]) (use u in \<open>auto simp: ready_buf simp del: if_split\<close>)
  qed
qed

lemma conv_float_reset_ok: "ready R n s \<Longrightarrow> step_ok R n (conv_float_reset F s)"
  unfolding conv_float_reset_def
proof (rule holds_bind [OF conv_float_ok], assumption)
  fix r :: "'a printer ctl"
  assume "case r of Next s \<Rightarrow> ready R n s | Over s \<Rightarrow> ready R n s"
  then show "step_ok R n (case r of Over s \<Rightarrow> Inr (Over s) | Next s \<Rightarrow> reset_conv s)"
    using reset_conv_ok by (cases r) auto
qed

lemma step_conv_ok:
  assumes "ready R n s" shows "step_ok R n (step_conv F s)"
  unfolding step_conv_def Let_def
  using assms
  by (auto intro!: holds_if conv_float_reset_ok holds_bind [OF conv_signed_ok] holds_bind [OF conv_unsigned_ok]
      holds_bind [OF conv_c_ok] holds_bind [OF conv_s_ok] holds_bind [OF conv_p_ok] holds_bind [OF conv_n_ok]
      reset_conv_ok simp: ready_buf simp del: if_split)

section \<open>The whole function\<close>

lemma step_step_ok:
  assumes "sound R n s" "p_ch s \<noteq> NUL"
  shows "step_ok R n (step F s)"
  using step_default_ok step_flags_ok [OF assms] step_width_ok [OF assms] step_dot_ok [OF assms]
    step_precision_ok [OF assms] step_mod_ok [OF assms] step_conv_ok sound_ready [OF assms]
  unfolding step_def by (cases "p_state s") auto

definition shaped :: "nat \<Rightarrow> 'f printer \<Rightarrow> bool" where
  "shaped n s \<longleftrightarrow> length (p_scratch s) = 32 \<and> length (p_out s) = n \<and> 0 < n"

lemma sound_shaped: "sound R n s \<Longrightarrow> shaped n s" "ready R n s \<Longrightarrow> shaped n s"
  by (simp_all add: sound_def ready_def shaped_def)

lemma run_ok: "sound R n s \<Longrightarrow> holds (may_fault R) (shaped n) (run F s)"
proof (induction F s rule: run.induct)
  case (1 F s)
  show ?case
  proof (cases "p_ch s = NUL")
    case True
    then show ?thesis using 1(2) by (subst run.simps) (simp add: sound_shaped)
  next
    case False
    have "holds (may_fault R) (shaped n) (bindR (step F s) (\<lambda>r. case r of Next s \<Rightarrow> run F s | Over s \<Rightarrow> Inr s))"
    proof (cases "step F s")
      case (Inl e)
      then show ?thesis using step_step_ok [OF 1(2) False, of F] by simp
    next
      case (Inr r)
      then show ?thesis
        using step_step_ok [OF 1(2) False, of F] 1(1) [OF False Inr] sound_shaped
        by (cases r) auto
    qed
    then show ?thesis using False by (subst run.simps) simp
  qed
qed

text \<open>The terminator is inside the buffer; the result is \<open>-1\<close> or the length.\<close>

lemma finish_ok:
  assumes "shaped n s"
  shows "finish s = Inr (if p_overflow s \<or> INT_MAX \<le> int (p_len s) then -1 else int (p_len s),
      s\<lparr>p_out := (p_out s)[min (p_len s) (n - 1) := NUL]\<rparr>)"
proof (cases "p_len s < n")
  case True
  then have "min (p_len s) (n - 1) = p_len s" by simp
  then show ?thesis using assms True by (simp add: finish_def shaped_def)
next
  case False
  then have "min (p_len s) (n - 1) = n - 1" by simp
  then show ?thesis using assms False by (auto simp: finish_def shaped_def)
qed

lemma o_vsnprintf_ok:
  assumes "length scratch = 32"
    and "\<not> R \<Longrightarrow> NUL \<in> set format \<and> CHR ''N'' \<notin> set format \<and> (\<forall>a\<in>set args. good_arg a)"
  shows "holds (may_fault R) (\<lambda>(r, s). length (p_out s) = length str \<and> - 1 \<le> r \<and> r < INT_MAX \<and>
      (str \<noteq> [] \<longrightarrow> NUL \<in> set (p_out s)))
    (o_vsnprintf F (Some str) scratch format args)"
proof (cases "str = []")
  case True
  have "format \<noteq> [] \<or> R" using assms(2) by (cases R) auto
  then show ?thesis
    using True by (auto simp: o_vsnprintf_def fetch_def init_printer_def INT_MAX_def split: list.splits)
next
  case False
  let ?s = "init_printer str scratch format args"
  have "ready R (length str) ?s"
    using assms False by (simp add: ready_def init_printer_def)
  then have f: "holds (may_fault R) (sound R (length str)) (fetch ?s)" by (rule fetch_sound)
  have fin: "holds (may_fault R) (\<lambda>(r, s). length (p_out s) = length str \<and> - 1 \<le> r \<and> r < INT_MAX \<and>
      (str \<noteq> [] \<longrightarrow> NUL \<in> set (p_out s))) (finish s)" if "shaped (length str) s" for s :: "'a printer"
  proof -
    have "length (p_out s) = length str" using that by (simp add: shaped_def)
    moreover have "min (p_len s) (length str - 1) < length str" using False by (cases str) auto
    ultimately show ?thesis
      by (auto simp: finish_ok [OF that] INT_MAX_def set_update_memI)
  qed
  show ?thesis
    unfolding o_vsnprintf_def option.case
  proof (rule holds_bind [OF f])
    fix s :: "'a printer" assume s: "sound R (length str) s"
    then have "p_out s \<noteq> []" using False by (auto simp: sound_def)
    then show "holds (may_fault R) (\<lambda>(r, s). length (p_out s) = length str \<and> - 1 \<le> r \<and> r < INT_MAX \<and>
        (str \<noteq> [] \<longrightarrow> NUL \<in> set (p_out s)))
      (if p_out s = [] then Inr (0, s) else bindR (run F s) finish)"
      using holds_bind [OF run_ok [OF s] fin] by simp
  qed
qed

end
