(* ===== verification/Snprintf_Fields.thy ===== *)
theory Snprintf_Fields
  imports Snprintf_Safety
begin

text \<open>
  The conversions with a width, a precision, a length modifier or a base other than ten, which the
  machine reads state by state: what each state makes of its part of the format, and the text of
  the whole conversion.
\<close>

unbundle bit_operations_syntax

section \<open>Fields\<close>

text \<open>
  A conversion as it is written in a format: the characters of the flags, the width, the precision,
  the modifier (by the value the machine notes for it) and the letter, with its argument.
\<close>

datatype field_arg = A_Int "32 word" | A_Long "32 word" | A_LLong "64 word" | A_Str string

record field =
  f_flags :: string
  f_width :: "nat option"
  f_prec :: "nat option"
  f_mod :: print_c
  f_conv :: char
  f_arg :: field_arg

fun mod_text :: "print_c \<Rightarrow> string" where
  "mod_text PRINT_C_CHAR = ''hh''"
| "mod_text PRINT_C_SHORT = ''h''"
| "mod_text PRINT_C_LONG = ''l''"
| "mod_text PRINT_C_LLONG = ''ll''"
| "mod_text PRINT_C_LDOUBLE = ''L''"
| "mod_text PRINT_C_SIZE = ''z''"
| "mod_text PRINT_C_PTRDIFF = ''t''"
| "mod_text PRINT_C_INTMAX = ''j''"
| "mod_text PRINT_C_NONE = []"

definition width_text :: "nat option \<Rightarrow> string" where
  "width_text w = (case w of None \<Rightarrow> [] | Some n \<Rightarrow> dec n)"

definition prec_text :: "nat option \<Rightarrow> string" where
  "prec_text p = (case p of None \<Rightarrow> [] | Some n \<Rightarrow> CHR ''.'' # dec n)"

definition field_format :: "field \<Rightarrow> string" where
  "field_format f =
     CHR ''%'' # f_flags f @ width_text (f_width f) @ prec_text (f_prec f) @ mod_text (f_mod f) @ [f_conv f]"

fun field_vararg :: "field_arg \<Rightarrow> 'f vararg" where
  "field_vararg (A_Int w) = VInt w"
| "field_vararg (A_Long w) = VLong w"
| "field_vararg (A_LLong w) = VLLong w"
| "field_vararg (A_Str t) = VStr (Some (cstr t))"

text \<open>The value a signed or unsigned conversion prints, None when the argument has another type.\<close>

fun signed_of :: "print_c \<Rightarrow> field_arg \<Rightarrow> 64 word option" where
  "signed_of PRINT_C_CHAR (A_Int w) = Some (scast (ucast w :: 8 word))"
| "signed_of PRINT_C_SHORT (A_Int w) = Some (scast (ucast w :: 16 word))"
| "signed_of PRINT_C_LONG (A_Long w) = Some (scast w)"
| "signed_of PRINT_C_LLONG (A_LLong w) = Some w"
| "signed_of PRINT_C_SIZE (A_Int w) = Some (ucast w)"
| "signed_of PRINT_C_INTMAX (A_LLong w) = Some w"
| "signed_of PRINT_C_PTRDIFF (A_Long w) = Some (scast w)"
| "signed_of PRINT_C_NONE (A_Int w) = Some (scast w)"
| "signed_of _ _ = None"

fun unsigned_of :: "print_c \<Rightarrow> field_arg \<Rightarrow> 64 word option" where
  "unsigned_of PRINT_C_CHAR (A_Int w) = Some (ucast (ucast w :: 8 word))"
| "unsigned_of PRINT_C_SHORT (A_Int w) = Some (ucast (ucast w :: 16 word))"
| "unsigned_of PRINT_C_LONG (A_Long w) = Some (ucast w)"
| "unsigned_of PRINT_C_LLONG (A_LLong w) = Some w"
| "unsigned_of PRINT_C_SIZE (A_Int w) = Some (ucast w)"
| "unsigned_of PRINT_C_INTMAX (A_LLong w) = Some w"
| "unsigned_of PRINT_C_PTRDIFF (A_Long w) = Some (scast w)"
| "unsigned_of PRINT_C_NONE (A_Int w) = Some (ucast w)"
| "unsigned_of _ _ = None"

definition flags_word :: "string \<Rightarrow> 32 word" where
  "flags_word fl = fold (\<lambda>c w. w OR the (flag_of c)) fl 0"

definition conv_base :: "char \<Rightarrow> nat" where
  "conv_base c = (if c = CHR ''o'' then 8 else if c = CHR ''x'' \<or> c = CHR ''X'' then 16 else 10)"

text \<open>What the formatter of integers is called with: the value and the flags.\<close>

definition field_int :: "field \<Rightarrow> (64 word \<times> 32 word) option" where
  "field_int f =
     (if f_conv f \<in> set ''di'' then map_option (\<lambda>v. (v, flags_word (f_flags f))) (signed_of (f_mod f) (f_arg f))
      else map_option (\<lambda>v. (v, (if f_conv f = CHR ''X'' then flags_word (f_flags f) OR PRINT_F_UP else flags_word (f_flags f))
             OR PRINT_F_UNSIGNED)) (unsigned_of (f_mod f) (f_arg f)))"

definition field_width :: "field \<Rightarrow> int" where
  "field_width f = (case f_width f of None \<Rightarrow> 0 | Some n \<Rightarrow> int n)"

definition field_prec :: "field \<Rightarrow> int" where
  "field_prec f = (case f_prec f of None \<Rightarrow> -1 | Some n \<Rightarrow> int n)"

text \<open>The text: that of the formatter of strings or of integers.\<close>

definition field_text :: "field \<Rightarrow> string" where
  "field_text f =
     (case f_arg f of
        A_Str t \<Rightarrow> fmtstr_text (if f_prec f = None then t else take (the (f_prec f)) t) (field_width f) (flags_word (f_flags f))
      | _ \<Rightarrow>
          let (v, fl) = the (field_int f); (uvalue, sign) = projr (fmtint_sign v fl)
          in fmtint_text uvalue sign (conv_base (f_conv f)) (field_width f) (field_prec f) fl)"

text \<open>
  The conversions the machine reads in its states: behind the flags no letter with a fast path
  follows. The least value of a signed conversion is left out, its negation overflows.
\<close>

definition conversion_ok :: "field \<Rightarrow> bool" where
  "conversion_ok f \<longleftrightarrow>
     set (f_flags f) \<subseteq> set ''-+ #0'' \<union> {CHR 0x27} \<and>
     (\<forall>n. f_width f = Some n \<longrightarrow> 0 < n \<and> n < 2 ^ 30) \<and> (\<forall>n. f_prec f = Some n \<longrightarrow> n < 2 ^ 30) \<and>
     (f_width f = None \<and> f_prec f = None \<longrightarrow> hd (mod_text (f_mod f) @ [f_conv f]) \<notin> set ''csdiul'') \<and>
     (case f_arg f of
        A_Str t \<Rightarrow> f_conv f = CHR ''s'' \<and> f_mod f \<noteq> PRINT_C_LDOUBLE \<and> cvalid t
      | _ \<Rightarrow> f_conv f \<in> set ''diuxXo'' \<and>
          (\<exists>v fl. field_int f = Some (v, fl) \<and> \<not> isl (fmtint_sign v fl)))"

section \<open>The states\<close>

lemma run_step:
  "p_ch s \<noteq> NUL \<Longrightarrow> run F s = bindR (step F s) (\<lambda>r. case r of Next s \<Rightarrow> run F s | Over s \<Rightarrow> Inr s)"
  by (subst run.simps) simp

lemma run_Next: "p_ch s \<noteq> NUL \<Longrightarrow> step F s = Inr (Next s') \<Longrightarrow> run F s = run F s'"
  by (simp add: run_step)

lemma fetch_Cons: "p_format s = c # f \<Longrightarrow> fetch s = Inr (s\<lparr>p_ch := c, p_format := f\<rparr>)"
  by (simp add: fetch_def)

lemma flag_of_cases: "c \<in> set ''-+ #0'' \<union> {CHR 0x27} \<Longrightarrow> \<exists>f. flag_of c = Some f" "flag_of c = Some f \<Longrightarrow> c \<noteq> NUL"
  by (auto simp: flag_of_def split: if_splits)

lemma run_flags:
  assumes "p_state s = PRINT_S_FLAGS" "p_ch s # p_format s = fl @ c # rest" "set fl \<subseteq> set ''-+ #0'' \<union> {CHR 0x27}"
    and "flag_of c = None" "c \<notin> set ''csdiulN''" "c \<noteq> NUL"
  shows "run F s = run F (s\<lparr>p_flags := fold (\<lambda>c w. w OR the (flag_of c)) fl (p_flags s), p_ch := c, p_format := rest,
    p_state := PRINT_S_WIDTH\<rparr>)"
  using assms(1-3)
proof (induction fl arbitrary: s)
  case Nil
  then have "step F s = Inr (Next (s\<lparr>p_state := PRINT_S_WIDTH\<rparr>))"
    using assms(4-6) by (simp add: step_def step_flags_def)
  then show ?case using Nil assms(6) by (subst run_Next) simp_all
next
  case (Cons x fl)
  then obtain f where f: "flag_of x = Some f" using flag_of_cases(1) [of x] by auto
  obtain y g where y: "fl @ c # rest = y # g" by (cases "fl @ c # rest") auto
  let ?s = "s\<lparr>p_flags := p_flags s OR f, p_ch := y, p_format := g\<rparr>"
  have "step F s = Inr (Next ?s)"
    using Cons.prems f y by (simp add: step_def step_flags_def set_flag_def fetch_def)
  then have "run F s = run F ?s" using Cons.prems flag_of_cases(2) [OF f] by (subst run_Next) auto
  also have "\<dots> = run F (?s\<lparr>p_flags := fold (\<lambda>c w. w OR the (flag_of c)) fl (p_flags ?s), p_ch := c, p_format := rest,
      p_state := PRINT_S_WIDTH\<rparr>)"
    by (rule Cons.IH) (use Cons.prems y in simp_all)
  finally show ?case using f by simp
qed

text \<open>The number behind \<open>w\<close> when the digits \<open>ds\<close> are read.\<close>

definition read_number :: "string \<Rightarrow> int \<Rightarrow> int" where
  "read_number ds w = fold (\<lambda>c w. 10 * w + CHARTOINT c) ds w"

lemma digit_char: "d < 10 \<Longrightarrow> isdigit (digit d) \<and> CHARTOINT (digit d) = int d"
proof -
  assume "d < 10"
  then have "d \<in> {0, 1, 2, 3, 4, 5, 6, 7, 8, 9}" by auto
  then show ?thesis by (auto simp: digit_def isdigit_def CHARTOINT_def)
qed

lemma dec_digits: "list_all isdigit (dec n)" "read_number (dec n) 0 = int n" "dec n \<noteq> []"
proof -
  have "list_all isdigit (dec n) \<and> read_number (dec n) 0 = int n"
  proof (induction n rule: less_induct)
    case (less n)
    show ?case
    proof (cases "n < 10")
      case False
      moreover have "10 * int (n div 10) + int (n mod 10) = int n" by presburger
      ultimately show ?thesis
        using less [of "n div 10"] digit_char [of "n mod 10"] by (simp add: dec_step read_number_def)
    qed (simp add: dec_small digit_char read_number_def)
  qed
  then show "list_all isdigit (dec n)" "read_number (dec n) 0 = int n" "dec n \<noteq> []"
    by (auto simp: dec_def)
qed

lemma read_number_grows:
  assumes "list_all isdigit ds" "0 \<le> w"
  shows "w \<le> read_number ds w"
  using assms
proof (induction ds arbitrary: w)
  case (Cons c ds)
  then have "0 \<le> CHARTOINT c" by (simp add: isdigit_def CHARTOINT_def)
  then show ?case using Cons.IH [of "10 * w + CHARTOINT c"] Cons.prems by (simp add: read_number_def)
qed (simp add: read_number_def)

lemma isdigit_not_NUL: "isdigit c \<Longrightarrow> c \<noteq> NUL"
  by (auto simp: isdigit_def)

lemma digit_fits:
  assumes "0 \<le> w" "list_all isdigit (c # ds)" "read_number (c # ds) w \<le> INT_MAX"
  shows "\<not> (INT_MAX - CHARTOINT c) div 10 < w" "0 \<le> 10 * w + CHARTOINT c"
proof -
  have c: "0 \<le> CHARTOINT c" using assms(2) by (simp add: isdigit_def CHARTOINT_def)
  then have "10 * w + CHARTOINT c \<le> INT_MAX"
    using read_number_grows [of ds "10 * w + CHARTOINT c"] assms by (simp add: read_number_def)
  then show "\<not> (INT_MAX - CHARTOINT c) div 10 < w" by linarith
  show "0 \<le> 10 * w + CHARTOINT c" using c assms(1) by simp
qed

lemma run_width:
  assumes "p_state s = PRINT_S_WIDTH" "p_ch s # p_format s = ds @ c # rest" "list_all isdigit ds"
    and "0 \<le> p_width s" "read_number ds (p_width s) \<le> INT_MAX" "\<not> isdigit c" "c \<noteq> CHR ''*''" "c \<noteq> NUL"
  shows "run F s = run F (s\<lparr>p_width := read_number ds (p_width s), p_ch := c, p_format := rest, p_state := PRINT_S_DOT\<rparr>)"
  using assms(1-5)
proof (induction ds arbitrary: s)
  case Nil
  then have "step F s = Inr (Next (s\<lparr>p_state := PRINT_S_DOT\<rparr>))"
    using assms(6-8) by (simp add: step_def step_width_def)
  then show ?case using Nil assms(8) by (subst run_Next) (simp_all add: read_number_def)
next
  case (Cons x ds)
  obtain y g where y: "ds @ c # rest = y # g" by (cases "ds @ c # rest") auto
  note fits = digit_fits [OF Cons.prems(4,3,5)]
  let ?s = "s\<lparr>p_width := 10 * p_width s + CHARTOINT x, p_ch := y, p_format := g\<rparr>"
  have "step F s = Inr (Next ?s)"
    using Cons.prems y fits(1) by (simp add: step_def step_width_def fetch_def)
  then have "run F s = run F ?s" using Cons.prems isdigit_not_NUL by (subst run_Next) auto
  also have "\<dots> = run F (?s\<lparr>p_width := read_number ds (p_width ?s), p_ch := c, p_format := rest, p_state := PRINT_S_DOT\<rparr>)"
    by (rule Cons.IH) (use Cons.prems y fits(2) in \<open>simp_all add: read_number_def\<close>)
  finally show ?case by (simp add: read_number_def)
qed

lemma run_digits:
  assumes "p_state s = PRINT_S_PRECISION" "p_ch s # p_format s = ds @ c # rest" "list_all isdigit ds"
    and "0 \<le> p_precision s" "read_number ds (p_precision s) \<le> INT_MAX" "\<not> isdigit c" "c \<noteq> CHR ''*''" "c \<noteq> NUL"
  shows "run F s = run F (s\<lparr>p_precision := read_number ds (p_precision s), p_ch := c, p_format := rest, p_state := PRINT_S_MOD\<rparr>)"
  using assms(1-5)
proof (induction ds arbitrary: s)
  case Nil
  then have "step F s = Inr (Next (s\<lparr>p_state := PRINT_S_MOD\<rparr>))"
    using assms(6-8) by (simp add: step_def step_precision_def)
  then show ?case using Nil assms(8) by (subst run_Next) (simp_all add: read_number_def)
next
  case (Cons x ds)
  obtain y g where y: "ds @ c # rest = y # g" by (cases "ds @ c # rest") auto
  note fits = digit_fits [OF Cons.prems(4,3,5)]
  let ?s = "s\<lparr>p_precision := 10 * p_precision s + CHARTOINT x, p_ch := y, p_format := g\<rparr>"
  have "step F s = Inr (Next ?s)"
    using Cons.prems y fits(1) by (simp add: step_def step_precision_def fetch_def Let_def)
  then have "run F s = run F ?s" using Cons.prems isdigit_not_NUL by (subst run_Next) auto
  also have "\<dots> = run F (?s\<lparr>p_precision := read_number ds (p_precision ?s), p_ch := c, p_format := rest, p_state := PRINT_S_MOD\<rparr>)"
    by (rule Cons.IH) (use Cons.prems y fits(2) in \<open>simp_all add: read_number_def\<close>)
  finally show ?case by (simp add: read_number_def)
qed

lemma run_precision:
  assumes "p_state s = PRINT_S_DOT" "p_ch s # p_format s = prec_text p @ c # rest" "p_precision s = -1"
    and "\<And>n. p = Some n \<Longrightarrow> int n \<le> INT_MAX" "\<not> isdigit c" "c \<noteq> CHR ''*''" "c \<noteq> CHR ''.''" "c \<noteq> NUL"
  shows "run F s = run F (s\<lparr>p_precision := (case p of None \<Rightarrow> -1 | Some n \<Rightarrow> int n), p_ch := c, p_format := rest,
    p_state := PRINT_S_MOD\<rparr>)"
proof (cases p)
  case None
  then have "step F s = Inr (Next (s\<lparr>p_state := PRINT_S_MOD\<rparr>))"
    using assms(1,2,7) by (simp add: step_def step_dot_def prec_text_def)
  then show ?thesis using None assms(2,3,8) by (subst run_Next) (simp_all add: prec_text_def)
next
  case (Some n)
  obtain x g where x: "dec n = x # g" using dec_digits(3) [of n] by (cases "dec n") auto
  let ?s = "s\<lparr>p_ch := x, p_format := g @ c # rest, p_state := PRINT_S_PRECISION\<rparr>"
  have dot: "p_ch s = CHR ''.''" "p_format s = dec n @ c # rest" using assms(2) Some by (simp_all add: prec_text_def)
  then have "step F s = Inr (Next ?s)"
    using assms(1) x by (simp add: step_def step_dot_def fetch_def)
  then have "run F s = run F ?s" using dot by (subst run_Next) simp_all
  also have "step F ?s = step F (?s\<lparr>p_precision := 0\<rparr>)"
    using assms(3) by (simp add: step_def step_precision_def)
  then have "run F ?s = run F (?s\<lparr>p_precision := 0\<rparr>)"
    using x dec_digits(1) [of n] isdigit_not_NUL by (subst (1 2) run_step) auto
  also have "\<dots> = run F (?s\<lparr>p_precision := read_number (dec n) 0, p_ch := c, p_format := rest, p_state := PRINT_S_MOD\<rparr>)"
    by (subst run_digits [where ds = "dec n" and c = c and rest = rest])
      (use assms(4) [OF Some] assms(5,6,8) dec_digits [of n] in \<open>simp_all add: x\<close>)
  finally show ?thesis using Some dec_digits(2) [of n] by simp
qed

lemma conv_letters: "c \<in> set ''diuxXos'' \<Longrightarrow> c \<noteq> NUL \<and> \<not> isdigit c \<and> c \<noteq> CHR ''*'' \<and> c \<noteq> CHR ''.'' \<and> flag_of c = None \<and>
    c \<notin> set ''hlLjtz''"
  unfolding list.set insert_iff empty_iff by (elim disjE) (simp_all add: isdigit_def flag_of_def)

lemma run_mod:
  assumes "p_state s = PRINT_S_MOD" "p_ch s # p_format s = mod_text m @ c # rest" "p_cflags s = PRINT_C_NONE"
    and "c \<in> set ''diuxXos''"
  shows "run F s = run F (s\<lparr>p_cflags := m, p_ch := c, p_format := rest, p_state := PRINT_S_CONV\<rparr>)"
proof -
  have "step F s = Inr (Next (s\<lparr>p_cflags := m, p_ch := c, p_format := rest, p_state := PRINT_S_CONV\<rparr>))" "p_ch s \<noteq> NUL"
    using assms conv_letters [OF assms(4)]
    by (cases m; auto simp: step_def step_mod_def mod_double_def fetch_def Let_def)+
  then show ?thesis by (rule run_Next [rotated])
qed

lemma va_field: "p_args s = field_vararg a # as \<Longrightarrow>
    (case a of A_Int w \<Rightarrow> va_int s = Inr (s\<lparr>p_args := as\<rparr>, w) | A_Long w \<Rightarrow> va_long s = Inr (s\<lparr>p_args := as\<rparr>, w)
     | A_LLong w \<Rightarrow> va_llong s = Inr (s\<lparr>p_args := as\<rparr>, w) | A_Str t \<Rightarrow> va_str s = Inr (s\<lparr>p_args := as\<rparr>, Some (cstr t)))"
  by (cases a) (simp_all add: va_defs)

lemma signed_arg_field:
  assumes "p_args s = field_vararg a # as" "signed_of (p_cflags s) a = Some v"
  shows "signed_arg s = Inr (s\<lparr>p_args := as\<rparr>, v)"
  using assms va_field [OF assms(1)] by (cases a; cases "p_cflags s") (simp_all add: signed_arg_def)

lemma unsigned_arg_field:
  assumes "p_args s = field_vararg a # as" "unsigned_of (p_cflags s) a = Some v"
  shows "unsigned_arg s = Inr (s\<lparr>p_args := as\<rparr>, v)"
  using assms va_field [OF assms(1)] by (cases a; cases "p_cflags s") (simp_all add: unsigned_arg_def)

section \<open>The conversion\<close>

lemma numeral_64: "8 \<le> base \<Longrightarrow> fmtint_sign v fl = Inr (u, sg) \<Longrightarrow> length (numeral_text base digits u) \<le> 22"
  using unat_less_64 [of v] unat_less_64 [of "- v"]
  by (intro length_numeral_text_64) (auto simp: fmtint_sign_def bindR_Inr_iff split: if_splits)

lemma spad_fits:
  assumes "fmtint_sign v fl = Inr (u, sg)" "8 \<le> base" "0 \<le> w" "w < 2 ^ 30" "- 1 \<le> p" "p < 2 ^ 30"
  shows "int32 (fmtint_spad u sg base w p fl (numeral_text base (digit_table c) u)) =
    Inr (fmtint_spad u sg base w p fl (numeral_text base (digit_table c) u))"
proof -
  let ?t = "numeral_text base (digit_table c) u"
  have "length ?t \<le> 22" using assms(2,1) by (rule numeral_64)
  moreover have "getnumsep (length ?t) \<le> length ?t" by (simp add: getnumsep_def div_le_dividend [THEN order_trans])
  ultimately show ?thesis
    using assms(3-6) by (auto simp: fmtint_parts int32_def INT_MAX_def max_def)
qed

lemma field_bounds: "conversion_ok f \<Longrightarrow> 0 \<le> field_width f \<and> field_width f < 2 ^ 30 \<and> -1 \<le> field_prec f \<and> field_prec f < 2 ^ 30"
  by (auto simp: conversion_ok_def field_width_def field_prec_def split: option.splits)

lemma conv_base_bounds: "8 \<le> conv_base c" "conv_base c \<le> 16"
  by (simp_all add: conv_base_def)

lemma fmtint_of_field:
  assumes "conversion_ok f" "field_int f = Some (v, fl)" "\<not> isl (fmtint_sign v fl)" "\<forall>t. f_arg f \<noteq> A_Str t"
  shows "fmtint b v (conv_base (f_conv f)) (field_width f) (field_prec f) fl = Inr (emit (field_text f) b)"
proof -
  obtain u sg where sg: "fmtint_sign v fl = Inr (u, sg)" using assms(3) by (cases "fmtint_sign v fl") auto
  have "field_text f = fmtint_text u sg (conv_base (f_conv f)) (field_width f) (field_prec f) fl"
    using assms(2,4) sg by (cases "f_arg f") (simp_all add: field_text_def)
  then show ?thesis
    using fmtint_emit [OF sg conv_base_bounds spad_fits [OF sg conv_base_bounds(1)]] field_bounds [OF assms(1)] by simp
qed

lemma reset_conv_Cons:
  "p_format s = y # g \<Longrightarrow> reset_conv s = Inr (Next (s\<lparr>p_ch := y, p_format := g, p_state := PRINT_S_DEFAULT, p_base := 0,
     p_cflags := PRINT_C_NONE, p_flags := 0, p_width := 0, p_precision := -1\<rparr>))"
  by (simp add: reset_conv_def fetch_def)

text \<open>The variables behind a conversion that printed \<open>t\<close>.\<close>

definition after_conv :: "string \<Rightarrow> 'f vararg list \<Rightarrow> char \<Rightarrow> char list \<Rightarrow> 'f printer \<Rightarrow> 'f printer" where
  "after_conv t as y g s =
     (with_buf (emit t (p_buf s)) s)\<lparr>p_args := as, p_ch := y, p_format := g, p_state := PRINT_S_DEFAULT, p_base := 0,
       p_cflags := PRINT_C_NONE, p_flags := 0, p_width := 0, p_precision := -1\<rparr>"

definition reads_field :: "field \<Rightarrow> 'f printer \<Rightarrow> bool" where
  "reads_field f s \<longleftrightarrow> p_base s = 0 \<and> p_cflags s = f_mod f \<and> p_flags s = flags_word (f_flags f) \<and>
     p_width s = field_width f \<and> p_precision s = field_prec f"

lemma step_conv_field:
  assumes ok: "conversion_ok f" and s: "p_state s = PRINT_S_CONV" "p_ch s = f_conv f" "reads_field f s"
    and f: "p_format s = y # g" and a: "p_args s = field_vararg (f_arg f) # as"
  shows "step F s = Inr (Next (after_conv (field_text f) as y g s))"
proof (cases "\<exists>t. f_arg f = A_Str t")
  case True
  then obtain t where t: "f_arg f = A_Str t" "f_conv f = CHR ''s''" "cvalid t" using ok by (auto simp: conversion_ok_def)
  have "fmtstr b (Some (cstr t)) (field_width f) (field_prec f) (flags_word (f_flags f)) = Inr (emit (field_text f) b)" for b
    using fmtstr_emit [OF t(3), where rest = "[]"] t(1)
    by (auto simp: field_text_def field_prec_def split: option.splits)
  then show ?thesis
    using s f a t by (simp add: step_def step_conv_def conv_s_def va_defs reads_field_def reset_conv_Cons after_conv_def
        with_buf_def p_buf_def)
next
  case False
  then obtain v fl where v: "f_conv f \<in> set ''diuxXo''" "field_int f = Some (v, fl)" "\<not> isl (fmtint_sign v fl)"
    using ok by (cases "f_arg f") (auto simp: conversion_ok_def)
  have int: "fmtint b v (conv_base (f_conv f)) (field_width f) (field_prec f) fl = Inr (emit (field_text f) b)" for b
    by (rule fmtint_of_field [OF ok v(2,3)]) (use False in blast)
  show ?thesis
  proof (cases "f_conv f \<in> set ''di''")
    case True
    then have fl: "fl = flags_word (f_flags f)" and val: "signed_of (f_mod f) (f_arg f) = Some v" "conv_base (f_conv f) = 10"
      using v(2) by (auto simp: field_int_def conv_base_def)
    have "signed_arg s = Inr (s\<lparr>p_args := as\<rparr>, v)"
      by (rule signed_arg_field [OF a]) (use s val in \<open>simp add: reads_field_def\<close>)
    then have "conv_signed s = Inr (with_buf (emit (field_text f) (p_buf s)) (s\<lparr>p_args := as\<rparr>))"
      using int [of "p_buf s"] s val(2) unfolding fl by (simp add: conv_signed_def reads_field_def p_buf_def)
    then show ?thesis
      using True s f by (auto simp: step_def step_conv_def reset_conv_Cons after_conv_def with_buf_def)
  next
    case unsigned: False
    let ?c = "f_conv f"
    let ?s = "set_flag PRINT_F_UNSIGNED ((if ?c = CHR ''X'' then set_flag PRINT_F_UP s else s)\<lparr>p_base := conv_base ?c\<rparr>)"
    have c: "?c \<in> {CHR ''u'', CHR ''x'', CHR ''X'', CHR ''o''}" using v(1) unsigned by auto
    have fl: "p_flags ?s = fl" and val: "unsigned_of (f_mod f) (f_arg f) = Some v"
      using v(2) unsigned s(3) by (auto simp: field_int_def reads_field_def set_flag_def)
    have "unsigned_arg ?s = Inr (?s\<lparr>p_args := as\<rparr>, v)"
      by (rule unsigned_arg_field [where a = "f_arg f"]) (use a s val in \<open>simp_all add: reads_field_def set_flag_def\<close>)
    then have "conv_unsigned s = Inr (with_buf (emit (field_text f) (p_buf s)) (?s\<lparr>p_args := as\<rparr>))"
      using int [of "p_buf s"] s c fl unfolding conv_unsigned_def
      by (auto simp: reads_field_def p_buf_def set_flag_def conv_base_def)
    then show ?thesis
      using c s f by (auto simp: step_def step_conv_def reset_conv_Cons after_conv_def with_buf_def set_flag_def)
  qed
qed

section \<open>From the percent sign to the end\<close>

lemma hd_append_Cons: "xs @ ys = c # r \<Longrightarrow> c = hd (xs @ ys)"
  by simp

lemma dec_head: "0 < n \<Longrightarrow> isdigit (hd (dec n)) \<and> hd (dec n) \<noteq> CHR ''0''"
proof (induction n rule: less_induct)
  case (less n)
  show ?case
  proof (cases "n < 10")
    case False
    then show ?thesis using less.IH [of "n div 10"] dec_digits(3) by (simp add: dec_step hd_append)
  qed (use less.prems digit_zero digit_char in \<open>simp add: dec_small\<close>)
qed

lemma mod_head:
  assumes "c \<in> set ''diuxXos''"
  shows "hd (mod_text m @ c # r) \<noteq> NUL \<and> \<not> isdigit (hd (mod_text m @ c # r)) \<and> hd (mod_text m @ c # r) \<notin> set ''*.N'' \<and>
    flag_of (hd (mod_text m @ c # r)) = None"
  using conv_letters [OF assms] assms by (cases m) (auto simp: isdigit_def flag_of_def)

lemma prec_head:
  assumes "c \<in> set ''diuxXos''"
  shows "hd (prec_text p @ mod_text m @ c # r) \<noteq> NUL \<and> \<not> isdigit (hd (prec_text p @ mod_text m @ c # r)) \<and>
    hd (prec_text p @ mod_text m @ c # r) \<notin> set ''*N'' \<and> flag_of (hd (prec_text p @ mod_text m @ c # r)) = None"
  using mod_head [OF assms] by (cases p) (auto simp: prec_text_def isdigit_def flag_of_def)

lemma digit_not_special: "isdigit c \<Longrightarrow> c \<noteq> CHR ''0'' \<Longrightarrow> c \<noteq> NUL \<and> c \<notin> set ''csdiulN'' \<and> flag_of c = None"
proof (rule ccontr)
  assume d: "isdigit c" "c \<noteq> CHR ''0''" "\<not> (c \<noteq> NUL \<and> c \<notin> set ''csdiulN'' \<and> flag_of c = None)"
  then have "c = NUL \<or> c \<in> set ''csdiulN'' \<or> c \<in> set ''-+ #'' \<or> c = CHR 0x27"
    by (simp add: flag_of_def split: if_splits)
  then show False using d(1) unfolding list.set insert_iff empty_iff by (elim disjE) (simp_all add: isdigit_def)
qed

lemma width_head:
  assumes "conversion_ok f" "c = hd (width_text (f_width f) @ prec_text (f_prec f) @ mod_text (f_mod f) @ f_conv f # r)"
  shows "c \<noteq> NUL \<and> c \<notin> set ''csdiulN'' \<and> flag_of c = None"
proof (cases "f_width f")
  case (Some n)
  then have "c = hd (dec n)" "0 < n"
    using dec_digits(3) [of n] assms by (simp_all add: width_text_def conversion_ok_def)
  then have "isdigit c" "c \<noteq> CHR ''0''" using dec_head [of n] by simp_all
  then show ?thesis by (rule digit_not_special)
next
  case None
  have letter: "f_conv f \<in> set ''diuxXos''" using assms(1) by (auto simp: conversion_ok_def split: field_arg.splits)
  show ?thesis
  proof (cases "f_prec f")
    case (Some n)
    then show ?thesis using None assms(2) by (simp add: width_text_def prec_text_def flag_of_def)
  next
    case none: None
    have "hd (mod_text (f_mod f) @ f_conv f # r) = hd (mod_text (f_mod f) @ [f_conv f])" by (cases "f_mod f") simp_all
    then have "c = hd (mod_text (f_mod f) @ [f_conv f])" "c \<notin> set ''csdiul''"
      using assms None none by (simp_all add: width_text_def prec_text_def conversion_ok_def)
    then show ?thesis
      using mod_head [OF letter, of "f_mod f" r] none None assms(2) by (simp add: width_text_def prec_text_def)
  qed
qed

lemma hd_tl: "xs @ c # r = hd (xs @ c # r) # tl (xs @ c # r)"
  by (cases xs) simp_all

lemma run_field:
  assumes ok: "conversion_ok f" and s: "p_state s = PRINT_S_DEFAULT" "p_base s = 0" "p_cflags s = PRINT_C_NONE" "p_flags s = 0"
      "p_width s = 0" "p_precision s = -1"
    and f: "p_ch s # p_format s = field_format f @ y # g" and a: "p_args s = field_vararg (f_arg f) # as"
  shows "run F s = run F (after_conv (field_text f) as y g s)"
proof -
  let ?m = "mod_text (f_mod f) @ f_conv f # y # g"
  let ?p = "prec_text (f_prec f) @ ?m"
  let ?w = "width_text (f_width f) @ ?p"
  let ?fl = "f_flags f @ ?w"
  have letter: "f_conv f \<in> set ''diuxXos''" using ok by (auto simp: conversion_ok_def split: field_arg.splits)
  note heads = mod_head [OF letter] prec_head [OF letter] width_head [OF ok refl]
  have fmt: "p_ch s = CHR ''%''" "p_format s = ?fl" using f by (simp_all add: field_format_def)
  let ?s1 = "s\<lparr>p_state := PRINT_S_FLAGS, p_ch := hd ?fl, p_format := tl ?fl\<rparr>"
  have cons: "?fl = hd ?fl # tl ?fl" "?w = hd ?w # tl ?w" "?p = hd ?p # tl ?p" "?m = hd ?m # tl ?m"
    using hd_tl [of "f_flags f @ width_text (f_width f) @ prec_text (f_prec f) @ mod_text (f_mod f)"]
      hd_tl [of "width_text (f_width f) @ prec_text (f_prec f) @ mod_text (f_mod f)"]
      hd_tl [of "prec_text (f_prec f) @ mod_text (f_mod f)"] hd_tl [of "mod_text (f_mod f)"] by simp_all
  have width_reads: "list_all isdigit (width_text (f_width f))" "read_number (width_text (f_width f)) 0 = field_width f"
      "field_width f \<le> INT_MAX"
    using dec_digits field_bounds [OF ok]
    by (auto simp: width_text_def field_width_def read_number_def INT_MAX_def split: option.splits)
  have "step F s = Inr (Next ?s1)"
    using s(1) fmt cons(1) by (simp add: step_def step_default_def fetch_Cons [of _ "hd ?fl" "tl ?fl"])
  then have "run F s = run F ?s1" using fmt(1) by (subst run_Next) simp_all
  also have "\<dots> = run F (?s1\<lparr>p_flags := flags_word (f_flags f), p_ch := hd ?w, p_format := tl ?w, p_state := PRINT_S_WIDTH\<rparr>)"
    unfolding flags_word_def
    by (subst run_flags [where fl = "f_flags f" and c = "hd ?w" and rest = "tl ?w"])
      (use heads(3) [of "y # g"] cons ok s in \<open>simp_all add: conversion_ok_def\<close>)
  also have "\<dots> = run F (?s1\<lparr>p_flags := flags_word (f_flags f), p_width := field_width f, p_ch := hd ?p, p_format := tl ?p,
      p_state := PRINT_S_DOT\<rparr>)"
    by (subst run_width [where ds = "width_text (f_width f)" and c = "hd ?p" and rest = "tl ?p"])
      (use heads(2) [of "f_prec f" "f_mod f" "y # g"] cons ok s width_reads in simp_all)
  also have "\<dots> = run F (?s1\<lparr>p_flags := flags_word (f_flags f), p_width := field_width f, p_precision := field_prec f,
      p_ch := hd ?m, p_format := tl ?m, p_state := PRINT_S_MOD\<rparr>)"
    by (subst run_precision [where p = "f_prec f" and c = "hd ?m" and rest = "tl ?m"])
      (use heads(1) [of "f_mod f" "y # g"] cons ok s in \<open>simp_all add: field_prec_def conversion_ok_def INT_MAX_def\<close>)
  also have "\<dots> = run F (?s1\<lparr>p_flags := flags_word (f_flags f), p_width := field_width f, p_precision := field_prec f,
      p_cflags := f_mod f, p_ch := f_conv f, p_format := y # g, p_state := PRINT_S_CONV\<rparr>)"
    by (subst run_mod [where m = "f_mod f" and c = "f_conv f" and rest = "y # g"]) (use letter cons s in simp_all)
  also have "\<dots> = run F (after_conv (field_text f) as y g s)"
    by (subst run_Next [OF _ step_conv_field [OF ok, where as = as and y = y and g = g]])
      (use letter conv_letters [OF letter] s a in \<open>simp_all add: reads_field_def after_conv_def with_buf_def p_buf_def\<close>)
  finally show ?thesis .
qed

end
