(* ===== verification/Snprintf_Pieces.thy ===== *)
theory Snprintf_Pieces
  imports Snprintf_Fields
begin

text \<open>
  The text that \<open>o_snprintf\<close> prints. A format that is put together from literal characters,
  \<open>%%\<close>, the conversions with a fast path and the fields of \<open>Snprintf_Fields\<close> is described by a list of
  pieces; the output buffer
  then holds the text of the pieces, cut off where the buffer ends, and a terminator.

  The pieces leave out what the fast paths get wrong: the value zero of the \<open>l\<close> and \<open>ll\<close>
  conversions, whose letters are printed, and the least value of the signed types, whose negation
  overflows.
\<close>

section \<open>Pieces of a format\<close>

datatype piece =
  Lit char | Percent | Str string | Chr char | Dec "32 word" | UDec "32 word"
| LDec "32 word" | ULDec "32 word" | LLDec "64 word" | ULLDec "64 word" | Conversion field

fun piece_ok :: "piece \<Rightarrow> bool" where
  "piece_ok (Lit c) = (c \<noteq> NUL \<and> c \<noteq> CHR ''%'')"
| "piece_ok Percent = True"
| "piece_ok (Str v) = cvalid v"
| "piece_ok (Chr c) = True"
| "piece_ok (Dec v) = (sint v \<noteq> - (2 ^ 31))"
| "piece_ok (UDec v) = True"
| "piece_ok (LDec v) = (v \<noteq> 0 \<and> sint v \<noteq> - (2 ^ 31))"
| "piece_ok (ULDec v) = (v \<noteq> 0)"
| "piece_ok (LLDec v) = (v \<noteq> 0 \<and> sint v \<noteq> - (2 ^ 63))"
| "piece_ok (ULLDec v) = (v \<noteq> 0)"
| "piece_ok (Conversion f) = conversion_ok f"

fun piece_format :: "piece \<Rightarrow> string" where
  "piece_format (Lit c) = [c]"
| "piece_format Percent = ''%%''"
| "piece_format (Str v) = ''%s''"
| "piece_format (Chr c) = ''%c''"
| "piece_format (Dec v) = ''%d''"
| "piece_format (UDec v) = ''%u''"
| "piece_format (LDec v) = ''%ld''"
| "piece_format (ULDec v) = ''%lu''"
| "piece_format (LLDec v) = ''%lld''"
| "piece_format (ULLDec v) = ''%llu''"
| "piece_format (Conversion f) = field_format f"

fun piece_args :: "piece \<Rightarrow> 'f vararg list" where
  "piece_args (Lit c) = []"
| "piece_args Percent = []"
| "piece_args (Str v) = [VStr (Some (cstr v))]"
| "piece_args (Chr c) = [VInt (of_char c)]"
| "piece_args (Dec v) = [VInt v]"
| "piece_args (UDec v) = [VInt v]"
| "piece_args (LDec v) = [VLong v]"
| "piece_args (ULDec v) = [VLong v]"
| "piece_args (LLDec v) = [VLLong v]"
| "piece_args (ULLDec v) = [VLLong v]"
| "piece_args (Conversion f) = [field_vararg (f_arg f)]"

definition int_text :: "int \<Rightarrow> string" where
  "int_text x = (if x < 0 then CHR ''-'' # dec (nat (- x)) else dec (nat x))"

fun piece_text :: "piece \<Rightarrow> string" where
  "piece_text (Lit c) = [c]"
| "piece_text Percent = ''%''"
| "piece_text (Str v) = v"
| "piece_text (Chr c) = [c]"
| "piece_text (Dec v) = int_text (sint v)"
| "piece_text (UDec v) = dec (unat v)"
| "piece_text (LDec v) = int_text (sint v)"
| "piece_text (ULDec v) = dec (unat v)"
| "piece_text (LLDec v) = int_text (sint v)"
| "piece_text (ULLDec v) = dec (unat v)"
| "piece_text (Conversion f) = field_text f"

section \<open>Printing as far as the buffer goes\<close>

lemma prints_full: "length (fst b) \<le> snd b + 1 \<Longrightarrow> prints b t \<Longrightarrow> prints b (t @ u)"
  by (cases b) (auto simp: prints_def Let_def)

lemma prints_blit:
  assumes "prints b t" "snd b < length (fst b)"
  shows "prints (blit u b) (t @ u)"
proof (cases b)
  case (Pair str len)
  let ?room = "length str - 1"
  have lt: "len < length str" using assms(2) Pair by simp
  show ?thesis
  proof (cases "len < ?room")
    case True
    then have t: "len = length t" "take len str = t" using assms(1) Pair by (auto simp: prints_def Let_def)
    show ?thesis
    proof (cases "len + length u < length str")
      case True
      then have "blit u b = (t @ u @ drop (len + length u) str, len + length u)"
        using Pair t by (simp add: blit_def Let_def)
      moreover have "len + length u < ?room \<or> ?room = len + length u" using True by linarith
      ultimately show ?thesis using t True by (auto simp: prints_def Let_def)
    next
      case False
      then have "blit u b = (t @ take (length str - len) u, length str)"
        using Pair t lt by (simp add: blit_def Let_def)
      moreover have "?room \<le> length t + length u" "\<not> length str < ?room" using False t by linarith+
      moreover have "length (t @ take (length str - len) u) = length str" using False t lt by simp
      ultimately show ?thesis
        using t by (auto simp: prints_def Let_def min_def)
    qed
  next
    case False
    then have len: "len = ?room" using lt by linarith
    then have p: "?room \<le> length t" "take ?room str = take ?room t"
      using assms(1) Pair False by (auto simp: prints_def Let_def)
    obtain k where k: "snd (blit u b) = len + k" "fst (blit u b) = take len str @ take k u @ drop (len + k) str"
      "length (fst (blit u b)) = length str"
      using lt length_blit [of b u] Pair by (auto simp: blit_def Let_def)
    have "take ?room (fst (blit u b)) = take ?room str"
      using k(2) len lt by simp
    then show ?thesis
      using p k len by (cases "blit u b") (auto simp: prints_def Let_def)
  qed
qed

lemma snd_blit: "snd (blit t b) \<le> snd b + length t"
  by (cases b) (auto simp: blit_def Let_def)

lemma fast_s_loop_prints:
  assumes "cvalid v" "prints b t" "snd b \<le> length t"
  shows "\<exists>b'. fast_s_loop (cstr v) b = Inr b' \<and> prints b' (t @ v) \<and> snd b' \<le> length (t @ v) \<and>
    length (fst b') = length (fst b)"
  using assms
proof (induction v arbitrary: b t)
  case Nil
  then show ?case by (cases b) (auto simp: cstr_def)
next
  case (Cons c v)
  obtain str len where b: "b = (str, len)" by (cases b)
  show ?case
  proof (cases "len + 1 < length str")
    case True
    then have "fast_s_loop (cstr (c # v)) b = fast_s_loop (cstr v) (putc c b)"
      using Cons.prems(1) by (simp add: cstr_def b)
    moreover have "prints (putc c b) (t @ [c])" "snd (putc c b) \<le> length (t @ [c])"
      using Cons.prems prints_putc by auto
    moreover have "cvalid v" using Cons.prems(1) by simp
    ultimately show ?thesis using Cons.IH [of "putc c b" "t @ [c]"] by simp
  next
    case False
    then have "fast_s_loop (cstr (c # v)) b = Inr b" by (simp add: cstr_def b)
    then show ?thesis using Cons.prems False prints_full [of b t "c # v"] by (auto simp: b)
  qed
qed

lemma with_buf_sel [simp]:
  "p_state (with_buf b s) = p_state s" "p_ch (with_buf b s) = p_ch s"
  "p_format (with_buf b s) = p_format s" "p_args (with_buf b s) = p_args s"
  "p_out (with_buf b s) = fst b" "p_len (with_buf b s) = snd b" "p_scratch (with_buf b s) = p_scratch s"
  by (simp_all add: with_buf_def)

section \<open>One piece\<close>

text \<open>The machine between two conversions, and the text printed so far.\<close>

definition idle :: "'f printer \<Rightarrow> bool" where
  "idle s \<longleftrightarrow> p_base s = 0 \<and> p_cflags s = PRINT_C_NONE \<and> p_flags s = 0 \<and> p_width s = 0 \<and>
     p_precision s = -1 \<and> \<not> p_overflow s"

definition printed :: "nat \<Rightarrow> string \<Rightarrow> 'f printer \<Rightarrow> bool" where
  "printed n t s \<longleftrightarrow> length (p_out s) = n \<and> length (p_scratch s) = 32 \<and> prints (p_buf s) t \<and>
     p_len s \<le> length t"

text \<open>
  What a conversion must do: print its text and go on behind it, or stop because the buffer is
  full.
\<close>

definition prints_piece ::
  "nat \<Rightarrow> string \<Rightarrow> string \<Rightarrow> char list \<Rightarrow> 'f vararg list \<Rightarrow> 'f printer ctl res \<Rightarrow> bool" where
  "prints_piece n t u rest as m \<longleftrightarrow>
     (case m of
        Inl e \<Rightarrow> False
      | Inr (Next s) \<Rightarrow> idle s \<and> p_state s = PRINT_S_DEFAULT \<and> printed n (t @ u) s \<and>
          p_ch s # p_format s = rest \<and> p_args s = as
      | Inr (Over s) \<Rightarrow> idle s \<and> printed n t s \<and> n \<le> p_len s + 1)"

lemma printed_buf [simp]:
  "printed n t (with_buf b s) \<longleftrightarrow> length (fst b) = n \<and> length (p_scratch s) = 32 \<and> prints b t \<and> snd b \<le> length t"
  by (cases b) (simp add: printed_def with_buf_def p_buf_def)

lemma printed_state [simp]:
  "printed n t (s\<lparr>p_state := st\<rparr>) = printed n t s"
  "printed n t (s\<lparr>p_ch := c\<rparr>) = printed n t s"
  "printed n t (s\<lparr>p_format := f\<rparr>) = printed n t s"
  "printed n t (s\<lparr>p_args := as\<rparr>) = printed n t s"
  by (simp_all add: printed_def p_buf_def)

lemma idle_state [simp]:
  "idle (s\<lparr>p_state := st\<rparr>) = idle s"
  "idle (s\<lparr>p_ch := c\<rparr>) = idle s"
  "idle (s\<lparr>p_format := f\<rparr>) = idle s"
  "idle (s\<lparr>p_args := as\<rparr>) = idle s"
  "idle (s\<lparr>p_scratch := scr\<rparr>) = idle s"
  "idle (with_buf b s) = idle s"
  by (simp_all add: idle_def with_buf_def)

lemma resume_piece:
  assumes "idle s" "printed n (t @ u) s" "p_format s = rest" "rest \<noteq> []" "p_args s = as"
  shows "prints_piece n t u rest as (resume s)"
  using assms by (cases rest) (auto simp: prints_piece_def resume_def fetch_def)

lemma put1_printed:
  assumes "printed n t s" "\<not> full s"
  shows "put1 c s = Inr (with_buf (putc c (p_buf s)) s)" "printed n (t @ [c]) (with_buf (putc c (p_buf s)) s)"
    "p_len (with_buf (putc c (p_buf s)) s) < n"
  using assms prints_putc [of "p_buf s" t c]
  by (auto simp: put1_def full_def with_buf_def p_buf_def printed_def)

lemma fast_digits_printed:
  assumes "printed n t s" "p_len s < n" "0 < v" "v < 2 ^ 64"
  obtains s' where "fast_digits v s = Inr s'" "printed n (t @ dec v) s'"
    "idle s' = idle s" "p_format s' = p_format s" "p_args s' = p_args s"
proof -
  obtain scratch where scr: "length scratch = 32"
    "fast_digits v s = Inr ((with_buf (blit (dec v) (p_buf s)) s)\<lparr>p_scratch := scratch\<rparr>)"
    using fast_digits_dec [of s v] assms by (auto simp: printed_def)
  have "snd (p_buf s) < length (fst (p_buf s))" using assms by (simp add: printed_def p_buf_def)
  then have "prints (blit (dec v) (p_buf s)) (t @ dec v)" "length (fst (blit (dec v) (p_buf s))) = n"
    using assms(1) prints_blit length_blit [of "p_buf s"] by (auto simp: printed_def p_buf_def)
  moreover have "snd (blit (dec v) (p_buf s)) \<le> length (t @ dec v)"
    using snd_blit [of "dec v" "p_buf s"] assms(1) by (simp add: printed_def p_buf_def)
  ultimately show ?thesis
    using scr(1) by (intro that [OF scr(2)]) (auto simp: printed_def p_buf_def with_buf_def idle_def)
qed

text \<open>The common part of the decimal conversions; \<open>f\<close> fetches behind the letters.\<close>

lemma decimal_piece:
  assumes s: "idle s" "printed n t s" "0 < n"
    and f: "\<And>s' u. idle s' \<Longrightarrow> printed n (t @ u) s' \<Longrightarrow> p_format s' = p_format s \<Longrightarrow> p_args s' = p_args s
      \<Longrightarrow> prints_piece n t u rest (p_args s) (f s')"
    and zero: "is0 \<Longrightarrow> prints_piece n t (dec 0) rest (p_args s) (bindR (put1 CHR ''0'' s) resume)"
    and neg: "neg \<Longrightarrow> \<not> is0 \<Longrightarrow> mag = Inr w" and w: "\<not> is0 \<Longrightarrow> 0 < w \<and> w < 2 ^ 64"
  shows "prints_piece n t (if is0 then dec 0 else if neg then CHR ''-'' # dec w else dec w) rest (p_args s)
    (if full s then Inr (Over s) else if is0 then bindR (put1 CHR ''0'' s) resume
     else if neg then bindR (put1 CHR ''-'' s) (\<lambda>s. bindR mag (\<lambda>u. bindR (fast_digits u s) f))
     else bindR (fast_digits w s) f)"
proof -
  consider "full s" | "\<not> full s" "is0" | "\<not> full s" "\<not> is0" "neg" | "\<not> full s" "\<not> is0" "\<not> neg" by blast
  then show ?thesis
  proof cases
    case 1
    then show ?thesis using s by (simp add: prints_piece_def full_def printed_def)
  next
    case 2
    then show ?thesis using zero by simp
  next
    case 3
    note p = put1_printed [OF s(2) 3(1), of "CHR ''-''"]
    let ?s = "with_buf (putc CHR ''-'' (p_buf s)) s"
    obtain s' where d: "fast_digits w ?s = Inr s'" "printed n ((t @ ''-'') @ dec w) s'" "idle s' = idle ?s"
      "p_format s' = p_format ?s" "p_args s' = p_args ?s"
      by (rule fast_digits_printed [OF p(2,3), of w]) (use w 3 in auto)
    then have "prints_piece n t (CHR ''-'' # dec w) rest (p_args s) (f s')"
      using s by (intro f) (simp_all add: with_buf_def idle_def)
    then show ?thesis using 3 p(1) d(1) neg by simp
  next
    case 4
    have "p_len s < n" using s 4 by (simp add: full_def printed_def)
    then obtain s' where d: "fast_digits w s = Inr s'" "printed n (t @ dec w) s'" "idle s' = idle s"
      "p_format s' = p_format s" "p_args s' = p_args s"
      by (rule fast_digits_printed [OF s(2), of w]) (use w 4 in auto)
    then have "prints_piece n t (dec w) rest (p_args s) (f s')"
      using s by (intro f) simp_all
    then show ?thesis using 4 d(1) by simp
  qed
qed

lemma dec_0: "dec 0 = ''0''"
  by (simp add: dec_small digit_def)

lemma zero_piece:
  assumes "idle s" "printed n t s" "\<not> full s" "p_format s = rest" "rest \<noteq> []"
  shows "prints_piece n t (dec 0) rest (p_args s) (bindR (put1 CHR ''0'' s) resume)"
  using put1_printed [OF assms(2,3), of "CHR ''0''"] assms
  by (simp add: dec_0 del: printed_buf) (intro resume_piece; simp del: printed_buf)

lemma nat_sint: "0 \<le> sint (v :: 'a :: len word) \<Longrightarrow> nat (sint v) = unat v"
proof -
  assume n: "0 \<le> sint v"
  have "sint v < 2 ^ (LENGTH('a) - 1)" by (rule sint_lt)
  also have "\<dots> \<le> (2::int) ^ LENGTH('a)" by (rule power_increasing) simp_all
  finally have "uint v = sint v" using n by (simp add: uint_sint take_bit_int_eq_self)
  then show ?thesis by (simp add: unat_eq_nat_uint)
qed

text \<open>Each fast path prints its piece.\<close>

lemma va_int_word [simp]: "p_args s = VInt v # as \<Longrightarrow> va_int s = Inr (s\<lparr>p_args := as\<rparr>, v)"
  "p_args s = VLong v # as \<Longrightarrow> va_long s = Inr (s\<lparr>p_args := as\<rparr>, v)"
  "p_args s = VLLong w # as \<Longrightarrow> va_llong s = Inr (s\<lparr>p_args := as\<rparr>, w)"
  "p_args s = VStr x # as \<Longrightarrow> va_str s = Inr (s\<lparr>p_args := as\<rparr>, x)"
  by (simp_all add: va_defs)

lemma full_updates [simp]:
  "full (s\<lparr>p_args := as\<rparr>) = full s" "full (s\<lparr>p_state := st\<rparr>) = full s"
  "full (s\<lparr>p_ch := c\<rparr>) = full s" "full (s\<lparr>p_format := f\<rparr>) = full s"
  by (simp_all add: full_def)

lemma magnitude32:
  "sint v < 0 \<Longrightarrow> sint v \<noteq> - (2 ^ 31) \<Longrightarrow> negate32 v = Inr (nat (- sint v))"
  "negate32 v = Inr u \<Longrightarrow> u < 2 ^ 64"
  using sint_greater_eq [of v] by (auto simp: negate32_def nat_less_iff split: if_splits)

lemma int_text_word:
  "int_text (sint v) = (if v = 0 then dec 0 else if sint v < 0 then CHR ''-'' # dec (nat (- sint v)) else dec (unat v))"
  by (auto simp: int_text_def nat_sint [symmetric])

lemma magnitude_range:
  fixes v :: "'a :: len word"
  assumes "v \<noteq> 0" "LENGTH('a) \<le> 64" "w = (if sint v < 0 then nat (- sint v) else unat v)"
  shows "0 < w \<and> w < 2 ^ 64"
proof -
  have le: "(2::nat) ^ LENGTH('a) \<le> 2 ^ 64" using assms(2) by (rule power_increasing) simp
  have "nat (- sint v) \<le> 2 ^ (LENGTH('a) - 1)" using sint_ge [of v] by (simp add: nat_le_iff)
  also have "\<dots> < (2::nat) ^ LENGTH('a)" by (rule power_strict_increasing) simp_all
  finally have "nat (- sint v) < 2 ^ 64" using le by linarith
  moreover have "unat v < 2 ^ 64" using unsigned_less [where 'a = nat and w = v] le by linarith
  ultimately show ?thesis using assms(1,3) by (auto simp: unat_gt_0)
qed

lemma signed_piece:
  fixes v :: "'a :: len word"
  assumes s: "idle s" "printed n t s" "0 < n" "p_args s = as"
    and f: "\<And>s' u. idle s' \<Longrightarrow> printed n (t @ u) s' \<Longrightarrow> p_format s' = p_format s \<Longrightarrow> p_args s' = p_args s
      \<Longrightarrow> prints_piece n t u rest (p_args s) (f s')"
    and zero: "v = 0 \<Longrightarrow> \<not> full s \<Longrightarrow> p_format s = rest \<and> rest \<noteq> []"
    and neg: "sint v < 0 \<Longrightarrow> mag = Inr (nat (- sint v))" and L: "LENGTH('a) \<le> 64"
  shows "prints_piece n t (int_text (sint v)) rest as
    (if full s then Inr (Over s) else if v = 0 then bindR (put1 CHR ''0'' s) resume
     else if sint v < 0 then bindR (put1 CHR ''-'' s) (\<lambda>s. bindR mag (\<lambda>u. bindR (fast_digits u s) f))
     else bindR (fast_digits (unat v) s) f)"
proof (cases "full s")
  case True
  then show ?thesis using s by (simp add: prints_piece_def full_def printed_def)
next
  case False
  let ?w = "if sint v < 0 then nat (- sint v) else unat v"
  have "prints_piece n t (if v = 0 then dec 0 else if sint v < 0 then CHR ''-'' # dec ?w else dec ?w) rest (p_args s)
    (if full s then Inr (Over s) else if v = 0 then bindR (put1 CHR ''0'' s) resume
     else if sint v < 0 then bindR (put1 CHR ''-'' s) (\<lambda>s. bindR mag (\<lambda>u. bindR (fast_digits u s) f))
     else bindR (fast_digits ?w s) f)"
    by (rule decimal_piece [OF s(1-3) f]) (use neg magnitude_range [OF _ L] zero_piece [OF s(1,2) False] zero False in auto)
  then show ?thesis unfolding int_text_word using s(4) by (simp split: if_splits)
qed

lemma unsigned_piece:
  fixes v :: "'a :: len word"
  assumes s: "idle s" "printed n t s" "0 < n" "p_args s = as"
    and f: "\<And>s' u. idle s' \<Longrightarrow> printed n (t @ u) s' \<Longrightarrow> p_format s' = p_format s \<Longrightarrow> p_args s' = p_args s
      \<Longrightarrow> prints_piece n t u rest (p_args s) (f s')"
    and zero: "v = 0 \<Longrightarrow> \<not> full s \<Longrightarrow> p_format s = rest \<and> rest \<noteq> []" and L: "LENGTH('a) \<le> 64"
  shows "prints_piece n t (dec (unat v)) rest as
    (if full s then Inr (Over s) else if v = 0 then bindR (put1 CHR ''0'' s) resume
     else bindR (fast_digits (unat v) s) f)"
proof (cases "full s")
  case True
  then show ?thesis using s by (simp add: prints_piece_def full_def printed_def)
next
  case False
  have "unat v < 2 ^ LENGTH('a)" by (rule unsigned_less)
  also have "\<dots> \<le> (2::nat) ^ 64" using L by (rule power_increasing) simp
  finally have "v \<noteq> 0 \<Longrightarrow> 0 < unat v \<and> unat v < 2 ^ 64" by (simp add: unat_gt_0)
  then have "prints_piece n t (if v = 0 then dec 0 else if False then CHR ''-'' # dec (unat v) else dec (unat v)) rest (p_args s)
    (if full s then Inr (Over s) else if v = 0 then bindR (put1 CHR ''0'' s) resume
     else if False then bindR (put1 CHR ''-'' s) (\<lambda>s. bindR (Inr 0) (\<lambda>u. bindR (fast_digits u s) f))
     else bindR (fast_digits (unat v) s) f)"
    by (intro decimal_piece [OF s(1-3) f]) (use zero_piece [OF s(1,2) False] zero False in auto)
  then show ?thesis using s(4) by (auto split: if_splits)
qed

lemma resume_skip_piece:
  assumes "idle s" "printed n (t @ u) s" "drop k (p_format s) = rest" "rest \<noteq> []" "p_args s = as"
  shows "prints_piece n t u rest as (resume (skip_format k s))"
  using assms by (intro resume_piece) (simp_all add: skip_format_def)

lemma fast_decimal_piece:
  assumes s: "idle s" "printed n t s" "0 < n" "p_format s = rest" "rest \<noteq> []" "p_args s = VInt v # as"
  shows "sint v \<noteq> - (2 ^ 31) \<Longrightarrow> prints_piece n t (int_text (sint v)) rest as (fast_d s)"
    "prints_piece n t (dec (unat v)) rest as (fast_u s)"
proof -
  let ?s = "s\<lparr>p_args := as\<rparr>"
  have p: "idle ?s" "printed n t ?s" "0 < n" "p_args ?s = as" using s by simp_all
  have f: "prints_piece n t u rest (p_args ?s) (resume s')"
    if "idle s'" "printed n (t @ u) s'" "p_format s' = p_format ?s" "p_args s' = p_args ?s" for s' u
    using that s by (intro resume_piece) simp_all
  show "prints_piece n t (int_text (sint v)) rest as (fast_d s)" if "sint v \<noteq> - (2 ^ 31)"
    using signed_piece [OF p f, where v = v and mag = "negate32 v"] s magnitude32(1) [OF _ that] by (simp add: fast_d_def)
  show "prints_piece n t (dec (unat v)) rest as (fast_u s)"
    using unsigned_piece [OF p f, where v = v] s by (simp add: fast_u_def)
qed

lemma fast_long_piece:
  assumes s: "idle s" "printed n t s" "0 < n" "p_format s = c # rest" "rest \<noteq> []" "p_args s = VLong v # as" "v \<noteq> 0"
  shows "sint v \<noteq> - (2 ^ 31) \<Longrightarrow> prints_piece n t (int_text (sint v)) rest as (fast_ld s)"
    "prints_piece n t (dec (unat v)) rest as (fast_lu s)"
proof -
  let ?s = "s\<lparr>p_args := as\<rparr>"
  have p: "idle ?s" "printed n t ?s" "0 < n" "p_args ?s = as" using s by simp_all
  have f: "prints_piece n t u rest (p_args ?s) (resume (skip_format 1 s'))"
    if "idle s'" "printed n (t @ u) s'" "p_format s' = p_format ?s" "p_args s' = p_args ?s" for s' u
    using that s by (intro resume_skip_piece) simp_all
  show "prints_piece n t (int_text (sint v)) rest as (fast_ld s)" if "sint v \<noteq> - (2 ^ 31)"
    using signed_piece [OF p f, where v = v and mag = "negate32 v"] s magnitude32(1) [OF _ that] by (simp add: fast_ld_def)
  show "prints_piece n t (dec (unat v)) rest as (fast_lu s)"
    using unsigned_piece [OF p f, where v = v] s by (simp add: fast_lu_def)
qed

lemma fast_llong_piece:
  assumes s: "idle s" "printed n t s" "0 < n" "p_format s = c # d # rest" "rest \<noteq> []"
    "p_args s = VLLong v # as" "v \<noteq> 0"
  shows "sint v \<noteq> - (2 ^ 63) \<Longrightarrow> prints_piece n t (int_text (sint v)) rest as (fast_lld s)"
    "prints_piece n t (dec (unat v)) rest as (fast_llu s)"
proof -
  let ?s = "s\<lparr>p_args := as\<rparr>"
  have p: "idle ?s" "printed n t ?s" "0 < n" "p_args ?s = as" using s by simp_all
  have f: "prints_piece n t u rest (p_args ?s) (resume (skip_format 2 s'))"
    if "idle s'" "printed n (t @ u) s'" "p_format s' = p_format ?s" "p_args s' = p_args ?s" for s' u
    using that s by (intro resume_skip_piece) simp_all
  show "prints_piece n t (int_text (sint v)) rest as (fast_lld s)" if "sint v \<noteq> - (2 ^ 63)"
    using signed_piece [OF p f, where v = v and mag = "negate64 v"] s that by (simp add: fast_lld_def negate64_def)
  show "prints_piece n t (dec (unat v)) rest as (fast_llu s)"
    using unsigned_piece [OF p f, where v = v] s by (simp add: fast_llu_def)
qed

lemma fast_text_piece:
  assumes s: "idle s" "printed n t s" "0 < n" "p_format s = rest" "rest \<noteq> []"
  shows "p_args s = VInt (of_char c) # as \<Longrightarrow> prints_piece n t [c] rest as (fast_c s)"
    "cvalid v \<Longrightarrow> p_args s = VStr (Some (cstr v)) # as \<Longrightarrow> prints_piece n t v rest as (fast_s s)"
proof -
  assume a: "p_args s = VInt (of_char c) # as"
  let ?s = "s\<lparr>p_args := as\<rparr>"
  have p: "printed n t ?s" using s by simp
  have "unat (of_nat (of_char c) :: 32 word) = take_bit 32 (of_char c)"
    by (subst unsigned_of_nat) simp
  then have "unat (of_char c :: 32 word) = take_bit 32 (of_char c)"
    unfolding of_nat_of_char .
  also have "\<dots> = (of_char c :: nat)"
    by (intro take_bit_nat_eq_self order.strict_trans2 [OF nat_of_char_less_256]) simp
  finally have ch: "char_of (unat (of_char c :: 32 word)) = c" by simp
  show "prints_piece n t [c] rest as (fast_c s)"
  proof (cases "full s")
    case True
    then have "printed n (t @ [c]) ?s"
      using s prints_full [of "p_buf ?s" t "[c]"] by (auto simp: printed_def full_def p_buf_def)
    then show ?thesis using True s a by (simp add: fast_c_def) (intro resume_piece; simp)
  next
    case False
    then have "put1 c ?s = Inr (with_buf (putc c (p_buf ?s)) ?s)" "printed n (t @ [c]) (with_buf (putc c (p_buf ?s)) ?s)"
      using put1_printed [OF p] by simp_all
    then show ?thesis
      using False s a ch by (simp add: fast_c_def del: printed_buf) (intro resume_piece; simp del: printed_buf)
  qed
next
  assume v: "cvalid v" and a: "p_args s = VStr (Some (cstr v)) # as"
  let ?s = "s\<lparr>p_args := as\<rparr>"
  obtain b where b: "fast_s_loop (cstr v) (p_buf ?s) = Inr b" "prints b (t @ v)" "snd b \<le> length (t @ v)"
    "length (fst b) = length (fst (p_buf ?s))"
    using fast_s_loop_prints [OF v, of "p_buf ?s" t] s by (auto simp: printed_def p_buf_def)
  then have "printed n (t @ v) (with_buf b ?s)"
    using s by (cases b) (simp add: printed_def p_buf_def with_buf_def)
  then show "prints_piece n t v rest as (fast_s s)"
    using b(1) s a by (simp add: fast_s_def del: printed_buf) (intro resume_piece; simp del: printed_buf)
qed

section \<open>The run over the pieces\<close>

lemma run_percent:
  assumes "p_state s = PRINT_S_DEFAULT" "p_ch s = CHR ''%''" "p_format s = c # f" "c \<noteq> NUL"
  shows "run F s = bindR (step_flags (s\<lparr>p_state := PRINT_S_FLAGS, p_ch := c, p_format := f\<rparr>))
    (\<lambda>r. case r of Next s \<Rightarrow> run F s | Over s \<Rightarrow> Inr s)"
proof -
  have "step F s = Inr (Next (s\<lparr>p_state := PRINT_S_FLAGS, p_ch := c, p_format := f\<rparr>))"
    using assms by (simp add: step_def step_default_def fetch_def)
  then show ?thesis using assms by (simp add: run_Next) (simp add: run_step step_def)
qed

definition run_ok_piece ::
  "'f fops \<Rightarrow> nat \<Rightarrow> string \<Rightarrow> string \<Rightarrow> char list \<Rightarrow> 'f vararg list \<Rightarrow> 'f printer \<Rightarrow> bool" where
  "run_ok_piece F n t u rest as s \<longleftrightarrow>
     (\<exists>m. prints_piece n t u rest as m \<and>
        run F s = bindR m (\<lambda>r. case r of Next s \<Rightarrow> run F s | Over s \<Rightarrow> Inr s))"

lemma run_lit:
  assumes "idle s" "p_state s = PRINT_S_DEFAULT" "printed n t s" "p_ch s \<noteq> NUL" "p_ch s \<noteq> CHR ''%''"
    "p_format s = rest" "rest \<noteq> []" "p_args s = as"
  shows "run_ok_piece F n t [p_ch s] rest as s"
proof -
  obtain c f where rest: "rest = c # f" using assms(7) by (cases rest) auto
  have "step F s = Inr (Next ((with_buf (putc (p_ch s) (p_buf s)) s)\<lparr>p_ch := c, p_format := f\<rparr>))"
    using assms(2,5,6) rest by (simp add: step_def step_default_def fetch_def)
  moreover have "printed n (t @ [p_ch s]) (with_buf (putc (p_ch s) (p_buf s)) s)"
    using assms(3) prints_putc [of "p_buf s" t "p_ch s"] by (auto simp: printed_def p_buf_def)
  ultimately show ?thesis
    using assms rest unfolding run_ok_piece_def
    by (intro exI [of _ "step F s"]) (simp add: run_step prints_piece_def)
qed

lemma run_percent_percent:
  assumes "idle s" "p_state s = PRINT_S_DEFAULT" "printed n t s" "p_ch s = CHR ''%''"
    "p_format s = CHR ''%'' # rest" "rest \<noteq> []" "p_args s = as"
  shows "run_ok_piece F n t ''%'' rest as s"
proof -
  obtain c f where rest: "rest = c # f" using assms(6) by (cases rest) auto
  let ?s = "s\<lparr>p_ch := CHR ''%'', p_format := rest\<rparr>"
  have "run F s = run F (?s\<lparr>p_state := PRINT_S_WIDTH\<rparr>)"
    using run_percent [OF assms(2,4,5)]
    by (simp add: step_flags_def flag_of_def)
  also have "\<dots> = run F (?s\<lparr>p_state := PRINT_S_DOT\<rparr>)"
    by (subst run_Next [where s' = "?s\<lparr>p_state := PRINT_S_DOT\<rparr>"])
      (simp_all add: step_def step_width_def isdigit_def)
  also have "\<dots> = run F (?s\<lparr>p_state := PRINT_S_MOD\<rparr>)"
    by (subst run_Next [where s' = "?s\<lparr>p_state := PRINT_S_MOD\<rparr>"])
      (simp_all add: step_def step_dot_def)
  also have "\<dots> = run F (?s\<lparr>p_state := PRINT_S_CONV\<rparr>)"
    by (subst run_Next [where s' = "?s\<lparr>p_state := PRINT_S_CONV\<rparr>"])
      (simp_all add: step_def step_mod_def)
  finally have r: "run F s = run F (?s\<lparr>p_state := PRINT_S_CONV\<rparr>)" .
  let ?b = "putc CHR ''%'' (p_buf s)"
  have "step F (?s\<lparr>p_state := PRINT_S_CONV\<rparr>) = reset_conv (with_buf ?b (?s\<lparr>p_state := PRINT_S_CONV\<rparr>))"
    by (simp add: step_def step_conv_def p_buf_def Let_def)
  moreover have "printed n (t @ ''%'') (with_buf ?b s)"
    using assms(3) prints_putc [of "p_buf s" t] by (auto simp: printed_def p_buf_def)
  then have "prints_piece n t ''%'' rest as (reset_conv (with_buf ?b (?s\<lparr>p_state := PRINT_S_CONV\<rparr>)))"
    using assms(1,7) rest
    by (simp add: reset_conv_def fetch_def prints_piece_def idle_def printed_def p_buf_def with_buf_def)
  ultimately show ?thesis
    using r unfolding run_ok_piece_def by (simp add: run_step) blast
qed

lemma run_conversion:
  assumes "conversion_ok f" "idle s" "p_state s = PRINT_S_DEFAULT" "printed n t s"
    and "p_ch s # p_format s = field_format f @ rest" "rest \<noteq> []" "p_args s = field_vararg (f_arg f) # as"
  shows "run_ok_piece F n t (field_text f) rest as s"
proof -
  obtain y g where rest: "rest = y # g" using assms(6) by (cases rest) auto
  have "prints (emit (field_text f) (p_buf s)) (t @ field_text f)"
    using assms(4) by (intro prints_emit) (simp add: printed_def)
  moreover have "emit (field_text f) (p_buf s)
      = (fst (emit (field_text f) (p_buf s)), p_len s + length (field_text f))"
    using emit_length [of "field_text f" "p_buf s"] by (intro prod_eqI) (simp_all add: p_buf_def)
  ultimately have "prints (fst (emit (field_text f) (p_buf s)), p_len s + length (field_text f))
      (t @ field_text f)" by simp
  then have "prints_piece n t (field_text f) rest as (Inr (Next (after_conv (field_text f) as y g s)))"
    using assms(2,4) rest
    by (simp add: prints_piece_def after_conv_def idle_def printed_def) (simp add: with_buf_def p_buf_def)
  moreover have "run F s = run F (after_conv (field_text f) as y g s)"
    using assms rest by (intro run_field) (simp_all add: idle_def)
  ultimately show ?thesis unfolding run_ok_piece_def
    by (intro exI [of _ "Inr (Next (after_conv (field_text f) as y g s))"]) simp
qed

lemma run_piece:
  assumes ok: "piece_ok p" and s: "idle s" "p_state s = PRINT_S_DEFAULT" "printed n t s" "0 < n"
    and f: "p_ch s # p_format s = piece_format p @ rest" "rest \<noteq> []"
    and a: "p_args s = piece_args p @ as"
  shows "run_ok_piece F n t (piece_text p) rest as s"
proof -
  have conv: "run_ok_piece F n t u rest as s"
    if "p_ch s = CHR ''%''" "p_format s = c # g" "c \<noteq> NUL"
      "prints_piece n t u rest as (step_flags (s\<lparr>p_state := PRINT_S_FLAGS, p_ch := c, p_format := g\<rparr>))"
    for u c g
    using that run_percent [OF s(2) that(1-3)] unfolding run_ok_piece_def by blast
  let ?fl = "\<lambda>c g. s\<lparr>p_state := PRINT_S_FLAGS, p_ch := c, p_format := g\<rparr>"
  have st: "idle (?fl c g)" "printed n t (?fl c g)" "p_args (?fl c g) = p_args s" "p_format (?fl c g) = g" for c g
    using s by simp_all
  note steps = step_flags_def flag_of_def
  show ?thesis
  proof (cases p)
    case (Lit c)
    then show ?thesis using run_lit [of s n t rest as F] ok s f a by auto
  next
    case Percent
    then show ?thesis using run_percent_percent [of s n t rest as F] s f a by auto
  next
    case (Str v)
    then show ?thesis
      using f a ok fast_text_piece(2) [OF st(1,2) s(4) st(4) f(2), where v = v and as = as]
      by (intro conv [of "CHR ''s''" rest]) (simp_all add: steps)
  next
    case (Chr c)
    then show ?thesis
      using f a fast_text_piece(1) [OF st(1,2) s(4) st(4) f(2), where c = c and as = as]
      by (intro conv [of "CHR ''c''" rest]) (simp_all add: steps)
  next
    case (Dec v)
    then show ?thesis
      using f a ok fast_decimal_piece(1) [OF st(1,2) s(4) st(4) f(2), where v = v and as = as]
      by (intro conv [of "CHR ''d''" rest]) (simp_all add: steps)
  next
    case (UDec v)
    then show ?thesis
      using f a fast_decimal_piece(2) [OF st(1,2) s(4) st(4) f(2), where v = v and as = as]
      by (intro conv [of "CHR ''u''" rest]) (simp_all add: steps)
  next
    case (LDec v)
    then show ?thesis
      using f a ok fast_long_piece(1) [OF st(1,2) s(4) st(4) f(2), where v = v and as = as]
      by (intro conv [of "CHR ''l''" "CHR ''d'' # rest"]) (simp_all add: steps fast_l_def)
  next
    case (ULDec v)
    then show ?thesis
      using f a ok fast_long_piece(2) [OF st(1,2) s(4) st(4) f(2), where v = v and as = as]
      by (intro conv [of "CHR ''l''" "CHR ''u'' # rest"]) (simp_all add: steps fast_l_def)
  next
    case (LLDec v)
    then show ?thesis
      using f a ok fast_llong_piece(1) [OF st(1,2) s(4) st(4) f(2), where v = v and as = as]
      by (intro conv [of "CHR ''l''" "CHR ''l'' # CHR ''d'' # rest"]) (simp_all add: steps fast_l_def)
  next
    case (ULLDec v)
    then show ?thesis
      using f a ok fast_llong_piece(2) [OF st(1,2) s(4) st(4) f(2), where v = v and as = as]
      by (intro conv [of "CHR ''l''" "CHR ''l'' # CHR ''u'' # rest"]) (simp_all add: steps fast_l_def)
  next
    case (Conversion c)
    then show ?thesis using run_conversion [of c s n t rest as F] ok s f a by auto
  qed
qed

definition pieces_format :: "piece list \<Rightarrow> string" where
  "pieces_format ps = concat (map piece_format ps)"

definition pieces_args :: "piece list \<Rightarrow> 'f vararg list" where
  "pieces_args ps = concat (map piece_args ps)"

definition pieces_text :: "piece list \<Rightarrow> string" where
  "pieces_text ps = concat (map piece_text ps)"

lemma pieces_simps [simp]:
  "pieces_format [] = []" "pieces_format (p # ps) = piece_format p @ pieces_format ps"
  "pieces_args [] = []" "pieces_args (p # ps) = piece_args p @ pieces_args ps"
  "pieces_text [] = []" "pieces_text (p # ps) = piece_text p @ pieces_text ps"
  by (simp_all add: pieces_format_def pieces_args_def pieces_text_def)

lemma run_pieces:
  assumes "list_all piece_ok ps" "idle s" "p_state s = PRINT_S_DEFAULT" "printed n t s" "0 < n"
    "p_ch s # p_format s = pieces_format ps @ NUL # rest" "p_args s = pieces_args ps @ as"
  shows "\<exists>s'. run F s = Inr s' \<and> idle s' \<and> printed n (t @ pieces_text ps) s'"
  using assms
proof (induction ps arbitrary: s t)
  case Nil
  then show ?case by (subst run.simps) simp
next
  case (Cons p ps)
  let ?rest = "pieces_format ps @ NUL # rest" and ?as = "pieces_args ps @ as"
  have "run_ok_piece F n t (piece_text p) ?rest ?as s"
    using Cons.prems by (intro run_piece) simp_all
  then obtain m where m: "prints_piece n t (piece_text p) ?rest ?as m"
    "run F s = bindR m (\<lambda>r. case r of Next s \<Rightarrow> run F s | Over s \<Rightarrow> Inr s)"
    by (auto simp: run_ok_piece_def)
  then consider s' where "m = Inr (Next s')" | s' where "m = Inr (Over s')"
    unfolding prints_piece_def by (auto split: sum.split_asm ctl.split_asm)
  then show ?case
  proof cases
    case 1
    then show ?thesis
      using m Cons.IH [of s' "t @ piece_text p"] Cons.prems by (auto simp: prints_piece_def)
  next
    case 2
    then have "idle s'" "printed n t s'" "n \<le> p_len s' + 1" using m by (auto simp: prints_piece_def)
    moreover from this have "printed n (t @ pieces_text (p # ps)) s'"
      using prints_full [of "p_buf s'" t] by (auto simp: printed_def p_buf_def)
    ultimately show ?thesis using 2 m by auto
  qed
qed

text \<open>The contents of the buffer and the return value.\<close>

definition shows_text :: "string \<Rightarrow> char list \<Rightarrow> int \<Rightarrow> char list \<Rightarrow> bool" where
  "shows_text t str r out \<longleftrightarrow>
     length out = length str \<and>
     take (length str - 1) t @ [NUL] = take (Suc (min (length t) (length str - 1))) out \<and>
     (if length t < length str - 1 then r = int (length t)
      else int (length str) - 1 \<le> r \<and> r \<le> int (length t))"

lemma finish_printed:
  assumes s: "idle s" "printed (length str) t s" and n: "str \<noteq> []" "int (length t) < INT_MAX"
  shows "\<exists>r s'. finish s = Inr (r, s') \<and> shows_text t str r (p_out s')"
proof -
  let ?n = "length str" and ?k = "min (p_len s) (length str - 1)"
  have len: "length (p_out s) = ?n" "0 < ?n" using s n by (auto simp: printed_def)
  have p: "prints (p_out s, p_len s) t" "p_len s \<le> length t" using s by (simp_all add: printed_def p_buf_def)
  have k: "?k = min (length t) (?n - 1)" "take ?k (p_out s) = take (?n - 1) t"
    using p len by (auto simp: prints_def Let_def split: if_splits)
  have "shaped ?n s" using s n by (simp add: shaped_def printed_def)
  then have fin: "finish s = Inr (int (p_len s), s\<lparr>p_out := (p_out s)[?k := NUL]\<rparr>)"
    using finish_ok [of ?n s] s(1) p(2) n(2) by (simp add: idle_def)
  have "?k < length (p_out s)" using len by linarith
  then have tk: "take (Suc ?k) ((p_out s)[?k := NUL]) = take ?k (p_out s) @ [NUL]"
    by (simp add: take_Suc_conv_app_nth del: min_less_iff_conj)
  have "p_len s = length t \<or> ?n - 1 \<le> p_len s"
    "length t < ?n - 1 \<longrightarrow> p_len s = length t"
    using p(1) len by (auto simp: prints_def Let_def split: if_splits)
  then have "shows_text t str (int (p_len s)) ((p_out s)[?k := NUL])"
    using k len p(2) tk unfolding shows_text_def k(1) by auto
  with fin show ?thesis by auto
qed

lemma o_snprintf_pieces:
  assumes "list_all piece_ok ps" "str \<noteq> []" "length scratch = 32" "int (length (pieces_text ps)) < INT_MAX"
  shows "\<exists>r s. o_snprintf F (Some str) scratch (cstr (pieces_format ps) @ rest) (pieces_args ps @ as) = Inr (r, s)
    \<and> shows_text (pieces_text ps) str r (p_out s)"
proof -
  let ?f = "cstr (pieces_format ps) @ rest"
  let ?s = "init_printer str scratch ?f (pieces_args ps @ as)"
  obtain c f where cf: "?f = c # f" by (cases ?f) (auto simp: cstr_def)
  let ?s1 = "?s\<lparr>p_ch := c, p_format := f\<rparr>"
  have fetch: "fetch ?s = Inr ?s1" using cf by (simp add: fetch_def init_printer_def)
  have 1: "idle ?s1" "p_state ?s1 = PRINT_S_DEFAULT" "printed (length str) [] ?s1"
    using assms(3) by (simp_all add: idle_def printed_def init_printer_def p_buf_def)
  have 2: "p_ch ?s1 # p_format ?s1 = pieces_format ps @ NUL # rest" "p_args ?s1 = pieces_args ps @ as"
    using cf by (simp_all add: cstr_def init_printer_def)
  obtain s' where s': "run F ?s1 = Inr s'" "idle s'" "printed (length str) (pieces_text ps) s'"
    using run_pieces [OF assms(1) 1 _ 2, of F] assms(2) by auto
  have "p_out ?s1 \<noteq> []" using assms(2) by (simp add: init_printer_def)
  then have "o_snprintf F (Some str) scratch ?f (pieces_args ps @ as) = finish s'"
    using fetch s'(1) by (simp add: o_snprintf_def o_vsnprintf_def)
  then show ?thesis using finish_printed [OF s'(2,3) assms(2,4)] by simp
qed

end
