(* ===== verification/Snprintf_Properties.thy ===== *)
theory Snprintf_Properties
  imports Snprintf_Pieces
begin

text \<open>
  The properties of the string formatting of \<open>src/src/base/mysnprintf.c\<close> and of the copy of
  \<open>src/src/base/fast_memcpy.h\<close>, and the inputs they are applied to.
\<close>

unbundle bit_operations_syntax

section \<open>Exact arithmetic for the evaluation of the floating point conversions\<close>

definition exact_fops :: "rat fops" where
  "exact_fops =
     \<lparr>f_of_uint = (\<lambda>w. of_nat (unat w)), f_half = 1 / 2, f_to_uint = (\<lambda>x. of_int \<lfloor>x\<rfloor>),
      f_lt = (<), f_ge = (\<ge>), f_eq = (=), f_add = (+), f_sub = (-), f_mul = (*), f_div = (/),
      f_neg = uminus\<rparr>"

lemma exact_fops_simps [simp]:
  "f_of_uint exact_fops w = of_nat (unat w)" "f_half exact_fops = 1 / 2"
  "f_to_uint exact_fops x = of_int \<lfloor>x\<rfloor>" "f_lt exact_fops = (<)" "f_ge exact_fops = (\<ge>)"
  "f_eq exact_fops = (=)" "f_add exact_fops = (+)" "f_sub exact_fops = (-)" "f_mul exact_fops = (*)"
  "f_div exact_fops = (/)" "f_neg exact_fops = uminus"
  by (simp_all add: exact_fops_def)

lemma exact_pow10: "0 \<le> e \<Longrightarrow> mypow10 exact_fops e = 10 ^ nat e"
proof -
  have "((\<lambda>r. r * 10) ^^ n) (1::rat) = 10 ^ n" for n by (induction n) simp_all
  then show "0 \<le> e \<Longrightarrow> mypow10 exact_fops e = 10 ^ nat e" by (auto simp: mypow10_def)
qed

lemma flag_has [simp]:
  "has f 0 = False" "has 0 f = False"
  by (simp_all add: has_def)

lemma flag_type_e [simp]:
  "has PRINT_F_TYPE_E PRINT_F_TYPE_E" "\<not> has PRINT_F_TYPE_E PRINT_F_TYPE_G"
  "\<not> has PRINT_F_TYPE_E PRINT_F_MINUS" "\<not> has PRINT_F_TYPE_E PRINT_F_PLUS"
  "\<not> has PRINT_F_TYPE_E PRINT_F_SPACE" "\<not> has PRINT_F_TYPE_E PRINT_F_UP"
  "\<not> has PRINT_F_TYPE_E PRINT_F_NUM" "\<not> has PRINT_F_TYPE_E PRINT_F_QUOTE"
  "\<not> has PRINT_F_TYPE_E PRINT_F_ZERO"
  by (simp_all add: has_def print_flag_defs)

lemma getexponent_99999e95: "getexponent exact_fops (99999 * 10 ^ 95) = 99"
  by (simp add: getexponent_def getexponent_down.simps getexponent_up.simps)

lemma parts_99999e95: "fmtflt_parts exact_fops (99999 * 10 ^ 95) 3 99 True = Some (3, 1, 0, 100)"
proof -
  have "\<lfloor>(99999 :: rat) / 10000\<rfloor> = 9" "\<lfloor>(9999 :: rat) / 10\<rfloor> = 999"
    by (simp_all add: floor_eq_iff)
  then show ?thesis
    by (simp add: fmtflt_parts_def castf_def UINTMAX_MAX_def myround_def exact_pow10 Let_def)
qed

lemma convert_100_2: "convert 100 (replicate 2 NUL) 10 False = Inr (''00'', 2)"
  by (simp add: convert_def convert_loop.simps numeral_2_eq_2)

lemma convert_1: "convert 1 (replicate MAX_CONVERT_LENGTH NUL) 10 False = Inr (''1'' @ replicate 42 NUL, 1)"
  using convert_numeral [of 10 False 1 "replicate MAX_CONVERT_LENGTH NUL"]
  by (simp add: numeral_text_small digit_table_def MAX_CONVERT_LENGTH_def)

lemma fmtflt_99999e95:
  "fmtflt exact_fops b (99999 * 10 ^ 95) 0 3 PRINT_F_TYPE_E = Inr (emit ''1.000e+00'' b, False)"
proof -
  have again: "fmtflt_again exact_fops (99999 * 10 ^ 95) 3 99 True PRINT_F_TYPE_E = Some (3, 1, 0, 100, True)"
    using parts_99999e95 by (simp add: fmtflt_again_def)
  have expo: "fmtflt_exponent 100 PRINT_F_TYPE_E = Inr (''00+e'', 4)"
    using convert_100_2 by (simp add: fmtflt_exponent_def Let_def numeral_2_eq_2)
  have four: "fmtint_digits ''00+e'' 4 False b' = Inr (emit ''e+00'' b')" for b'
  proof -
    have n: "(4::nat) = Suc (Suc (Suc (Suc 0)))" by simp
    show ?thesis by (subst n) simp
  qed
  have three: "emit (replicate 3 CHR ''0'') b' = emit ''000'' b'" for b' by (simp add: numeral_eq_Suc)
  have print: "fmtflt_print b None 0 PRINT_F_TYPE_E (''1'' @ replicate 42 NUL, 1) ([], 0) (''00+e'', 4) (3, 0, 3)
      = Inr (emit ''1.000e+00'' b)"
    by (simp add: fmtflt_print_def fmtflt_lead_def int32_def INT_MAX_def Let_def four three)
  have none: "fmtflt_infnan exact_fops (99999 * 10 ^ 95) PRINT_F_TYPE_E = None"
    "fmtflt_sign exact_fops (99999 * 10 ^ 95) PRINT_F_TYPE_E = None"
    by (simp_all add: fmtflt_infnan_def fmtflt_sign_def ISNAN_def ISINF_def)
  have frac: "fmtflt_fraction [] 0 3 False = (3, 0, 3)" by (simp add: fmtflt_fraction_def)
  show ?thesis
    unfolding fmtflt_def none using again expo print convert_1 getexponent_99999e95 frac
    by (simp add: Let_def)
qed

section \<open>Evaluation of short formats\<close>

lemma bytes8: "replicate 8 c = [c, c, c, c, c, c, c, c]" for c :: char
  by (simp add: numeral_eq_Suc)

lemmas run_eval = o_snprintf_def o_vsnprintf_def init_printer_def fetch_def cstr_def run.simps step_def
  step_default_def step_flags_def flag_of_def step_width_def step_dot_def step_mod_def step_conv_def
  isdigit_def resume_def reset_conv_def put1_def full_def p_buf_def with_buf_def va_defs finish_def
  INT_MAX_def set_flag_def mod_double_def

text \<open>C5. For a format made of literal characters, \<open>%%\<close>, the fast conversions, and conversions of
  integers and strings with flags, width, precision, modifier and base, \<open>o_snprintf\<close>
  leaves in the buffer the text of the pieces, cut off to what fits before the terminator, and
  writes the terminator behind it. The result is the length of the text if the text is shorter than
  the room by at least one character, else a number that is at least the room: a result that is
  less than \<open>size - 1\<close> guarantees that nothing was cut off.\<close>

theorem o_snprintf_text:
  assumes "list_all piece_ok ps" "str \<noteq> []" "length scratch = 32" "int (length (pieces_text ps)) < INT_MAX"
  shows "\<exists>r s. o_snprintf F (Some str) scratch (cstr (pieces_format ps) @ rest) (pieces_args ps @ as) = Inr (r, s)
    \<and> shows_text (pieces_text ps) str r (p_out s)"
  by (rule o_snprintf_pieces [OF assms])

lemma length_scratch_buffer [simp]: "length scratch_buffer = 32"
  by (simp add: scratch_buffer_def)

text \<open>A width with zeros in front, and a precision of a string.\<close>

definition zeros_field :: field where
  "zeros_field =
     \<lparr>f_flags = ''0'', f_width = Some 4, f_prec = None, f_mod = PRINT_C_NONE, f_conv = CHR ''d'', f_arg = A_Int 42\<rparr>"

definition short_field :: field where
  "short_field =
     \<lparr>f_flags = ''-'', f_width = Some 3, f_prec = Some 2, f_mod = PRINT_C_NONE, f_conv = CHR ''s'', f_arg = A_Str ''uvw''\<rparr>"

lemma sample_fields_ok: "conversion_ok zeros_field" "conversion_ok short_field"
  by (simp_all add: zeros_field_def short_field_def conversion_ok_def field_int_def fmtint_sign_def cvalid_def)

lemma sample_fields_eval:
  "field_text zeros_field = ''0042''" "field_text short_field = ''uv ''"
  "field_format zeros_field = ''%04d''" "field_format short_field = ''%-3.2s''"
  "f_arg zeros_field = A_Int 42" "f_arg short_field = A_Str ''uvw''"
  by code_simp+

lemma o_snprintf_text_witness:
  "\<exists>r s. o_snprintf exact_fops (Some (replicate 16 NUL)) scratch_buffer (cstr ''a=%s,%%%04d%-3.2s'')
     [VStr (Some (cstr ''xyz'')), VInt 42, VStr (Some (cstr ''uvw''))]
     = Inr (r, s) \<and> shows_text ''a=xyz,%0042uv '' (replicate 16 NUL) r (p_out s)"
  using o_snprintf_text [where ps = "[Lit CHR ''a'', Lit CHR ''='', Str ''xyz'', Lit CHR '','', Percent,
        Conversion zeros_field, Conversion short_field]"
      and str = "replicate 16 NUL" and scratch = scratch_buffer and F = exact_fops and rest = "[]" and as = "[]"]
  by (simp add: INT_MAX_def sample_fields_ok sample_fields_eval)

text \<open>C19. Whatever the format and the arguments, \<open>o_vsnprintf\<close> never stores outside the output
  buffer and the scratch buffer: every fault it can have is a missing or mistyped argument, a null
  string, an overflow of an \<open>int\<close> or a load outside an object. If it returns, the buffer has its
  size and holds a terminator, and the result is \<open>-1\<close> or a length below \<open>INT_MAX\<close>.\<close>

theorem o_vsnprintf_stores_in_bounds:
  assumes "length scratch = 32"
  shows "case o_vsnprintf F (Some str) scratch format args of
      Inl e \<Rightarrow> e \<in> {Bad_Vararg, Null_Dereference, Signed_Overflow, Read_Out_Of_Bounds}
    | Inr (r, s) \<Rightarrow> length (p_out s) = length str \<and> (str \<noteq> [] \<longrightarrow> NUL \<in> set (p_out s)) \<and>
        - 1 \<le> r \<and> r < INT_MAX"
  using o_vsnprintf_ok [OF assms, where R = True and F = F and str = str and format = format and args = args]
  by (auto simp: holds_def may_fault_def split: sum.splits)

lemma o_vsnprintf_stores_in_bounds_witness:
  "case o_vsnprintf exact_fops (Some (replicate 4 NUL)) scratch_buffer (cstr ''%d%N'') [VInt 5, VInt 4000] of
      Inl e \<Rightarrow> e \<in> {Bad_Vararg, Null_Dereference, Signed_Overflow, Read_Out_Of_Bounds}
    | Inr (r, s) \<Rightarrow> length (p_out s) = 4 \<and> NUL \<in> set (p_out s) \<and> - 1 \<le> r \<and> r < INT_MAX"
  using o_vsnprintf_stores_in_bounds [OF length_scratch_buffer, where F = exact_fops and str = "replicate 4 NUL"
      and format = "cstr ''%d%N''" and args = "[VInt 5, VInt 4000]"]
  by (auto split: sum.splits)



text \<open>C21. \<open>fast_memcpy\<close>, for regions that do not overlap and whatever the alignment of the two
  pointers: it makes no misaligned vector access, returns the destination, and afterwards the
  destination holds the \<open>sz\<close> bytes of the source and every other byte of memory is unchanged.\<close>

theorem fast_memcpy_copies:
  assumes "disjoint_regions d s sz"
  shows "\<exists>m'. fast_memcpy m d s sz = Inr (m', d) \<and>
    (\<forall>a. m' a = (if d \<le> a \<and> a < d + sz then m (s + (a - d)) else m a))"
  using fast_memcpy_moved [OF assms, of m] by (intro exI [of _ "moved m d s sz"]) (simp add: moved_def)

lemma fast_memcpy_copies_witness:
  "\<exists>m'. fast_memcpy (\<lambda>a. a mod 7) 1000 3 300 = Inr (m', 1000) \<and>
    (\<forall>a. m' a = (if 1000 \<le> a \<and> a < 1300 then (3 + (a - 1000)) mod 7 else a mod 7))"
  using fast_memcpy_copies [of 1000 3 300 "\<lambda>a. a mod 7"] by (simp add: disjoint_regions_def)

text \<open>C22. The fast decimal conversion agrees with the reference conversion: for every positive
  64-bit value the digits that the table driven loops leave at the end of the scratch buffer are
  the digits that \<open>convert\<close> computes in base 10, in the right order.\<close>

theorem fast_digits_convert:
  assumes "length scratch = 32" "0 < v" "v < 2 ^ 64"
  shows "\<exists>scratch' i j iconvert pos.
    atoi_digits v scratch 31 = Inr (scratch', j) \<and> atoi_skip scratch' j = Inr (int i) \<and> i < 32 \<and>
    convert v (replicate MAX_CONVERT_LENGTH NUL) 10 False = Inr (iconvert, pos) \<and>
    drop i scratch' = rev (take pos iconvert)"
proof -
  obtain scratch' j i where loops: "atoi_digits v scratch 31 = Inr (scratch', j)"
    "atoi_skip scratch' j = Inr (int i)" "i + length (dec v) = 32" "drop i scratch' = dec v"
    using atoi_loops_dec [OF assms] by blast
  have "length (numeral_text 10 (digit_table False) v) \<le> 22" using assms(3) by (intro length_numeral_text_64) simp
  then have "convert v (replicate MAX_CONVERT_LENGTH NUL) 10 False =
      Inr (rev (dec v) @ drop (length (dec v)) (replicate MAX_CONVERT_LENGTH NUL), length (dec v))"
    using convert_numeral [of 10 False v "replicate MAX_CONVERT_LENGTH NUL"]
    by (simp add: dec_def MAX_CONVERT_LENGTH_def)
  moreover have "dec v \<noteq> []" by (simp add: dec_def)
  then have "i < 32" using loops(3) by (cases "dec v") auto
  ultimately show ?thesis using loops by auto
qed

lemma fast_digits_convert_witness:
  "\<exists>scratch' i j iconvert pos.
    atoi_digits 4294967295 scratch_buffer 31 = Inr (scratch', j) \<and> atoi_skip scratch' j = Inr (int i) \<and> i < 32 \<and>
    convert 4294967295 (replicate MAX_CONVERT_LENGTH NUL) 10 False = Inr (iconvert, pos) \<and>
    drop i scratch' = rev (take pos iconvert)"
  using fast_digits_convert [OF length_scratch_buffer, of 4294967295] by simp

definition digits_value :: "nat \<Rightarrow> string \<Rightarrow> string \<Rightarrow> nat" where
  "digits_value base digits t = foldl (\<lambda>v c. v * base + length (takeWhile (\<lambda>d. d \<noteq> c) digits)) 0 t"

lemma digit_table_index:
  assumes "d < 16"
  shows "length (takeWhile (\<lambda>x. x \<noteq> digit_table caps ! d) (digit_table caps)) = d"
proof -
  have "distinct (digit_table caps)" by (simp add: digit_table_def)
  then have "takeWhile (\<lambda>x. x \<noteq> digit_table caps ! d) (digit_table caps) = take d (digit_table caps)"
    using assms by (intro takeWhile_eq_take_P_nth) (auto simp: nth_eq_iff_index_eq)
  then show ?thesis using assms by simp
qed

lemma digits_value_numeral:
  assumes "2 \<le> base" "base \<le> 16"
  shows "digits_value base (digit_table caps) (numeral_text base (digit_table caps) v) = v"
proof (induction v rule: less_induct)
  case (less v)
  show ?case
  proof (cases "v < base")
    case True
    then have "v < 16" using assms by simp
    then show ?thesis using True by (simp add: numeral_text_small digits_value_def digit_table_index)
  next
    case False
    have "v mod base < 16" using assms mod_less_divisor [of base v] by linarith
    then show ?thesis
      using less.IH [of "v div base"] False assms
      by (simp add: numeral_text_step digits_value_def digit_table_index)
  qed
qed

text \<open>\<open>convert\<close> is inverted by reading the digits: for every base from 8 to 16 and every 64-bit
  value, the digits in the 43 byte buffer, most significant first, evaluate to the value again, and
  there are at most 22 of them.\<close>

theorem convert_digits_value:
  assumes "8 \<le> base" "base \<le> 16"
  shows "\<exists>iconvert pos. convert (unat w) (replicate MAX_CONVERT_LENGTH NUL) base caps = Inr (iconvert, pos) \<and>
    pos \<le> 22 \<and> digits_value base (digit_table caps) (rev (take pos iconvert)) = unat (w :: 64 word)"
proof -
  let ?t = "numeral_text base (digit_table caps) (unat w)"
  have L: "length ?t \<le> 22" using assms(1) unat_less_64 by (rule length_numeral_text_64)
  then have "convert (unat w) (replicate MAX_CONVERT_LENGTH NUL) base caps =
      Inr (rev ?t @ drop (length ?t) (replicate MAX_CONVERT_LENGTH NUL), length ?t)"
    using assms by (intro convert_numeral) (simp_all add: MAX_CONVERT_LENGTH_def)
  then show ?thesis using L assms by (simp add: digits_value_numeral)
qed

lemma convert_digits_value_witness:
  "\<exists>iconvert pos. convert 255 (replicate MAX_CONVERT_LENGTH NUL) 16 True = Inr (iconvert, pos) \<and>
    pos \<le> 22 \<and> digits_value 16 (digit_table True) (rev (take pos iconvert)) = 255"
  using convert_digits_value [of 16 255 True] by simp

text \<open>C23. \<open>fmtint\<close> prints one field: with \<open>uvalue\<close> and \<open>sign\<close> the magnitude and the sign character, the
  blanks, the sign, the prefix \<open>0x\<close>, the zeros and the digits with their separators are those of
  \<open>fmtint_text\<close>; nothing else is printed. The only condition is that the padding fits in an
  \<open>int\<close>.\<close>

theorem fmtint_field:
  assumes "fmtint_sign value flags = Inr (uvalue, sign)" "8 \<le> base" "base \<le> 16"
    and "int32 (fmtint_spad uvalue sign base width precision flags
       (numeral_text base (digit_table (has flags PRINT_F_UP)) uvalue)) = Inr spad"
  shows "fmtint b value base width precision flags =
    Inr (emit (fmtint_text uvalue sign base width precision flags) b)"
  by (rule fmtint_emit [OF assms])

lemma fmtint_field_witness:
  "fmtint (replicate 8 NUL, 0) 42 10 5 (- 1) 0 = Inr (emit ''   42'' (replicate 8 NUL, 0))"
proof -
  have t: "numeral_text 10 (digit_table False) 42 = ''42''"
    by (simp add: numeral_text.simps digit_table_def)
  have sg: "fmtint_sign 42 0 = Inr (42, None)" by (simp add: fmtint_sign_def)
  have sp: "int32 (fmtint_spad 42 None 10 5 (- 1) 0 (numeral_text 10 (digit_table (has 0 PRINT_F_UP)) 42)) = Inr 3"
    by (simp add: t fmtint_parts int32_def INT_MAX_def)
  have blanks: "replicate 3 c = [c, c, c]" for c :: char by (simp add: numeral_eq_Suc)
  have tx: "fmtint_text 42 None 10 5 (- 1) 0 = ''   42''"
    by (simp add: fmtint_text_def fmtint_parts t pad_def Let_def blanks)
  show ?thesis using fmtint_field [OF sg _ _ sp, of "(replicate 8 NUL, 0)"] by (simp add: tx)
qed

text \<open>The field that \<open>fmtint\<close> prints is never shorter than the width, unless digits are grouped
  together with a precision; and it is exactly as long as the width when its content is shorter.\<close>

lemma fmtint_text_length:
  fixes t :: string
  assumes "0 \<le> width" "\<not> has flags PRINT_F_QUOTE \<or> fmtint_prec uvalue base precision flags t \<le> int (length t)"
    "t = numeral_text base (digit_table (has flags PRINT_F_UP)) uvalue"
  shows "int (length (fmtint_text uvalue sign base width precision flags)) =
    max width (int (fmtint_sep flags t) + max (fmtint_prec uvalue base precision flags t) (int (length t))
      + (if sign \<noteq> None then 1 else 0) + int (length (fmtint_prefix uvalue base flags)))"
proof -
  let ?sep = "fmtint_sep flags t" and ?prec = "fmtint_prec uvalue base precision flags t"
  let ?z = "max 0 (?prec - int (length t) - int ?sep)" and ?pre = "length (fmtint_prefix uvalue base flags)"
  let ?sp = "max 0 (fmtint_spad uvalue sign base width precision flags t)"
  have t: "t \<noteq> []" unfolding assms(3) by simp
  have digs: "length (if 0 < ?sep then group3 t else t) = length t + ?sep"
    using length_group3 [OF t] by (auto simp: fmtint_sep_def)
  have z: "?z + int (length t) + int ?sep = int ?sep + max ?prec (int (length t))"
    using assms(2) by (auto simp: fmtint_sep_def)
  have sg: "length (case sign of None \<Rightarrow> [] | Some c \<Rightarrow> [c]) = (if sign \<noteq> None then 1 else 0)"
    by (cases sign) auto
  have "int (length (fmtint_text uvalue sign base width precision flags)) =
      ?sp + (if sign \<noteq> None then 1 else 0) + int ?pre + ?z + int (length t) + int ?sep"
    unfolding fmtint_text_def Let_def assms(3) [symmetric] pad_def
    using digs sg by (auto simp del: max_less_iff_conj)
  also have "\<dots> = ?sp + (if sign \<noteq> None then 1 else 0) + int ?pre + (int ?sep + max ?prec (int (length t)))"
    using z by linarith
  finally show ?thesis
    unfolding fmtint_spad_def by (auto simp: max_def)
qed

lemma numeral_42: "numeral_text 10 (digit_table caps) 42 = ''42''"
  by (simp add: numeral_text_step numeral_text_small digit_table_def)

lemma fmtint_text_length_witness:
  "int (length (fmtint_text 42 (Some CHR ''-'') 10 7 4 0)) = 7"
proof -
  have p: "fmtint_prec 42 10 4 0 ''42'' = 4" "fmtint_sep 0 ''42'' = 0" "fmtint_prefix 42 10 0 = []"
    by (simp_all add: fmtint_parts)
  have "int (length (fmtint_text 42 (Some CHR ''-'') 10 7 4 0)) =
      max 7 (int (fmtint_sep 0 ''42'') + max (fmtint_prec 42 10 4 0 ''42'') (int (length ''42''))
        + (if Some CHR ''-'' \<noteq> None then 1 else 0) + int (length (fmtint_prefix 42 10 0)))"
    by (rule fmtint_text_length) (simp_all add: numeral_42)
  then show ?thesis unfolding p by simp
qed

text \<open>\<open>fmtstr\<close> prints a terminated string up to the precision, padded with blanks to the width on
  the side the flag \<open>-\<close> says: the field has the greater of the width and the length of the text.\<close>

theorem fmtstr_field:
  fixes precision :: int
  assumes "cvalid s"
  defines "t \<equiv> if precision = -1 then s else take (nat precision) s"
  shows "fmtstr b (Some (cstr s @ rest)) width precision flags = Inr (emit (fmtstr_text t width flags) b) \<and>
    int (length (fmtstr_text t width flags)) = max width (int (length t)) \<and>
    (if has flags PRINT_F_MINUS then take (length t) (fmtstr_text t width flags) = t
     else drop (length (fmtstr_text t width flags) - length t) (fmtstr_text t width flags) = t)"
  unfolding t_def using fmtstr_emit [OF assms(1), of b rest width precision flags]
  by (simp add: fmtstr_text_def pad_def max_def)

lemma fmtstr_field_witness:
  "fmtstr (replicate 8 NUL, 0) (Some (cstr ''abc'' @ ''x'')) 4 2 0 = Inr (emit ''  ab'' (replicate 8 NUL, 0))"
proof -
  have "fmtstr_text ''ab'' 4 0 = ''  ab''" by (simp add: fmtstr_text_def pad_def numeral_2_eq_2)
  then show ?thesis
    using fmtstr_field [of "''abc''" "(replicate 8 NUL, 0)" "''x''" 4 2 0] by (simp add: numeral_2_eq_2)
qed


text \<open>C25. The loop of \<open>o_vsnprintf\<close> terminates: every step, in every state and for every character,
  decreases the measure \<open>work\<close>, which counts the characters that are left and the states before the
  next conversion.\<close>

theorem step_decreases_work:
  assumes "step F s = Inr (Next s')"
  shows "work s' < work s"
  by (rule step_work [OF assms])

lemma step_decreases_work_witness:
  "\<exists>s'. step exact_fops (init_printer (replicate 4 NUL) scratch_buffer ''ab'' []) = Inr (Next s') \<and>
    work s' < work (init_printer (replicate 4 NUL) scratch_buffer ''ab'' [] :: rat printer)"
proof -
  let ?s = "init_printer (replicate 4 NUL) scratch_buffer ''ab'' [] :: rat printer"
  obtain s' where "step exact_fops ?s = Inr (Next s')"
    by (simp add: step_def step_default_def init_printer_def fetch_def with_buf_def)
  then show ?thesis using step_decreases_work by blast
qed

text \<open>A deviation of the fast path: \<open>%ld\<close> of the value zero prints the letter of the conversion
  behind the digit, because only the branch for other values advances the format.\<close>

theorem snprintf_ld_zero:
  "\<exists>s. o_snprintf F (Some (replicate 8 NUL)) scratch_buffer (cstr ''%ld'') [VLong 0] = Inr (2, s) \<and>
    take 3 (p_out s) = ''0d'' @ [NUL]"
  by (simp add: run_eval fast_l_def fast_ld_def numeral_eq_Suc del: length_scratch_buffer)

lemma numeral_5: "numeral_text 10 (digit_table caps) 5 = ''5''"
  by (cases caps) (simp_all add: numeral_text_small digit_table_def)

text \<open>The fast path ignores the flags it has read and does not reset them: in \<open>%-d%3u\<close> the flag of
  the first conversion pads the second one on the wrong side.\<close>

theorem snprintf_flag_leak:
  "\<exists>s. o_snprintf F (Some (replicate 8 NUL)) scratch_buffer (cstr ''%-d%3u'') [VInt 0, VInt 5] = Inr (4, s) \<and>
    take 5 (p_out s) = ''05  '' @ [NUL]"
proof -
  let ?fl = "PRINT_F_MINUS OR PRINT_F_UNSIGNED"
  have fl: "has ?fl PRINT_F_UNSIGNED" "\<not> has ?fl PRINT_F_UP" "\<not> has ?fl PRINT_F_QUOTE" "\<not> has ?fl PRINT_F_NUM"
    "has ?fl PRINT_F_MINUS" "\<not> has ?fl PRINT_F_ZERO"
    by (simp_all add: has_def print_flag_defs)
  have "fmtint b 5 10 3 (- 1) ?fl = Inr (emit (fmtint_text 5 None 10 3 (- 1) ?fl) b)" for b
    by (rule fmtint_emit [where spad = 2])
      (simp_all add: fmtint_sign_def fl numeral_5 fmtint_parts int32_def INT_MAX_def)
  moreover have "fmtint_text 5 None 10 3 (- 1) ?fl = ''5  ''"
    by (simp add: fmtint_text_def fmtint_parts fl numeral_5 pad_def Let_def numeral_2_eq_2)
  ultimately have f: "fmtint b 5 10 3 (- 1) ?fl = Inr (emit ''5  '' b)" for b by simp
  have z: "0 OR PRINT_F_MINUS = PRINT_F_MINUS" by simp
  show ?thesis
    by (simp add: run_eval fast_d_def bytes8, simp add: z f run_eval CHARTOINT_def conv_unsigned_def unsigned_arg_def)
qed

lemma numeral_uint_max: "numeral_text 10 (digit_table caps) 4294967295 = ''4294967295''"
  by (simp add: numeral_text_step numeral_text_small digit_table_def)

text \<open>The conversion of \<open>%zd\<close> extends its argument with zeros, since \<open>SSIZE_T\<close> is the unsigned
  \<open>size_t\<close>: the value -1 is printed as 4294967295.\<close>

theorem snprintf_zd_negative:
  "\<exists>s. o_snprintf F (Some (replicate 16 NUL)) scratch_buffer (cstr ''%zd'') [VInt (- 1)] = Inr (10, s) \<and>
    take 11 (p_out s) = ''4294967295'' @ [NUL]"
proof -
  have "fmtint b 4294967295 10 0 (- 1) 0 = Inr (emit (fmtint_text 4294967295 None 10 0 (- 1) 0) b)" for b
    by (rule fmtint_emit [where spad = "- 10"])
      (simp_all add: fmtint_sign_def numeral_uint_max fmtint_parts int32_def INT_MAX_def)
  moreover have "fmtint_text 4294967295 None 10 0 (- 1) 0 = ''4294967295''"
    by (simp add: fmtint_text_def fmtint_parts numeral_uint_max pad_def Let_def)
  ultimately have f: "fmtint b 4294967295 10 0 (- 1) 0 = Inr (emit ''4294967295'' b)" for b by simp
  have rep: "replicate 16 c = [c, c, c, c, c, c, c, c, c, c, c, c, c, c, c, c]" for c :: char
    by (simp add: numeral_eq_Suc)
  have w: "ucast (- 1 :: 32 word) = (4294967295 :: 64 word)" by code_simp
  show ?thesis
    by (simp add: run_eval rep, simp add: f w run_eval conv_signed_def signed_arg_def)
qed

text \<open>An exponent of 100 is printed as 00: the value is rounded up to the next power of ten after
  the exponent was limited to 99, and the buffer of two digits cuts off the third. The function
  does not report an overflow.\<close>

theorem snprintf_exponent_100:
  "\<exists>s. o_snprintf exact_fops (Some (replicate 16 NUL)) scratch_buffer (cstr ''%.3e'') [VDouble (99999 * 10 ^ 95)]
      = Inr (9, s) \<and> take 10 (p_out s) = ''1.000e+00'' @ [NUL]"
proof -
  have rep: "replicate 16 c = [c, c, c, c, c, c, c, c, c, c, c, c, c, c, c, c]" for c :: char
    by (simp add: numeral_eq_Suc)
  have z: "0 OR PRINT_F_TYPE_E = PRINT_F_TYPE_E" by simp
  show ?thesis
    using fmtflt_99999e95
    by (simp add: run_eval rep, simp add: run_eval CHARTOINT_def step_precision_def conv_float_reset_def
        conv_float_def float_flags_def z)
qed

lemma numeral_1234: "numeral_text 10 (digit_table caps) 1234 = ''1234''"
  by (simp add: numeral_text_step numeral_text_small digit_table_def)

text \<open>Digits that are grouped and have a precision make the field too short: the separators are
  subtracted from the zeros and from the blanks.\<close>

theorem fmtint_quote_precision_short:
  "fmtint b 1234 10 8 6 PRINT_F_QUOTE = Inr (emit '' 01,234'' b) \<and> int (length '' 01,234'') < 8"
proof -
  have fl: "\<not> has PRINT_F_QUOTE PRINT_F_UNSIGNED" "\<not> has PRINT_F_QUOTE PRINT_F_UP" "has PRINT_F_QUOTE PRINT_F_QUOTE"
    "\<not> has PRINT_F_QUOTE PRINT_F_NUM" "\<not> has PRINT_F_QUOTE PRINT_F_MINUS" "\<not> has PRINT_F_QUOTE PRINT_F_ZERO"
    "\<not> has PRINT_F_QUOTE PRINT_F_PLUS" "\<not> has PRINT_F_QUOTE PRINT_F_SPACE"
    by (simp_all add: has_def print_flag_defs)
  have "fmtint b 1234 10 8 6 PRINT_F_QUOTE = Inr (emit (fmtint_text 1234 None 10 8 6 PRINT_F_QUOTE) b)"
    by (rule fmtint_emit [where spad = 1])
      (simp_all add: fmtint_sign_def fl numeral_1234 fmtint_parts getnumsep_def int32_def INT_MAX_def)
  moreover have "fmtint_text 1234 None 10 8 6 PRINT_F_QUOTE = '' 01,234''"
    by (simp add: fmtint_text_def fmtint_parts fl numeral_1234 getnumsep_def pad_def Let_def)
  ultimately show ?thesis by simp
qed

end
