(* ===== verification/Url_Code.thy ===== *)
theory Url_Code
  imports Prelude
begin

text \<open>
  The URL encoding of \<open>src/src/base/URLCode.cpp\<close> and \<open>src/src/base/URLCode.h\<close>: \<open>Encode\<close> and
  \<open>Decode\<close> with the conversion of hexadecimal digits. \<open>Encode\<close> reads a C string; \<open>Decode\<close> reads
  a \<open>std::string\<close> through \<open>at\<close>, which throws behind the end.
\<close>

section \<open>Hexadecimal digits\<close>

definition toHex :: "nat \<Rightarrow> char" where
  "toHex x = char_of (if x > 9 then x + 55 else x + 48)"

text \<open>Every letter is taken, also those behind \<open>F\<close>; anything else fails the assertion.\<close>

definition fromHex :: "char \<Rightarrow> nat res" where
  "fromHex c =
     (let x = of_char c
      in if isupper c then Inr (x - 65 + 10)
         else if islower c then Inr (x - 97 + 10)
         else if isdigit c then Inr (x - 48)
         else Inl Assertion_Failed)"

section \<open>Encode\<close>

definition url_plain :: "char \<Rightarrow> bool" where
  "url_plain c \<longleftrightarrow> isalnum c \<or> c \<in> set ''-_.!~*'' \<or> c = CHR 0x27 \<or> c \<in> set ''()''"

definition encode_char :: "char \<Rightarrow> string" where
  "encode_char c =
     (if url_plain c then [c]
      else if isspace c then ''+''
      else [CHR 0x25, toHex (of_char c div 16), toHex (of_char c mod 16)])"

fun Encode :: "char list \<Rightarrow> string res" where
  "Encode [] = Inl Read_Out_Of_Bounds"
| "Encode (c # data) =
     (if c = NUL then Inr []
      else bindR (Encode data) (\<lambda>r. Inr (encode_char c @ r)))"

section \<open>Decode\<close>

text \<open>
  The loop over the index \<open>i\<close>; the branch of \<open>%\<close> moves the index twice, and the loop once more.
\<close>

definition at :: "'a list \<Rightarrow> nat \<Rightarrow> 'a res" where
  "at s i = (if i < length s then Inr (s ! i) else Inl Out_Of_Range)"

function Decode_from :: "string \<Rightarrow> nat \<Rightarrow> string \<Rightarrow> string res" where
  "Decode_from s i r =
     (if i < length s then
        bindR (at s i) (\<lambda>c.
        if c = CHR 0x25 then
          bindR (at s (i + 1)) (\<lambda>h. bindR (fromHex h) (\<lambda>hi.
          bindR (at s (i + 2)) (\<lambda>l. bindR (fromHex l) (\<lambda>lo.
          Decode_from s (i + 3) (r @ [char_of ((hi * 16) mod 256 + lo)])))))
        else if c = CHR ''+'' then Decode_from s (i + 1) (r @ '' '')
        else Decode_from s (i + 1) (r @ [c]))
      else Inr r)"
  by pat_completeness auto
termination by (relation "measure (\<lambda>(s, i, _). length s - i)") auto

declare Decode_from.simps [simp del]

definition Decode :: "string \<Rightarrow> string res" where
  "Decode inTmp = Decode_from inTmp 0 []"

section \<open>Lemmas\<close>

lemma Encode_text: "cvalid s \<Longrightarrow> Encode (cstr s @ rest) = Inr (concat (map encode_char s))"
  by (induction s) (simp_all add: cstr_def)

lemma hex_digit: "x < 16 \<Longrightarrow> fromHex (toHex x) = Inr x"
  by (auto simp: toHex_def fromHex_def Let_def isupper_def islower_def isdigit_def)

text \<open>What one character becomes when it is encoded and decoded again.\<close>

definition respaced :: "char \<Rightarrow> char" where
  "respaced c = (if isspace c then CHR '' '' else c)"

lemma at_append [simp]: "at (p @ s) (length p) = at s 0" "at (p @ s) (Suc (length p)) = at s 1"
  "at (p @ s) (Suc (Suc (length p))) = at s 2"
  by (auto simp: at_def nth_append)

lemma at_Cons [simp]: "at (c # s) 0 = Inr c" "at (c # s) (Suc i) = at s i"
  by (simp_all add: at_def)

lemma percent_not_plain: "\<not> url_plain CHR 0x25" "\<not> url_plain CHR ''+''"
  by (simp_all add: url_plain_def isalnum_def isupper_def islower_def isdigit_def)

lemma plain_not_space: "url_plain c \<Longrightarrow> \<not> isspace c"
  by (auto simp: url_plain_def isspace_def isalnum_def isupper_def islower_def isdigit_def)

lemma Decode_from_percent:
  assumes "fromHex h = Inr hi" "fromHex l = Inr lo" "t = p @ CHR 0x25 # h # l # s"
  shows "Decode_from t (length p) r = Decode_from t (length p + 3) (r @ [char_of ((hi * 16) mod 256 + lo)])"
proof -
  have "at t (length p) = Inr CHR 0x25" "at t (length p + 1) = Inr h" "at t (length p + 2) = Inr l"
    using assms(3) by (simp_all add: at_def nth_append)
  then show ?thesis using assms by (subst Decode_from.simps) simp
qed

lemma Decode_from_char:
  "Decode_from (p @ encode_char c @ s) (length p) r =
    Decode_from (p @ encode_char c @ s) (length (p @ encode_char c)) (r @ [respaced c])"
proof -
  have c: "char_of (of_char c div 16 * 16 + of_char c mod (16 :: nat)) = c" by simp
  have lt: "(of_char c :: nat) div 16 < 16" "(of_char c :: nat) div 16 * 16 mod 256 = of_char c div 16 * 16"
    using nat_of_char_less_256 [of c] by (auto simp: less_mult_imp_div_less)
  consider "url_plain c" | "\<not> url_plain c" "isspace c" | "\<not> url_plain c" "\<not> isspace c" by blast
  then show ?thesis
  proof cases
    case 1
    then have "c \<noteq> CHR 0x25" "c \<noteq> CHR ''+''" using percent_not_plain by auto
    then show ?thesis
      using 1 plain_not_space by (subst Decode_from.simps) (simp add: encode_char_def respaced_def)
  next
    case 2
    then show ?thesis by (subst Decode_from.simps) (simp add: encode_char_def respaced_def)
  next
    case 3
    let ?h = "toHex (of_char c div 16)" and ?l = "toHex (of_char c mod 16)"
    have "fromHex ?h = Inr (of_char c div 16)" "fromHex ?l = Inr (of_char c mod 16)"
      using lt by (auto intro: hex_digit)
    note step = Decode_from_percent [OF this refl, of p s r]
    show ?thesis using 3 step lt(2) c by (simp add: encode_char_def respaced_def numeral_3_eq_3)
  qed
qed

lemma Decode_from_encoded:
  "Decode_from (p @ concat (map encode_char s)) (length p) r = Inr (r @ map respaced s)"
proof (induction s arbitrary: p r)
  case Nil
  then show ?case by (subst Decode_from.simps) simp
next
  case (Cons c s)
  then show ?case using Cons [of "p @ encode_char c" "r @ [respaced c]"] by (simp add: Decode_from_char)
qed

lemma Decode_encoded: "Decode (concat (map encode_char s)) = Inr (map respaced s)"
  using Decode_from_encoded [of "[]" s "[]"] by (simp add: Decode_def)

text \<open>The characters of an encoded string.\<close>

definition url_safe :: "char \<Rightarrow> bool" where
  "url_safe c \<longleftrightarrow> url_plain c \<or> c = CHR ''+'' \<or> c = CHR 0x25"

lemma toHex_safe: "x < 16 \<Longrightarrow> url_plain (toHex x)"
  by (auto simp: toHex_def url_plain_def isalnum_def isupper_def islower_def isdigit_def)

lemma encode_char_safe: "list_all url_safe (encode_char c)"
  using nat_of_char_less_256 [of c]
  by (auto simp: encode_char_def url_safe_def less_mult_imp_div_less intro!: toHex_safe)

lemma encode_char_length: "length (encode_char c) \<le> 3"
  by (simp add: encode_char_def)

lemma encoded_safe: "list_all url_safe (concat (map encode_char s))"
  by (induction s) (simp_all add: encode_char_safe)

lemma encoded_length: "length (concat (map encode_char s)) \<le> 3 * length s"
  by (induction s) (use encode_char_length in \<open>auto intro: add_mono\<close>)

end
