(* ===== verification/Utilities.thy ===== *)
theory Utilities
  imports Prelude
begin

text \<open>
  The helpers of \<open>src/src/base/utilities.c\<close> and \<open>src/src/base/utilities.h\<close>: the comparison of
  strings without regard to case, the reads of 16 and 32 bit numbers in either byte order, the
  conversion of an 80 bit floating point number to an integer, the split of a sleeping time, and
  the length check of \<open>util_load_windows_system_library\<close>.

  The header is compiled as C++14, where the shift of a 16 bit value into the sign bit of an
  \<open>int\<close> yields the pattern of the unsigned value; the reads are therefore word arithmetic.
\<close>

unbundle bit_operations_syntax

section \<open>Comparison without case\<close>

fun util_strcmp_case :: "char list \<Rightarrow> char list \<Rightarrow> int res" where
  "util_strcmp_case a b =
     bindR (rd a 0) (\<lambda>ca.
     bindR (if ca \<noteq> NUL then rd b 0 else Inr NUL) (\<lambda>cb.
     if ca \<noteq> NUL \<and> cb \<noteq> NUL then
       bindR (ctypeR tolower ca) (\<lambda>c.
       bindR (ctypeR tolower cb) (\<lambda>d.
       if c \<noteq> d then Inr (schar c - schar d)
       else case (a, b) of
              (_ # a', _ # b') \<Rightarrow> util_strcmp_case a' b'
            | _ \<Rightarrow> Inl Read_Out_Of_Bounds))
     else
       bindR (ctypeR tolower ca) (\<lambda>c.
       bindR (rd b 0) (\<lambda>cb.
       bindR (ctypeR tolower cb) (\<lambda>d.
       Inr (schar c - schar d))))))"

declare util_strcmp_case.simps [simp del]

section \<open>Reads in either byte order\<close>

text \<open>A load of the 8 bit value at index \<open>i\<close> of the bytes \<open>b\<close>.\<close>

definition read16_le :: "8 word list \<Rightarrow> 16 word res" where
  "read16_le b =
     bindR (rd b 0) (\<lambda>b0. bindR (rd b 1) (\<lambda>b1.
     Inr (ucast b0 + push_bit 8 (ucast b1))))"

definition read16_be :: "8 word list \<Rightarrow> 16 word res" where
  "read16_be b =
     bindR (rd b 0) (\<lambda>b0. bindR (rd b 1) (\<lambda>b1.
     Inr (push_bit 8 (ucast b0) + ucast b1)))"

definition read32_le :: "8 word list \<Rightarrow> 32 word res" where
  "read32_le b =
     bindR (read16_le b) (\<lambda>lo. bindR (read16_le (drop 2 b)) (\<lambda>hi.
     Inr (ucast lo + push_bit 16 (ucast hi))))"

definition read32_be :: "8 word list \<Rightarrow> 32 word res" where
  "read32_be b =
     bindR (read16_be b) (\<lambda>hi. bindR (read16_be (drop 2 b)) (\<lambda>lo.
     Inr (push_bit 16 (ucast hi) + ucast lo)))"

text \<open>The loop \<open>while (exp--)\<close> of \<open>readLD_be\<close>, with the bit shifted out last.\<close>

function readLD_loop :: "8 word \<Rightarrow> 32 word \<Rightarrow> 32 word \<Rightarrow> 32 word \<times> 32 word" where
  "readLD_loop e out mantissa =
     (if e = 0 then (out, mantissa)
      else readLD_loop (e - 1) mantissa (drop_bit 1 mantissa))"
  by pat_completeness auto
termination
  by (relation "measure (\<lambda>(e, _). unat e)") (auto simp: unat_minus_one unat_gt_0)

declare readLD_loop.simps [simp del]

definition readLD_be :: "8 word list \<Rightarrow> 32 word res" where
  "readLD_be b =
     bindR (read32_be (drop 2 b)) (\<lambda>mantissa.
     bindR (rd b 1) (\<lambda>b1.
     let (out, mantissa) = readLD_loop (30 - b1) 0 mantissa
     in Inr (if out AND 1 \<noteq> 0 then mantissa + 1 else mantissa)))"

section \<open>Sleeping and loading\<close>

text \<open>The arguments of \<open>sleep\<close> and \<open>usleep\<close> on systems other than Windows.\<close>

definition util_sleep_split :: "32 word \<Rightarrow> 32 word \<times> 32 word" where
  "util_sleep_split milliseconds = (milliseconds div 1000, (milliseconds mod 1000) * 1000)"

definition MAX_PATH :: nat where
  "MAX_PATH = 260"

text \<open>
  \<open>GetSystemDirectory\<close> is a parameter: the path it stores and the length it returns, which is
  0 when it fails and otherwise the number of characters without the terminator.
\<close>

definition util_load_windows_system_library ::
  "(nat \<Rightarrow> string \<times> nat) \<Rightarrow> string \<Rightarrow> string option res" where
  "util_load_windows_system_library GetSystemDirectory library_name =
     (let (path, n) = GetSystemDirectory MAX_PATH
      in if n = 0 \<or> n + length library_name + 2 \<ge> MAX_PATH then Inr None
         else let path = path @ [CHR 0x5C] @ library_name
              in bindR (assertR (length path < MAX_PATH) Write_Out_Of_Bounds) (\<lambda>_.
                 Inr (Some path)))"

section \<open>Lemmas\<close>

subsection \<open>The order of the comparison\<close>

fun case_diff :: "string \<Rightarrow> string \<Rightarrow> int" where
  "case_diff [] [] = 0"
| "case_diff [] (d # b) = - schar d"
| "case_diff (c # a) [] = schar c"
| "case_diff (c # a) (d # b) = (if c = d then case_diff a b else schar c - schar d)"

lemma ascii_tolower [simp]: "ascii c \<Longrightarrow> ascii (tolower c)"
  by (auto simp: ascii_def tolower_def isupper_def)

lemma tolower_NUL [simp]: "tolower NUL = NUL"
  by (simp add: tolower_def isupper_def)

lemma tolower_eq_NUL [simp]: "tolower c = NUL \<longleftrightarrow> c = NUL"
  by (auto simp: tolower_def isupper_def of_char_eq_0_iff [symmetric])

lemma schar_NUL [simp]: "schar NUL = 0" and ascii_NUL [simp]: "ascii NUL"
  by (simp_all add: schar_def ascii_def Let_def)

lemma util_strcmp_case_diff:
  assumes "cvalid a" "cvalid b" "list_all ascii a" "list_all ascii b"
  shows "util_strcmp_case (cstr a @ x) (cstr b @ y) = Inr (case_diff (map tolower a) (map tolower b))"
  using assms
proof (induction a b rule: list_induct2')
  case (4 c a d b)
  then show ?case by (subst util_strcmp_case.simps) (simp add: cstr_def)
qed (subst util_strcmp_case.simps, simp add: cstr_def)+

lemma case_diff_0_iff:
  "cvalid a \<Longrightarrow> cvalid b \<Longrightarrow> list_all ascii a \<Longrightarrow> list_all ascii b \<Longrightarrow> case_diff a b = 0 \<longleftrightarrow> a = b"
  by (induction a b rule: case_diff.induct) (auto simp: schar_ascii of_char_eq_0_iff)

text \<open>The sign is the order of the characters, position by position.\<close>

lemma case_diff_neg_iff:
  "cvalid a \<Longrightarrow> cvalid b \<Longrightarrow> list_all ascii a \<Longrightarrow> list_all ascii b \<Longrightarrow>
    case_diff a b < 0 \<longleftrightarrow> (a, b) \<in> lexord {(c, d). (of_char c :: nat) < of_char d}"
  by (induction a b rule: case_diff.induct)
    (auto simp: schar_ascii of_char_eq_0_iff zero_less_iff_neq_zero)

subsection \<open>The value of the reads\<close>

lemma unat_byte: "unat (b :: 8 word) < 256" and unat_half: "unat (h :: 16 word) < 65536"
  using unsigned_less [of b, where 'a = nat] unsigned_less [of h, where 'a = nat] by simp_all

lemma unat_ucast_byte [simp]: "unat (ucast (b :: 8 word) :: 16 word) = unat b"
  using unat_byte [of b] by (simp add: unsigned_ucast_eq take_bit_nat_eq_self_iff)

lemma unat_ucast_half [simp]: "unat (ucast (h :: 16 word) :: 32 word) = unat h"
  using unat_half [of h] by (simp add: unsigned_ucast_eq take_bit_nat_eq_self_iff)

lemma unat_add8: "unat (ucast (a :: 8 word) + push_bit 8 (ucast (b :: 8 word)) :: 16 word) = unat a + unat b * 256"
  using unat_byte [of a] unat_byte [of b] by (simp add: push_bit_eq_mult unat_word_ariths)

lemma unat_add16:
  "unat (ucast (a :: 16 word) + push_bit 16 (ucast (b :: 16 word)) :: 32 word) = unat a + unat b * 65536"
  using unat_half [of a] unat_half [of b] by (simp add: push_bit_eq_mult unat_word_ariths)

text \<open>The number that a list of bytes denotes, least significant byte first.\<close>

definition le_value :: "8 word list \<Rightarrow> nat" where
  "le_value b = foldr (\<lambda>x n. unat x + 256 * n) b 0"

lemma read16_le_value: "read16_le (b0 # b1 # r) = Inr w \<Longrightarrow> unat w = le_value [b0, b1]"
  by (auto simp: read16_le_def le_value_def unat_add8)

lemma read16_be_value: "read16_be (b0 # b1 # r) = Inr w \<Longrightarrow> unat w = le_value [b1, b0]"
  by (auto simp: read16_be_def le_value_def unat_add8 add.commute [of "push_bit 8 _"])

lemma read32_le_value: "read32_le (b0 # b1 # b2 # b3 # r) = Inr w \<Longrightarrow> unat w = le_value [b0, b1, b2, b3]"
  by (auto simp: read32_le_def read16_le_def le_value_def unat_add8 unat_add16)

lemma read32_be_value: "read32_be (b0 # b1 # b2 # b3 # r) = Inr w \<Longrightarrow> unat w = le_value [b3, b2, b1, b0]"
  by (auto simp: read32_be_def read16_be_def le_value_def unat_add8 unat_add16
      add.commute [of "push_bit 8 _"] add.commute [of "push_bit 16 _"])

subsection \<open>The rounding of the mantissa\<close>

lemma readLD_loop_value:
  "readLD_loop e out m =
    (if e = 0 then (out, m) else (drop_bit (unat e - 1) m, drop_bit (unat e) m))"
proof (induction e out m rule: readLD_loop.induct)
  case (1 e out m)
  show ?case
  proof (cases "e = 0")
    case False
    then have e: "unat e = Suc (unat (e - 1))" by (simp add: unat_minus_one unat_gt_0)
    have one: "e - 1 = 0 \<longleftrightarrow> e = 1" by simp
    then have "e \<noteq> 1 \<Longrightarrow> Suc (unat (e - 1) - 1) = unat (e - 1)" by (simp add: unat_gt_0)
    with one show ?thesis
      using 1 [OF False] False e
      by (subst readLD_loop.simps) (auto simp: drop_bit_drop_bit unat_eq_0 Suc_diff_Suc)
  qed (subst readLD_loop.simps, simp)
qed

text \<open>Shifting right by \<open>k\<close> and adding the bit shifted out last rounds half up.\<close>

lemma round_half_up:
  fixes m :: nat
  assumes "0 < k"
  shows "m div 2 ^ k + (m div 2 ^ (k - 1)) mod 2 = (m + 2 ^ (k - 1)) div 2 ^ k"
proof -
  obtain j where k: "k = Suc j" using assms by (cases k) auto
  let ?q = "m div 2 ^ j"
  have "(m + 2 ^ j) div 2 ^ j = ?q + 1" by (simp add: div_add_self2)
  moreover have half: "x div 2 ^ k = x div 2 ^ j div 2" for x :: nat
    by (simp add: k div_mult2_eq [symmetric] mult.commute)
  ultimately have "(m + 2 ^ j) div 2 ^ k = (?q + 1) div 2" by (simp only:)
  moreover have "x div 2 + x mod 2 = (x + 1) div 2" for x :: nat by presburger
  ultimately show ?thesis using half [of m] k by simp
qed

end
