(* ===== verification/Zdb_Session.thy ===== *)
theory Zdb_Session
  imports Snprintf_Pieces Url_Code Utilities
begin

text \<open>
  \<open>src/src/db/ZdbConnectionPoolSession.cpp\<close> and the driver and the statement of
  \<open>src/src/db/ZdbConnectionPoolSession.h\<close>: the URL of the database, the SQL texts built in
  buffers of 4096 bytes, the parameters bound by position and the execution.

  libzdb and the server are the parameter \<open>env\<close>: what the pool answers, how many parameters the
  server finds in a text, and the result of an execution. The SQL text is printed by the formatter
  of \<open>Snprintf_Format\<close>. An index of a parameter beyond the parameters of the statement writes
  through a null pointer in libzdb, as does every call with a statement that was not prepared.
\<close>

section \<open>The environment\<close>

text \<open>
  Who owns the bytes of a bound string. libzdb keeps the pointer and reads it when the statement
  is executed.
\<close>

datatype origin =
    Borrowed    \<comment> \<open>memory of the message\<close>
  | Temporary   \<comment> \<open>a \<open>std::string\<close> that is destroyed when the call returns\<close>

datatype 'f bound =
  Bind_Int "32 word" | Bind_LLong "64 word" | Bind_Double 'f | Bind_Timestamp "64 word"
| Bind_String origin string | Bind_Blob string

text \<open>A result set: the names and field types of its columns, and its rows.\<close>

record 'c result =
  rs_cols :: "(string \<times> nat) list"
  rs_rows :: "'c list list"

text \<open>
  Bodies of libzdb and of the server over the state \<open>'w\<close> of the world, and what the statement
  takes from outside: the arithmetic and the scratch buffer of the formatter, and the stale
  contents of the stack.
\<close>

record ('w, 'f, 'c) env =
  e_fops :: "'f fops"
  e_scratch :: "char list"
  e_raw :: "char list"
  e_url_new :: "string \<Rightarrow> bool"
  e_pool_start :: "string \<Rightarrow> int \<Rightarrow> 'w \<Rightarrow> bool \<times> 'w"
  e_get_connection :: "'w \<Rightarrow> bool \<times> 'w"
  e_close :: "'w \<Rightarrow> 'w"   \<comment> \<open>the connection goes back to the pool\<close>
  e_prepare :: "string \<Rightarrow> 'w \<Rightarrow> nat option \<times> 'w"
  e_execute :: "string \<Rightarrow> 'f bound option list \<Rightarrow> 'w \<Rightarrow> 'c result list option \<times> 'w"
  e_broken :: "'w \<Rightarrow> bool"   \<comment> \<open>fetching behind the last row fails\<close>

definition env_ok :: "('w, 'f, 'c) env \<Rightarrow> bool" where
  "env_ok e \<longleftrightarrow> length (e_scratch e) = 32 \<and> length (e_raw e) = 4096"

section \<open>ZdbDriver\<close>

record driver =
  d_log :: bool            \<comment> \<open>\<open>_refLog\<close> is not null\<close>
  d_url :: string
  d_user :: string
  d_pass :: string
  d_schema :: string
  d_poolsize :: int
  d_opened :: bool

text \<open>The arguments are C strings, given as the characters with the terminator.\<close>

definition ZdbDriver :: "bool \<Rightarrow> string \<Rightarrow> char list \<Rightarrow> char list \<Rightarrow> char list \<Rightarrow> int \<Rightarrow> driver res" where
  "ZdbDriver pLog sURL sUser sPass sSchema nPoolsize =
     bindR (Encode sUser) (\<lambda>user. bindR (Encode sPass) (\<lambda>pass. bindR (Encode sSchema) (\<lambda>schema.
     Inr \<lparr>d_log = pLog, d_url = sURL, d_user = user, d_pass = pass, d_schema = schema,
          d_poolsize = nPoolsize, d_opened = False\<rparr>)))"

definition url_text :: "driver \<Rightarrow> string" where
  "url_text d =
     ''mysql://'' @ d_url d @ ''/'' @ d_schema d @ ''?user='' @ d_user d @ ''&password='' @ d_pass d @
     ''&connect-timeout=5&charset=utf8''"

text \<open>\<open>sprintf\<close> into \<open>chURL[MAX_PATH]\<close> checks nothing: a longer text is stored behind the array.\<close>

definition ZdbDriver_Open ::
  "('w, 'f, 'c) env \<Rightarrow> driver \<Rightarrow> 'w \<Rightarrow> (bool \<times> driver \<times> 'w) res" where
  "ZdbDriver_Open e d w =
     (let chURL = url_text d
      in bindR (assertR (length chURL + 1 \<le> MAX_PATH) Write_Out_Of_Bounds) (\<lambda>_.
         if \<not> e_url_new e chURL then Inr (False, d, w)
         else case e_pool_start e chURL (d_poolsize d) w of
                (True, w) \<Rightarrow> Inr (True, d\<lparr>d_opened := True\<rparr>, w)
              | (False, w) \<Rightarrow> Inr (False, d, w)))"

definition ZdbDriver_Close :: "driver \<Rightarrow> driver" where
  "ZdbDriver_Close d = (if d_opened d then d\<lparr>d_opened := False\<rparr> else d)"

text \<open>\<open>BeginTrans\<close>, \<open>CommitTrans\<close> and \<open>RollbackTrans\<close> have the same body.\<close>

definition BeginTrans :: "driver \<Rightarrow> int" where
  "BeginTrans d = (if \<not> d_opened d then -1 else 0)"

definition CommitTrans :: "driver \<Rightarrow> int" where
  "CommitTrans d = (if \<not> d_opened d then -1 else 0)"

definition RollbackTrans :: "driver \<Rightarrow> int" where
  "RollbackTrans d = (if \<not> d_opened d then -1 else 0)"

section \<open>ZdbStatement\<close>

text \<open>
  \<open>z_stmt\<close> is null, or the text the server has prepared and the slots of its parameters.
\<close>

record 'f zstmt =
  z_sql :: "char list"
  z_stmt :: "(string \<times> 'f bound option list) option"
  z_index :: nat

definition ZdbStatement :: "('w, 'f, 'c) env \<Rightarrow> 'f zstmt" where
  "ZdbStatement e = \<lparr>z_sql = (e_raw e)[0 := NUL], z_stmt = None, z_index = 0\<rparr>"

text \<open>
  \<open>Open\<close> asks the pool until it gives a connection; None stands for a loop that does not end.
\<close>

partial_function (option) ZdbStatement_Open :: "('w, 'f, 'c) env \<Rightarrow> 'w \<Rightarrow> 'w option" where
  "ZdbStatement_Open e w =
     (let (con, w) = e_get_connection e w
      in if con then Some w else ZdbStatement_Open e w)"

definition ZdbStatement_Close :: "('w, 'f, 'c) env \<Rightarrow> 'w \<Rightarrow> 'w" where
  "ZdbStatement_Close e w = e_close e w"

declare ZdbStatement_Close_def [simp]

subsection \<open>Text in the buffers of the statement\<close>

definition CLAUSE_SIZE :: nat where
  "CLAUSE_SIZE = 4096"

text \<open>The characters \<open>u\<close> stored behind the characters \<open>t\<close> of a buffer of 4096 bytes.\<close>

definition put :: "string \<Rightarrow> string \<Rightarrow> string res" where
  "put u t = (if length t + length u \<le> CLAUSE_SIZE then Inr (t @ u) else Inl Write_Out_Of_Bounds)"

text \<open>The list of conditions \<open>`k`=?\<close>, joined by \<open>AND\<close>: the WHERE clause.\<close>

fun where_loop :: "nat \<Rightarrow> string list \<Rightarrow> string \<Rightarrow> string res" where
  "where_loop j [] t = Inr t"
| "where_loop j (sKey # vKey) t =
     bindR (if j > 0 then put '' AND '' t else Inr t) (\<lambda>t.
     bindR (put ''`'' t) (\<lambda>t. bindR (put sKey t) (\<lambda>t. bindR (put ''`'' t) (\<lambda>t.
     bindR (put ''='' t) (\<lambda>t. bindR (put ''?'' t) (\<lambda>t.
     where_loop (Suc j) vKey t))))))"

definition where_clause :: "string list \<Rightarrow> string res" where
  "where_clause vKey = bindR (where_loop 0 vKey []) (put [NUL])"

text \<open>The list of assignments \<open>`k`=?\<close>, joined by commas: the SET clause.\<close>

fun set_loop :: "nat \<Rightarrow> string list \<Rightarrow> string \<Rightarrow> string res" where
  "set_loop j [] t = Inr t"
| "set_loop j (sSet # vSet) t =
     bindR (if j > 0 then put '','' t else Inr t) (\<lambda>t.
     bindR (put ''`'' t) (\<lambda>t. bindR (put sSet t) (\<lambda>t. bindR (put ''`'' t) (\<lambda>t.
     bindR (put ''='' t) (\<lambda>t. bindR (put ''?'' t) (\<lambda>t.
     set_loop (Suc j) vSet t))))))"

definition set_clause :: "string list \<Rightarrow> string res" where
  "set_clause vSet = bindR (set_loop 0 vSet []) (put [NUL])"

text \<open>The quoted names of the columns of an INSERT, keys first.\<close>

fun field_loop :: "bool \<Rightarrow> string list \<Rightarrow> string \<Rightarrow> string res" where
  "field_loop comma [] t = Inr t"
| "field_loop comma (sField # v) t =
     bindR (if comma then put '','' t else Inr t) (\<lambda>t.
     bindR (put ''`'' t) (\<lambda>t. bindR (put sField t) (\<lambda>t. bindR (put ''`'' t) (\<lambda>t.
     field_loop True v t))))"

definition field_list :: "string list \<Rightarrow> string list \<Rightarrow> string res" where
  "field_list vKey vSet =
     bindR (field_loop False vKey []) (\<lambda>t.
     bindR (put [NUL] t) (\<lambda>_.
     bindR (field_loop (vKey \<noteq> []) vSet t) (put [NUL])))"

fun placeholder_loop :: "nat \<Rightarrow> nat \<Rightarrow> string \<Rightarrow> string res" where
  "placeholder_loop j 0 t = Inr t"
| "placeholder_loop j (Suc n) t =
     bindR (if j > 0 then put '','' t else Inr t) (\<lambda>t. bindR (put ''?'' t) (placeholder_loop (Suc j) n))"

definition placeholder_list :: "nat \<Rightarrow> string res" where
  "placeholder_list n = bindR (placeholder_loop 0 n []) (put [NUL])"

definition duplicate_one :: "string \<Rightarrow> string \<Rightarrow> string res" where
  "duplicate_one sSet t =
     bindR (put ''`'' t) (\<lambda>t. bindR (put sSet t) (\<lambda>t. bindR (put ''`'' t) (\<lambda>t.
     bindR (put ''='' t) (\<lambda>t. bindR (put '' VALUES('' t) (\<lambda>t.
     bindR (put ''`'' t) (\<lambda>t. bindR (put sSet t) (\<lambda>t. bindR (put ''`'' t) (put '')''))))))))"

fun duplicate_loop :: "nat \<Rightarrow> string list \<Rightarrow> string \<Rightarrow> string res" where
  "duplicate_loop j [] t = Inr t"
| "duplicate_loop j (sSet # vSet) t =
     bindR (if j > 0 then put '','' t else Inr t) (\<lambda>t.
     bindR (duplicate_one sSet t) (duplicate_loop (Suc j) vSet))"

definition duplicate_list :: "string list \<Rightarrow> string list \<Rightarrow> string res" where
  "duplicate_list vKey vSet =
     bindR (if vSet \<noteq> [] then duplicate_loop 0 vSet []
            else if vKey \<noteq> [] then duplicate_one (last vKey) []
            else Inr []) (put [NUL])"

subsection \<open>Preparing\<close>

text \<open>The characters before the terminator.\<close>

definition c_str :: "char list \<Rightarrow> string" where
  "c_str s = takeWhile (\<lambda>c. c \<noteq> NUL) s"

text \<open>
  \<open>o_snprintf\<close> into \<open>_sql\<close> with string arguments; the arguments are arrays with a terminator.
\<close>

definition sql_printf ::
  "('w, 'f, 'c) env \<Rightarrow> string \<Rightarrow> char list list \<Rightarrow> 'f zstmt \<Rightarrow> 'f zstmt res" where
  "sql_printf e format args s =
     bindR (o_snprintf (e_fops e) (Some (z_sql s)) (e_scratch e) (cstr format) (map (VStr \<circ> Some) args))
       (\<lambda>(r, p). Inr (s\<lparr>z_sql := p_out p\<rparr>))"

text \<open>
  \<open>Connection_prepareStatement\<close> takes its text as a format for \<open>vsnprintf\<close>, and there are no
  arguments: \<open>%%\<close> prints a percent sign, any other conversion reads an argument that is not there.
\<close>

fun zdb_format :: "string \<Rightarrow> string res" where
  "zdb_format [] = Inr []"
| "zdb_format (c # s) =
     (if c = CHR 0x25 then
        (case s of
           d # s' \<Rightarrow> if d = CHR 0x25 then bindR (zdb_format s') (\<lambda>r. Inr (c # r)) else Inl Bad_Vararg
         | [] \<Rightarrow> Inl Bad_Vararg)
      else bindR (zdb_format s) (\<lambda>r. Inr (c # r)))"

text \<open>
  The common end of the five \<open>Prepare\<close> functions. A text the server refuses is logged, without a
  test that there is a log.
\<close>

definition z_prepare ::
  "('w, 'f, 'c) env \<Rightarrow> driver \<Rightarrow> 'f zstmt \<Rightarrow> 'w \<Rightarrow> (bool \<times> 'f zstmt \<times> 'w) res" where
  "z_prepare e d s w =
     bindR (assertR (NUL \<in> set (z_sql s)) Read_Out_Of_Bounds) (\<lambda>_.
     bindR (zdb_format (c_str (z_sql s))) (\<lambda>sql.
     case e_prepare e sql w of
       (Some n, w) \<Rightarrow> Inr (True, s\<lparr>z_stmt := Some (sql, replicate n None)\<rparr>, w)
     | (None, w) \<Rightarrow> if d_log d then Inr (False, s, w) else Inl Null_Dereference))"

definition PrepareSelect ::
  "('w, 'f, 'c) env \<Rightarrow> driver \<Rightarrow> string \<Rightarrow> string list \<Rightarrow> 'f zstmt \<Rightarrow> 'w \<Rightarrow> (bool \<times> 'f zstmt \<times> 'w) res" where
  "PrepareSelect e d sTableName vKey s w =
     bindR (where_clause vKey) (\<lambda>chClause.
     bindR (if chClause ! 0 = NUL
            then sql_printf e ''SELECT * FROM `%s`'' [cstr sTableName] s
            else sql_printf e ''SELECT * FROM `%s` WHERE %s'' [cstr sTableName, chClause] s)
       (\<lambda>s. z_prepare e d s w))"

definition PrepareInsert ::
  "('w, 'f, 'c) env \<Rightarrow> driver \<Rightarrow> string \<Rightarrow> string list \<Rightarrow> string list \<Rightarrow> 'f zstmt \<Rightarrow> 'w \<Rightarrow>
    (bool \<times> 'f zstmt \<times> 'w) res" where
  "PrepareInsert e d sTableName vKey vSet s w =
     bindR (field_list vKey vSet) (\<lambda>chField.
     bindR (placeholder_list (length vKey + length vSet)) (\<lambda>chPlaceholder.
     bindR (duplicate_list vKey vSet) (\<lambda>chDuplicate.
     bindR (if chDuplicate ! 0 = NUL
            then sql_printf e ''INSERT INTO `%s` (%s) VALUES (%s)''
                   [cstr sTableName, chField, chPlaceholder] s
            else sql_printf e ''INSERT INTO `%s` (%s) VALUES (%s) ON DUPLICATE KEY UPDATE %s ''
                   [cstr sTableName, chField, chPlaceholder, chDuplicate] s)
       (\<lambda>s. z_prepare e d s w))))"

definition PrepareUpdate ::
  "('w, 'f, 'c) env \<Rightarrow> driver \<Rightarrow> string \<Rightarrow> string list \<Rightarrow> string list \<Rightarrow> 'f zstmt \<Rightarrow> 'w \<Rightarrow>
    (bool \<times> 'f zstmt \<times> 'w) res" where
  "PrepareUpdate e d sTableName vKey vSet s w =
     bindR (assertR (vSet \<noteq> []) Assertion_Failed) (\<lambda>_.
     bindR (set_clause vSet) (\<lambda>chField.
     bindR (where_clause vKey) (\<lambda>chClause.
     bindR (if chClause ! 0 = NUL
            then sql_printf e ''UPDATE `%s` SET %s'' [cstr sTableName, chField] s
            else sql_printf e ''UPDATE `%s` SET %s WHERE %s'' [cstr sTableName, chField, chClause] s)
       (\<lambda>s. z_prepare e d s w))))"

definition PrepareDelete ::
  "('w, 'f, 'c) env \<Rightarrow> driver \<Rightarrow> string \<Rightarrow> string list \<Rightarrow> 'f zstmt \<Rightarrow> 'w \<Rightarrow> (bool \<times> 'f zstmt \<times> 'w) res" where
  "PrepareDelete e d sTableName vKey s w =
     bindR (where_clause vKey) (\<lambda>chClause.
     bindR (if chClause ! 0 = NUL
            then sql_printf e ''DELETE FROM `%s`'' [cstr sTableName] s
            else sql_printf e ''DELETE FROM `%s` WHERE %s'' [cstr sTableName, chClause] s)
       (\<lambda>s. z_prepare e d s w))"

text \<open>
  The placeholders of a stored procedure are stored behind the printed text, directly in \<open>_sql\<close>.
\<close>

fun call_loop :: "nat \<Rightarrow> nat \<Rightarrow> nat \<Rightarrow> char list \<Rightarrow> (nat \<times> char list) res" where
  "call_loop j 0 p sql = Inr (p, sql)"
| "call_loop j (Suc n) p sql =
     bindR (if j > 0 then bindR (wr sql p CHR '','') (\<lambda>sql. Inr (Suc p, sql)) else Inr (p, sql))
       (\<lambda>(p, sql). bindR (wr sql p CHR ''?'') (\<lambda>sql. call_loop (Suc j) n (Suc p) sql))"

definition PrepareStoredProcCall ::
  "('w, 'f, 'c) env \<Rightarrow> driver \<Rightarrow> string \<Rightarrow> nat \<Rightarrow> 'f zstmt \<Rightarrow> 'w \<Rightarrow> (bool \<times> 'f zstmt \<times> 'w) res" where
  "PrepareStoredProcCall e d sStoredProcName nParamsCount s w =
     bindR (sql_printf e ''CALL %s ('' [cstr sStoredProcName] s) (\<lambda>s.
     bindR (call_loop 0 nParamsCount (length (c_str (z_sql s))) (z_sql s)) (\<lambda>(p, sql).
     bindR (wr sql p CHR '')'') (\<lambda>sql. bindR (wr sql (Suc p) NUL) (\<lambda>sql.
     z_prepare e d (s\<lparr>z_sql := sql\<rparr>) w))))"

text \<open>A return value is never bound.\<close>

definition AddReturnValue :: "'f zstmt \<Rightarrow> 'f zstmt" where
  "AddReturnValue s = s"

definition GetReturnValue :: int where
  "GetReturnValue = -1"

subsection \<open>Binding and executing\<close>

text \<open>\<open>PreparedStatement_set...(_stmt, ++_inParamIndex, x)\<close>; the index counts from 1 in libzdb.\<close>

definition z_bind :: "'f bound \<Rightarrow> 'f zstmt \<Rightarrow> 'f zstmt res" where
  "z_bind b s =
     (case z_stmt s of
        None \<Rightarrow> Inl Null_Dereference
      | Some (sql, ps) \<Rightarrow>
          if z_index s < length ps
          then Inr (s\<lparr>z_index := Suc (z_index s), z_stmt := Some (sql, ps[z_index s := Some b])\<rparr>)
          else Inl Null_Dereference)"

definition AddInputInt64Parameter :: "64 word \<Rightarrow> 'f zstmt \<Rightarrow> 'f zstmt res" where
  "AddInputInt64Parameter nValue = z_bind (Bind_LLong nValue)"

definition AddInputInt :: "32 word \<Rightarrow> 'f zstmt \<Rightarrow> 'f zstmt res" where
  "AddInputInt nValue = z_bind (Bind_Int nValue)"

definition AddInputString :: "origin \<Rightarrow> string \<Rightarrow> 'f zstmt \<Rightarrow> 'f zstmt res" where
  "AddInputString orig sStr = z_bind (Bind_String orig sStr)"

definition AddInputTime :: "64 word \<Rightarrow> 'f zstmt \<Rightarrow> 'f zstmt res" where
  "AddInputTime t = z_bind (Bind_Timestamp t)"

definition AddInputDouble :: "'f \<Rightarrow> 'f zstmt \<Rightarrow> 'f zstmt res" where
  "AddInputDouble dValue = z_bind (Bind_Double dValue)"

definition AddInputBlob :: "string \<Rightarrow> 'f zstmt \<Rightarrow> 'f zstmt res" where
  "AddInputBlob pBlob = z_bind (Bind_Blob pBlob)"

text \<open>The pointers of the bound strings are followed when the statement is executed.\<close>

fun dangling :: "'f bound option \<Rightarrow> bool" where
  "dangling (Some (Bind_String Temporary _)) = True"
| "dangling _ = False"

text \<open>
  \<open>Exec\<close>: with a result set the rows are fetched, and the result set is opened; without one the
  statement is only executed. An error of the server is logged, without a test of the log.
\<close>

definition Exec ::
  "('w, 'f, 'c) env \<Rightarrow> driver \<Rightarrow> 'f zstmt \<Rightarrow> 'w \<Rightarrow> ('c result list option \<times> 'w) res" where
  "Exec e d s w =
     (case z_stmt s of
        None \<Rightarrow> Inl Null_Dereference
      | Some (sql, ps) \<Rightarrow>
          if list_ex dangling ps then Inl Dangling_Pointer
          else case e_execute e sql ps w of
                 (Some rss, w) \<Rightarrow> Inr (Some rss, w)
               | (None, w) \<Rightarrow> if d_log d then Inr (None, w) else Inl Null_Dereference)"

section \<open>The SQL texts\<close>

text \<open>What the loops write, as texts.\<close>

definition quoted :: "string \<Rightarrow> string" where
  "quoted k = ''`'' @ k @ ''`''"

definition where_text :: "string list \<Rightarrow> string" where
  "where_text ks = joined '' AND '' (map (\<lambda>k. quoted k @ ''=?'') ks)"

definition set_text :: "string list \<Rightarrow> string" where
  "set_text ks = joined '','' (map (\<lambda>k. quoted k @ ''=?'') ks)"

definition columns_text :: "string list \<Rightarrow> string" where
  "columns_text ks = joined '','' (map quoted ks)"

definition marks_text :: "nat \<Rightarrow> string" where
  "marks_text n = joined '','' (replicate n ''?'')"

definition duplicate_text :: "string list \<Rightarrow> string list \<Rightarrow> string" where
  "duplicate_text vKey vSet =
     joined '','' (map (\<lambda>k. quoted k @ ''= VALUES('' @ quoted k @ '')'')
       (if vSet \<noteq> [] then vSet else if vKey \<noteq> [] then [last vKey] else []))"

named_theorems puts "the loops that write a text"

lemma bind_put: "bindR (put u t) (put v) = put (u @ v) t" "bindR (put u t) (\<lambda>t. bindR (put v t) f) = bindR (put (u @ v) t) f"
  by (auto simp: put_def)

lemma put_Nil: "put u [] = (if length u \<le> CLAUSE_SIZE then Inr u else Inl Write_Out_Of_Bounds)"
  by (simp add: put_def)

lemma where_loop_put:
  "length t \<le> CLAUSE_SIZE \<Longrightarrow> where_loop (Suc j) ks t = put (concat (map (\<lambda>k. '' AND '' @ quoted k @ ''=?'') ks)) t"
  by (induction ks arbitrary: j t) (auto simp: put_def quoted_def)

lemma set_loop_put:
  "length t \<le> CLAUSE_SIZE \<Longrightarrow> set_loop (Suc j) ks t = put (concat (map (\<lambda>k. '','' @ quoted k @ ''=?'') ks)) t"
  by (induction ks arbitrary: j t) (auto simp: put_def quoted_def)

lemma field_loop_put:
  "length t \<le> CLAUSE_SIZE \<Longrightarrow> field_loop True ks t = put (concat (map (\<lambda>k. '','' @ quoted k) ks)) t"
  by (induction ks arbitrary: t) (auto simp: put_def quoted_def)

lemma placeholder_loop_put:
  "length t \<le> CLAUSE_SIZE \<Longrightarrow> placeholder_loop (Suc j) n t = put (concat (replicate n '',?'')) t"
  by (induction n arbitrary: j t) (auto simp: put_def)

lemma duplicate_one_put: "duplicate_one k t = put (quoted k @ ''= VALUES('' @ quoted k @ '')'') t"
  by (simp add: duplicate_one_def bind_put quoted_def)

lemma duplicate_loop_put:
  "length t \<le> CLAUSE_SIZE \<Longrightarrow>
    duplicate_loop (Suc j) ks t = put (concat (map (\<lambda>k. '','' @ quoted k @ ''= VALUES('' @ quoted k @ '')'') ks)) t"
  by (induction ks arbitrary: j t) (auto simp: put_def duplicate_one_put)

lemma where_clause_text: "where_clause ks = put (cstr (where_text ks)) []"
  by (cases ks) (auto simp: where_clause_def where_text_def cstr_def put_def where_loop_put quoted_def comp_def)

lemma set_clause_text: "set_clause ks = put (cstr (set_text ks)) []"
  by (cases ks) (auto simp: set_clause_def set_text_def cstr_def put_def set_loop_put quoted_def comp_def)

lemma field_list_text: "field_list vKey vSet = put (cstr (columns_text (vKey @ vSet))) []"
  by (cases vKey; cases vSet)
    (auto simp: field_list_def columns_text_def cstr_def put_def field_loop_put quoted_def comp_def)

lemma placeholder_list_text: "placeholder_list n = put (cstr (marks_text n)) []"
  by (cases n) (auto simp: placeholder_list_def marks_text_def cstr_def put_def placeholder_loop_put map_replicate)

lemma duplicate_list_text: "duplicate_list vKey vSet = put (cstr (duplicate_text vKey vSet)) []"
  by (cases vSet)
    (auto simp: duplicate_list_def duplicate_text_def cstr_def put_def duplicate_loop_put duplicate_one_put comp_def)

lemmas clause_texts = where_clause_text set_clause_text field_list_text placeholder_list_text duplicate_list_text

section \<open>Printing the SQL text\<close>

text \<open>What is left of a text in \<open>_sql[4096]\<close>.\<close>

definition sql_cut :: "string \<Rightarrow> string" where
  "sql_cut t = take 4095 t"

text \<open>The statement \<open>s'\<close> is \<open>s\<close> with the text \<open>t\<close> in its buffer.\<close>

definition holds_sql :: "string \<Rightarrow> 'f zstmt \<Rightarrow> 'f zstmt \<Rightarrow> bool" where
  "holds_sql t s s' \<longleftrightarrow> length (z_sql s') = 4096 \<and> NUL \<in> set (z_sql s') \<and> c_str (z_sql s') = t \<and>
     z_stmt s' = z_stmt s \<and> z_index s' = z_index s"

lemma c_str_cstr: "cvalid t \<Longrightarrow> c_str (t @ NUL # r) = t"
  by (induction t) (simp_all add: c_str_def)

lemma cvalid_take: "cvalid t \<Longrightarrow> cvalid (take n t)"
  by (auto simp: cvalid_def dest: in_set_takeD)

lemma shows_text_c_str:
  assumes "shows_text t str r out" "cvalid t" "str \<noteq> []"
  shows "NUL \<in> set out" "c_str out = take (length str - 1) t"
proof -
  let ?k = "min (length t) (length str - 1)"
  have "take (Suc ?k) out @ drop (Suc ?k) out = out" by (rule append_take_drop_id)
  moreover have "take (length str - 1) t @ [NUL] = take (Suc ?k) out"
    using assms(1) by (simp add: shows_text_def)
  ultimately have "out = take (length str - 1) t @ NUL # drop (Suc ?k) out"
    by (metis append.assoc append_Cons append_Nil)
  then obtain r where "out = take (length str - 1) t @ NUL # r" ..
  then show "NUL \<in> set out" "c_str out = take (length str - 1) t"
    using c_str_cstr cvalid_take [OF assms(2)] by simp_all
qed

lemma pieces_append [simp]:
  "pieces_format (ps @ qs) = pieces_format ps @ pieces_format qs"
  "pieces_args (ps @ qs) = pieces_args ps @ pieces_args qs"
  "pieces_text (ps @ qs) = pieces_text ps @ pieces_text qs"
  by (simp_all add: pieces_format_def pieces_args_def pieces_text_def)

lemma pieces_Lit [simp]:
  "pieces_format (map Lit l) = l" "pieces_args (map Lit l) = []" "pieces_text (map Lit l) = l"
  by (induction l) simp_all

lemma sql_printf_pieces:
  fixes e :: "('w, 'f, 'c) env" and s :: "'f zstmt"
  assumes e: "env_ok e" and s: "length (z_sql s) = 4096" and ps: "list_all piece_ok ps"
    and f: "format = pieces_format ps" "(map (VStr \<circ> Some) args :: 'f vararg list) = pieces_args ps"
    and t: "cvalid (pieces_text ps)" "int (length (pieces_text ps)) < INT_MAX"
  obtains s' where "sql_printf e format args s = Inr s'" "holds_sql (sql_cut (pieces_text ps)) s s'"
proof -
  have "z_sql s \<noteq> []" using s by auto
  then obtain r p where p: "o_snprintf (e_fops e) (Some (z_sql s)) (e_scratch e) (cstr format) (map (VStr \<circ> Some) args) = Inr (r, p)"
    "shows_text (pieces_text ps) (z_sql s) r (p_out p)"
    using o_snprintf_pieces [of ps "z_sql s" "e_scratch e" "e_fops e" "[]" "[]"] ps t e f by (auto simp: env_ok_def)
  have "holds_sql (sql_cut (pieces_text ps)) s (s\<lparr>z_sql := p_out p\<rparr>)"
    using shows_text_c_str [OF p(2) t(1) \<open>z_sql s \<noteq> []\<close>] p(2) s by (simp add: holds_sql_def shows_text_def sql_cut_def)
  then show ?thesis using p(1) by (intro that [of "s\<lparr>z_sql := p_out p\<rparr>"]) (simp_all add: sql_printf_def)
qed

text \<open>Literal text, then an argument in quotes or not, as often as there are arguments.\<close>

fun sql_pieces :: "(string \<times> string) list \<Rightarrow> string \<Rightarrow> piece list" where
  "sql_pieces [] l = map Lit l"
| "sql_pieces ((l', v) # as) l = map Lit l' @ Str v # sql_pieces as l"

fun sql_shape :: "(string \<times> string) list \<Rightarrow> string \<Rightarrow> string" where
  "sql_shape [] l = l"
| "sql_shape ((l', v) # as) l = l' @ v @ sql_shape as l"

lemma sql_pieces_simps [simp]:
  "pieces_text (sql_pieces as l) = sql_shape as l"
  "pieces_args (sql_pieces as l) = map (\<lambda>(l, v). VStr (Some (cstr v))) as"
  "pieces_format (sql_pieces as l) = concat (map (\<lambda>(l, v). l @ ''%s'') as) @ l"
  by (induction as l rule: sql_pieces.induct) simp_all

definition plain_literal :: "string \<Rightarrow> bool" where
  "plain_literal l \<longleftrightarrow> list_all (\<lambda>c. c \<noteq> NUL \<and> c \<noteq> CHR 0x25) l"

lemma plain_literal_ok: "plain_literal l \<Longrightarrow> list_all piece_ok (map Lit l)" "plain_literal l \<Longrightarrow> cvalid l"
  by (auto simp: plain_literal_def list_all_iff cvalid_def)

lemma sql_pieces_ok:
  "list_all (\<lambda>(l, v). plain_literal l \<and> cvalid v) as \<Longrightarrow> plain_literal l \<Longrightarrow>
    list_all piece_ok (sql_pieces as l) \<and> cvalid (sql_shape as l)"
  by (induction as l rule: sql_pieces.induct) (simp_all add: plain_literal_ok)

lemma sql_printf_text:
  assumes "env_ok e" "length (z_sql s) = 4096" "format = concat (map (\<lambda>(l, v). l @ ''%s'') as) @ l"
    "list_all (\<lambda>(l, v). plain_literal l \<and> cvalid v) as" "plain_literal l"
    "int (length (sql_shape as l)) < INT_MAX"
  obtains s' where "sql_printf e format (map (\<lambda>(l, v). cstr v) as) s = Inr s'"
    "holds_sql (sql_cut (sql_shape as l)) s s'"
  by (rule sql_printf_pieces [OF assms(1,2), of "sql_pieces as l" format "map (\<lambda>(l, v). cstr v) as"])
    (use assms sql_pieces_ok [OF assms(4,5)] in \<open>auto simp: comp_def split_def\<close>)

section \<open>The statements as texts\<close>

definition select_text :: "string \<Rightarrow> string list \<Rightarrow> string" where
  "select_text tbl ks =
     ''SELECT * FROM '' @ quoted tbl @ (if ks = [] then [] else '' WHERE '' @ where_text ks)"

definition insert_text :: "string \<Rightarrow> string list \<Rightarrow> string list \<Rightarrow> string" where
  "insert_text tbl ks ss =
     ''INSERT INTO '' @ quoted tbl @ '' ('' @ columns_text (ks @ ss) @ '') VALUES ('' @
     marks_text (length ks + length ss) @ '')'' @
     (if ks @ ss = [] then [] else '' ON DUPLICATE KEY UPDATE '' @ duplicate_text ks ss @ '' '')"

definition update_text :: "string \<Rightarrow> string list \<Rightarrow> string list \<Rightarrow> string" where
  "update_text tbl ks ss =
     ''UPDATE '' @ quoted tbl @ '' SET '' @ set_text ss @ (if ks = [] then [] else '' WHERE '' @ where_text ks)"

definition delete_text :: "string \<Rightarrow> string list \<Rightarrow> string" where
  "delete_text tbl ks =
     ''DELETE FROM '' @ quoted tbl @ (if ks = [] then [] else '' WHERE '' @ where_text ks)"

definition call_text :: "string \<Rightarrow> nat \<Rightarrow> string" where
  "call_text proc n = ''CALL '' @ proc @ '' ('' @ marks_text n @ '')''"

lemma names_valid:
  assumes "list_all cvalid ks"
  shows "cvalid (where_text ks)" "cvalid (set_text ks)" "cvalid (columns_text ks)"
  using assms unfolding where_text_def set_text_def columns_text_def
  by (auto intro!: cvalid_joined simp: list_all_iff quoted_def)

lemma marks_valid: "cvalid (marks_text n)"
  unfolding marks_text_def by (auto intro!: cvalid_joined simp: list_all_iff)

lemma duplicate_valid: "list_all cvalid vKey \<Longrightarrow> list_all cvalid vSet \<Longrightarrow> cvalid (duplicate_text vKey vSet)"
  unfolding duplicate_text_def by (auto intro!: cvalid_joined simp: list_all_iff quoted_def)

lemma text_heads:
  "cstr (where_text ks) ! 0 = NUL \<longleftrightarrow> ks = []"
  "cstr (duplicate_text ks ss) ! 0 = NUL \<longleftrightarrow> ks @ ss = []"
  by (cases ks; auto simp: where_text_def cstr_def quoted_def)
    (cases ss; cases ks; auto simp: duplicate_text_def cstr_def quoted_def)

lemma put_cstr: "put (cstr t) [] = (if length t < CLAUSE_SIZE then Inr (cstr t) else Inl Write_Out_Of_Bounds)"
  by (auto simp: cstr_def put_def)

text \<open>The names a statement is made of, and the room its clauses need.\<close>

definition names_ok :: "string \<Rightarrow> string list \<Rightarrow> bool" where
  "names_ok tbl ks \<longleftrightarrow> cvalid tbl \<and> length tbl < 2 ^ 30 \<and> list_all cvalid ks"

definition sql_args :: "(string \<times> string) list \<Rightarrow> string \<Rightarrow> string \<Rightarrow> char list list \<Rightarrow> bool" where
  "sql_args as l format args \<longleftrightarrow>
     format = concat (map (\<lambda>(l, v). l @ ''%s'') as) @ l \<and> args = map (\<lambda>(l, v). cstr v) as \<and>
     list_all (\<lambda>(l, v). plain_literal l \<and> cvalid v) as \<and> plain_literal l \<and>
     int (length (sql_shape as l)) < INT_MAX"

lemma sql_choice:
  assumes "env_ok e" "length (z_sql s) = 4096"
    and "t = (if b then sql_shape as0 l0 else sql_shape as1 l1)"
    and "b \<Longrightarrow> sql_args as0 l0 f0 args0" "\<not> b \<Longrightarrow> sql_args as1 l1 f1 args1"
  obtains s' where
    "bindR (if b then sql_printf e f0 args0 s else sql_printf e f1 args1 s) g = g s'"
    "holds_sql (sql_cut t) s s'"
proof (cases b)
  case True
  then obtain s' where "sql_printf e f0 args0 s = Inr s'" "holds_sql (sql_cut (sql_shape as0 l0)) s s'"
    using sql_printf_text [OF assms(1,2), of f0 as0 l0 thesis] assms(4) by (auto simp: sql_args_def)
  then show ?thesis using True that assms(3) by simp
next
  case False
  then obtain s' where "sql_printf e f1 args1 s = Inr s'" "holds_sql (sql_cut (sql_shape as1 l1)) s s'"
    using sql_printf_text [OF assms(1,2), of f1 as1 l1 thesis] assms(5) by (auto simp: sql_args_def)
  then show ?thesis using False that assms(3) by simp
qed

lemmas sql_evals = sql_args_def names_ok_def plain_literal_def INT_MAX_def CLAUSE_SIZE_def
lemmas text_defs = select_text_def insert_text_def update_text_def delete_text_def quoted_def

lemma PrepareSelect_text:
  assumes "env_ok e" "length (z_sql s) = 4096" "names_ok tbl ks" "length (where_text ks) < CLAUSE_SIZE"
  obtains s' where "PrepareSelect e d tbl ks s w = z_prepare e d s' w" "holds_sql (sql_cut (select_text tbl ks)) s s'"
proof (rule sql_choice [OF assms(1,2), where b = "ks = []" and t = "select_text tbl ks"
      and ?as0.0 = "[(''SELECT * FROM `'', tbl)]" and ?l0.0 = "''`''"
      and ?f0.0 = "''SELECT * FROM `%s`''" and ?args0.0 = "[cstr tbl]"
      and ?as1.0 = "[(''SELECT * FROM `'', tbl), (''` WHERE '', where_text ks)]" and ?l1.0 = "[]"
      and ?f1.0 = "''SELECT * FROM `%s` WHERE %s''" and ?args1.0 = "[cstr tbl, cstr (where_text ks)]"
      and g = "\<lambda>s. z_prepare e d s w"])
qed (use assms(3,4) names_valid [of ks] in \<open>simp_all add: sql_evals text_defs PrepareSelect_def where_clause_text put_cstr text_heads that\<close>)

lemma PrepareDelete_text:
  assumes "env_ok e" "length (z_sql s) = 4096" "names_ok tbl ks" "length (where_text ks) < CLAUSE_SIZE"
  obtains s' where "PrepareDelete e d tbl ks s w = z_prepare e d s' w" "holds_sql (sql_cut (delete_text tbl ks)) s s'"
proof (rule sql_choice [OF assms(1,2), where b = "ks = []" and t = "delete_text tbl ks"
      and ?as0.0 = "[(''DELETE FROM `'', tbl)]" and ?l0.0 = "''`''"
      and ?f0.0 = "''DELETE FROM `%s`''" and ?args0.0 = "[cstr tbl]"
      and ?as1.0 = "[(''DELETE FROM `'', tbl), (''` WHERE '', where_text ks)]" and ?l1.0 = "[]"
      and ?f1.0 = "''DELETE FROM `%s` WHERE %s''" and ?args1.0 = "[cstr tbl, cstr (where_text ks)]"
      and g = "\<lambda>s. z_prepare e d s w"])
qed (use assms(3,4) names_valid [of ks] in \<open>simp_all add: sql_evals text_defs PrepareDelete_def where_clause_text put_cstr text_heads that\<close>)

lemma PrepareUpdate_text:
  assumes "env_ok e" "length (z_sql s) = 4096" "names_ok tbl (ks @ ss)" "ss \<noteq> []"
    "length (where_text ks) < CLAUSE_SIZE" "length (set_text ss) < CLAUSE_SIZE"
  obtains s' where "PrepareUpdate e d tbl ks ss s w = z_prepare e d s' w"
    "holds_sql (sql_cut (update_text tbl ks ss)) s s'"
proof (rule sql_choice [OF assms(1,2), where b = "ks = []" and t = "update_text tbl ks ss"
      and ?as0.0 = "[(''UPDATE `'', tbl), (''` SET '', set_text ss)]" and ?l0.0 = "[]"
      and ?f0.0 = "''UPDATE `%s` SET %s''" and ?args0.0 = "[cstr tbl, cstr (set_text ss)]"
      and ?as1.0 = "[(''UPDATE `'', tbl), (''` SET '', set_text ss), ('' WHERE '', where_text ks)]" and ?l1.0 = "[]"
      and ?f1.0 = "''UPDATE `%s` SET %s WHERE %s''" and ?args1.0 = "[cstr tbl, cstr (set_text ss), cstr (where_text ks)]"
      and g = "\<lambda>s. z_prepare e d s w"])
qed (use assms(3-) names_valid [of ks] names_valid [of ss] in
    \<open>simp_all add: sql_evals text_defs PrepareUpdate_def clause_texts put_cstr text_heads that\<close>)

lemma PrepareInsert_text:
  assumes "env_ok e" "length (z_sql s) = 4096" "names_ok tbl (ks @ ss)"
    "length (columns_text (ks @ ss)) < CLAUSE_SIZE" "length (marks_text (length ks + length ss)) < CLAUSE_SIZE"
    "length (duplicate_text ks ss) < CLAUSE_SIZE"
  obtains s' where "PrepareInsert e d tbl ks ss s w = z_prepare e d s' w"
    "holds_sql (sql_cut (insert_text tbl ks ss)) s s'"
proof -
  let ?c = "columns_text (ks @ ss)" and ?m = "marks_text (length ks + length ss)" and ?u = "duplicate_text ks ss"
  have v: "cvalid ?c" "cvalid ?m" "cvalid ?u"
    using assms(3) names_valid [of "ks @ ss"] marks_valid duplicate_valid [of ks ss] by (auto simp: names_ok_def)
  show ?thesis
  proof (rule sql_choice [OF assms(1,2), where b = "ks @ ss = []" and t = "insert_text tbl ks ss"
      and ?as0.0 = "[(''INSERT INTO `'', tbl), (''` ('', ?c), ('') VALUES ('', ?m)]" and ?l0.0 = "'')''"
      and ?f0.0 = "''INSERT INTO `%s` (%s) VALUES (%s)''" and ?args0.0 = "[cstr tbl, cstr ?c, cstr ?m]"
      and ?as1.0 = "[(''INSERT INTO `'', tbl), (''` ('', ?c), ('') VALUES ('', ?m), ('') ON DUPLICATE KEY UPDATE '', ?u)]"
      and ?l1.0 = "'' ''"
      and ?f1.0 = "''INSERT INTO `%s` (%s) VALUES (%s) ON DUPLICATE KEY UPDATE %s ''"
      and ?args1.0 = "[cstr tbl, cstr ?c, cstr ?m, cstr ?u]"
      and g = "\<lambda>s. z_prepare e d s w"])
  qed (use assms(3-) v in \<open>simp_all add: sql_evals text_defs PrepareInsert_def clause_texts put_cstr text_heads that\<close>)
qed

subsection \<open>Stored procedures\<close>

lemma call_loop_text:
  assumes "length pre + length (concat (replicate n '',?'')) \<le> length pre + length r" "j > 0"
  shows "call_loop j n (length pre) (pre @ r) =
    Inr (length pre + 2 * n, pre @ concat (replicate n '',?'') @ drop (2 * n) r)"
  using assms
proof (induction n arbitrary: j pre r)
  case (Suc n)
  then obtain a b r' where r: "r = a # b # r'" by (cases r rule: remdups_adj.cases) auto
  have "call_loop j (Suc n) (length pre) (pre @ r) = call_loop (Suc j) n (length (pre @ '',?'')) ((pre @ '',?'') @ r')"
    using Suc.prems(2) r by (simp add: list_update_append)
  also have "\<dots> = Inr (length (pre @ '',?'') + 2 * n, (pre @ '',?'') @ concat (replicate n '',?'') @ drop (2 * n) r')"
    by (rule Suc.IH) (use Suc.prems r in simp_all)
  finally show ?case using r by simp
qed simp

lemma marks_text_Suc: "marks_text (Suc n) = ''?'' @ concat (replicate n '',?'')"
  by (simp add: marks_text_def map_replicate)

lemma length_marks_text: "length (marks_text n) = 2 * n - 1"
  by (cases n) (simp_all add: marks_text_Suc length_concat sum_list_replicate, simp add: marks_text_def)

lemma call_marks:
  assumes "length (marks_text n) < length r"
  shows "call_loop 0 n (length pre) (pre @ r) =
    Inr (length pre + length (marks_text n), pre @ marks_text n @ drop (length (marks_text n)) r)"
proof (cases n)
  case 0
  then show ?thesis by (simp add: marks_text_def)
next
  case (Suc m)
  then obtain a r' where r: "r = a # r'" using assms by (cases r) auto
  have "call_loop 0 n (length pre) (pre @ r) = call_loop (Suc 0) m (length (pre @ ''?'')) ((pre @ ''?'') @ r')"
    using Suc r by (simp add: list_update_append)
  also have "\<dots> = Inr (length (pre @ ''?'') + 2 * m, (pre @ ''?'') @ concat (replicate m '',?'') @ drop (2 * m) r')"
    by (rule call_loop_text) (use assms r Suc in \<open>simp_all add: length_marks_text length_concat sum_list_replicate\<close>)
  finally show ?thesis
    using Suc r by (simp add: marks_text_Suc length_concat sum_list_replicate mult_2)
qed

lemma c_str_split:
  assumes "NUL \<in> set xs"
  obtains r where "xs = c_str xs @ NUL # r"
  using assms takeWhile_dropWhile_id [of "\<lambda>c. c \<noteq> NUL" xs]
  by (cases "dropWhile (\<lambda>c. c \<noteq> NUL) xs") (auto simp: c_str_def dropWhile_eq_Cons_conv dropWhile_eq_Nil_conv intro: that [OF sym])

lemma PrepareStoredProcCall_text:
  assumes "env_ok e" "length (z_sql s) = 4096" "cvalid proc" "length (call_text proc n) < CLAUSE_SIZE"
  obtains s' where "PrepareStoredProcCall e d proc n s w = z_prepare e d s' w" "holds_sql (call_text proc n) s s'"
proof -
  let ?pre = "''CALL '' @ proc @ '' (''"
  obtain s1 where s1: "sql_printf e ''CALL %s ('' [cstr proc] s = Inr s1" "holds_sql (sql_cut ?pre) s s1"
    using sql_printf_text [OF assms(1,2), of "''CALL %s (''" "[(''CALL '', proc)]" "'' (''" thesis] assms(3,4)
    by (auto simp: plain_literal_def INT_MAX_def call_text_def CLAUSE_SIZE_def)
  have pre: "c_str (z_sql s1) = ?pre" "length (z_sql s1) = 4096" "NUL \<in> set (z_sql s1)"
    using s1(2) assms(4) by (simp_all add: holds_sql_def sql_cut_def call_text_def CLAUSE_SIZE_def)
  obtain r where r: "z_sql s1 = ?pre @ NUL # r" using c_str_split [OF pre(3)] pre(1) by auto
  let ?m = "marks_text n" and ?z = "NUL # r"
  have len: "length ?m + 1 < length ?z"
    using assms(4) pre(2) r by (simp add: call_text_def CLAUSE_SIZE_def)
  then obtain a b r' where r': "drop (length ?m) ?z = a # b # r'"
    by (cases "drop (length ?m) ?z" rule: remdups_adj.cases) (auto simp: drop_eq_Nil dest!: arg_cong [where f = length])
  have loop: "call_loop 0 n (length (c_str (z_sql s1))) (z_sql s1) =
      Inr (length (?pre @ ?m), (?pre @ ?m) @ a # b # r')"
    using call_marks [of n ?z ?pre] len r' pre(1) unfolding r by simp
  let ?s = "s1\<lparr>z_sql := (?pre @ ?m) @ CHR '')'' # NUL # r'\<rparr>"
  have len_r': "length r' + length (?pre @ ?m) + 2 = 4096"
    using arg_cong [OF r', of length] len pre(2) r by simp
  have "PrepareStoredProcCall e d proc n s w = z_prepare e d ?s w"
    using s1(1) loop by (simp add: PrepareStoredProcCall_def list_update_append del: append_assoc)
  moreover have "cvalid (call_text proc n)" using assms(3) marks_valid [of n] by (simp add: call_text_def)
  then have "holds_sql (call_text proc n) s ?s"
    using s1(2) len_r' c_str_cstr [of "call_text proc n" r'] by (simp add: holds_sql_def call_text_def)
  ultimately show ?thesis using that by blast
qed

section \<open>Preparing, binding and executing\<close>

lemma zdb_format_plain: "CHR 0x25 \<notin> set t \<Longrightarrow> zdb_format t = Inr t"
  by (induction t) auto

lemma z_prepare_text:
  assumes "holds_sql t s s'" "CHR 0x25 \<notin> set t"
  shows "z_prepare e d s' w =
    (case e_prepare e t w of
       (Some n, w') \<Rightarrow> Inr (True, s'\<lparr>z_stmt := Some (t, replicate n None)\<rparr>, w')
     | (None, w') \<Rightarrow> if d_log d then Inr (False, s', w') else Inl Null_Dereference)"
  using assms by (simp add: z_prepare_def holds_sql_def zdb_format_plain)

text \<open>Parameters bound one after the other fill the slots from the first.\<close>

fun z_binds :: "'f bound list \<Rightarrow> 'f zstmt \<Rightarrow> 'f zstmt res" where
  "z_binds [] s = Inr s"
| "z_binds (b # bs) s = bindR (z_bind b s) (z_binds bs)"

lemma z_binds_append: "z_binds (bs @ bs') s = bindR (z_binds bs s) (z_binds bs')"
  by (induction bs arbitrary: s) (simp_all add: bindR_assoc cong: bindR_cong)

lemma z_binds_slots:
  assumes "z_stmt s = Some (sql, filled @ replicate n None)" "z_index s = length filled"
  shows "z_binds bs s =
    (if length bs \<le> n then
       Inr (s\<lparr>z_index := length filled + length bs,
              z_stmt := Some (sql, filled @ map Some bs @ replicate (n - length bs) None)\<rparr>)
     else Inl Null_Dereference)"
  using assms
proof (induction bs arbitrary: s filled n)
  case Nil
  then show ?case by (cases s) simp
next
  case (Cons b bs)
  show ?case
  proof (cases n)
    case 0
    then show ?thesis using Cons.prems by (simp add: z_bind_def)
  next
    case (Suc m)
    let ?s = "s\<lparr>z_index := Suc (length filled), z_stmt := Some (sql, (filled @ [Some b]) @ replicate m None)\<rparr>"
    have "z_bind b s = Inr ?s" using Cons.prems Suc by (simp add: z_bind_def list_update_append)
    then show ?thesis using Cons.IH [of ?s "filled @ [Some b]" m] Suc by simp
  qed
qed

end
