(* ===== verification/Base_Properties.thy ===== *)
theory Base_Properties
  imports Zdb_Session
begin

text \<open>
  The properties of the helpers in \<open>src/src/base\<close> and of the URL of the connection, and the inputs
  they are applied to.
\<close>

unbundle bit_operations_syntax

section \<open>URL code\<close>

text \<open>C30. \<open>Encode\<close> of a C string needs at most three characters for each one, all of them plain
  URL characters, \<open>+\<close> or \<open>%\<close>; \<open>Decode\<close> gives the string back, with every white space character
  turned into a blank.\<close>

theorem Encode_Decode:
  assumes "cvalid s"
  shows "\<exists>t. Encode (cstr s @ rest) = Inr t \<and> Decode t = Inr (map respaced s) \<and>
    list_all url_safe t \<and> length t \<le> 3 * length s"
  using Encode_text [OF assms] Decode_encoded encoded_safe encoded_length by metis

lemma Encode_Decode_witness:
  "\<exists>t. Encode (cstr ''a b/c%'' @ ''xyz'') = Inr t \<and> Decode t = Inr ''a b/c%'' \<and>
    list_all url_safe t \<and> length t \<le> 18"
  using Encode_Decode [of "''a b/c%''" "''xyz''"] by (simp add: respaced_def isspace_def)

text \<open>The constructor encodes user, password and schema. The URL \<open>Open\<close> prints into its array
  of \<open>MAX_PATH\<close> characters fits when the address and three times the other parts together have at
  most 203 characters, and then no fault is possible; it overflows the array whenever the parts
  together have more than 203.\<close>

theorem ZdbDriver_Open_url:
  assumes "cvalid user" "cvalid pass" "cvalid schema"
  shows "\<exists>d. ZdbDriver haslog url (cstr user) (cstr pass) (cstr schema) n = Inr d \<and>
    (length url + 3 * (length user + length pass + length schema) \<le> 203 \<longrightarrow>
       (\<exists>ok w'. ZdbDriver_Open e d w = Inr (ok, d\<lparr>d_opened := ok\<rparr>, w'))) \<and>
    (203 < length url + length user + length pass + length schema \<longrightarrow>
       ZdbDriver_Open e d w = Inl Write_Out_Of_Bounds)"
proof -
  let ?enc = "\<lambda>s. concat (map encode_char s)"
  let ?d = "\<lparr>d_log = haslog, d_url = url, d_user = ?enc user, d_pass = ?enc pass, d_schema = ?enc schema,
    d_poolsize = n, d_opened = False\<rparr>"
  have at_least: "length s \<le> length (?enc s)" for s
  proof (induction s)
    case (Cons c s)
    moreover have "1 \<le> length (encode_char c)" by (simp add: encode_char_def)
    ultimately show ?case by simp
  qed simp
  have "ZdbDriver haslog url (cstr user) (cstr pass) (cstr schema) n = Inr ?d"
    using Encode_text [OF assms(1), of "[]"] Encode_text [OF assms(2), of "[]"] Encode_text [OF assms(3), of "[]"]
    by (simp add: ZdbDriver_def)
  moreover have "length (url_text ?d) = 56 + length url + length (?enc user) + length (?enc pass) + length (?enc schema)"
    by (simp add: url_text_def)
  moreover have "?d\<lparr>d_opened := False\<rparr> = ?d" by simp
  ultimately show ?thesis
    using encoded_length [of user] encoded_length [of pass] encoded_length [of schema]
      at_least [of user] at_least [of pass] at_least [of schema]
    by (intro exI [of _ ?d]) (auto simp: ZdbDriver_Open_def MAX_PATH_def Let_def split: prod.splits bool.splits)
qed

definition url_env :: "(unit, nat, unit) env" where
  "url_env = \<lparr>e_fops = undefined, e_scratch = [], e_raw = [], e_url_new = (\<lambda>_. True), e_pool_start = (\<lambda>_ _ w. (True, w)),
     e_get_connection = (\<lambda>w. (True, w)), e_close = id, e_prepare = (\<lambda>_ w. (None, w)), e_execute = (\<lambda>_ _ w. (None, w)),
     e_broken = (\<lambda>_. False)\<rparr>"

lemma ZdbDriver_Open_url_witness:
  "\<exists>d. ZdbDriver True ''localhost:3306'' (cstr ''root'') (cstr (replicate 190 CHR ''x'')) (cstr ''game'') 4 = Inr d \<and>
     ZdbDriver_Open url_env d () = Inl Write_Out_Of_Bounds"
  using ZdbDriver_Open_url [of "''root''" "replicate 190 CHR ''x''" "''game''" True "''localhost:3306''" 4 url_env "()"]
  by (auto simp: cvalid_def)

section \<open>Comparison without case\<close>

text \<open>\<open>util_strcmp_case\<close> on ASCII strings: the result is zero exactly for strings that are
  equal up to case, and negative exactly when the first one in lower case comes first in the
  lexicographic order of the characters.\<close>

theorem util_strcmp_case_order:
  assumes "cvalid a" "cvalid b" "list_all ascii a" "list_all ascii b"
  shows "\<exists>r. util_strcmp_case (cstr a @ x) (cstr b @ y) = Inr r \<and>
    (r = 0 \<longleftrightarrow> map tolower a = map tolower b) \<and>
    (r < 0 \<longleftrightarrow> (map tolower a, map tolower b) \<in> lexord {(c, d). (of_char c :: nat) < of_char d})"
proof -
  have "cvalid (map tolower s) \<and> list_all ascii (map tolower s)" if "cvalid s" "list_all ascii s" for s
    using that by (induction s) simp_all
  then show ?thesis
    using assms util_strcmp_case_diff [OF assms] case_diff_0_iff case_diff_neg_iff by simp
qed

lemma util_strcmp_case_order_witness:
  "\<exists>r. util_strcmp_case (cstr ''Abc'') (cstr ''aBD'') = Inr r \<and> r < 0"
proof -
  have "map tolower ''Abc'' = ''abc''" "map tolower ''aBD'' = ''abd''" by code_simp+
  then show ?thesis
    using util_strcmp_case_order [of "''Abc''" "''aBD''" "[]" "[]"] by (auto simp: ascii_def)
qed

section \<open>Extended precision numbers\<close>

text \<open>\<open>readLD_be\<close> on the ten bytes of an 80 bit number whose exponent byte is at most 30: the
  upper 32 bits of the mantissa, divided by two to the power of 30 minus the exponent, rounded to
  the nearest integer with halves rounded up, without overflow.\<close>

lemma readLD_be_rounds:
  assumes "unat b1 \<le> 30"
  shows "\<exists>r. readLD_be (b0 # b1 # m3 # m2 # m1 # m0 # rest) = Inr r \<and>
    unat r = (if unat b1 = 30 then le_value [m0, m1, m2, m3]
              else (le_value [m0, m1, m2, m3] + 2 ^ (29 - unat b1)) div 2 ^ (30 - unat b1))"
proof -
  obtain m where m: "read32_be (m3 # m2 # m1 # m0 # rest) = Inr m" by (simp add: read32_be_def read16_be_def)
  have v: "unat m = le_value [m0, m1, m2, m3]" by (rule read32_be_value [OF m])
  let ?e = "30 - b1"
  have e: "unat ?e = 30 - unat b1" using assms by (simp add: unat_sub word_le_nat_alt)
  show ?thesis
  proof (cases "unat b1 = 30")
    case True
    then have "?e = 0" using e by (simp add: unat_eq_0 [symmetric])
    then have "readLD_loop ?e 0 m = (0, m)" by (simp add: readLD_loop_value)
    then show ?thesis using True m v by (simp add: readLD_be_def)
  next
    case False
    then have pos: "0 < unat ?e" using e assms by simp
    then have nz: "?e \<noteq> 0" by (simp add: unat_gt_0)
    let ?q = "drop_bit (unat ?e) m" and ?o = "drop_bit (unat ?e - 1) m"
    have q: "unat ?q = unat m div 2 ^ unat ?e" and o: "unat ?o = unat m div 2 ^ (unat ?e - 1)"
      by (simp_all only: unat_drop_bit_eq) (simp_all add: drop_bit_eq_div)
    have "unat ?q < 2 ^ 31"
    proof -
      have "unat m div 2 ^ unat ?e \<le> unat m div 2" using pos by (intro div_le_mono2) (auto simp: self_le_power)
      then show ?thesis using q unsigned_less [of m, where 'a = nat] by simp
    qed
    then have plus: "unat (?q + 1) = unat ?q + 1" by (simp add: unat_word_ariths)
    have "bit (unat ?o) 0 \<longleftrightarrow> bit ?o 0" by (simp only: bit_unsigned_iff possible_bit_nat simp_thms)
    then have last_bit: "?o AND 1 \<noteq> 0 \<longleftrightarrow> unat ?o mod 2 = 1"
      by (simp only: and_one_eq bit_0) (simp add: odd_iff_mod_2_eq_one)
    have "readLD_loop ?e 0 m = (?o, ?q)" using nz by (simp add: readLD_loop_value)
    then have "readLD_be (b0 # b1 # m3 # m2 # m1 # m0 # rest) = Inr (if ?o AND 1 \<noteq> 0 then ?q + 1 else ?q)"
      using m by (simp add: readLD_be_def)
    moreover have "unat (if ?o AND 1 \<noteq> 0 then ?q + 1 else ?q) = unat m div 2 ^ unat ?e + (unat m div 2 ^ (unat ?e - 1)) mod 2"
      using last_bit plus q o by auto
    ultimately show ?thesis
      using False v round_half_up [OF pos, of "unat m"] e by (simp add: Suc_diff_Suc)
  qed
qed

lemma readLD_be_sample:
  "\<exists>r. readLD_be [0x40, 14, 0xAC, 0x44, 0x80, 0, 0, 0, 0, 0] = Inr r \<and> unat r = 44101"
  using readLD_be_rounds [of 14 "0x40" "0xAC" "0x44" "0x80" 0 "[0, 0, 0, 0]"] by (simp add: le_value_def)

end
