(* ===== verification/Pb_Message.thy ===== *)
theory Pb_Message
  imports Prelude
begin

text \<open>
  What the engine uses of a protobuf message, as the documentation of protobuf states it: the
  fields of its descriptor in the order of declaration with their names, types and labels, whether
  a singular field is set, and the typed accessors of the reflection interface. An accessor whose
  C++ type is not that of the field ends the program with a fatal error.

  The submessage of a message field is kept with the field, set or not, so that the fields
  \<open>MutableMessage\<close> creates are known. Message types that contain themselves are outside the model.
\<close>

section \<open>Fields\<close>

datatype pb_type =
  TYPE_DOUBLE | TYPE_FLOAT | TYPE_INT64 | TYPE_UINT64 | TYPE_INT32 | TYPE_FIXED64 | TYPE_FIXED32
| TYPE_BOOL | TYPE_STRING | TYPE_GROUP | TYPE_MESSAGE | TYPE_BYTES | TYPE_UINT32 | TYPE_ENUM
| TYPE_SFIXED32 | TYPE_SFIXED64 | TYPE_SINT32 | TYPE_SINT64

text \<open>The values of the C++ types of protobuf; \<open>'f\<close> stands for the floating point numbers.\<close>

datatype 'f pb_scalar =
  Int32 "32 word" | Int64 "64 word" | UInt32 "32 word" | UInt64 "64 word"
| Double 'f | Float 'f | Bool bool | Enum "32 word" | Str_Val string

datatype 'f pb_field =
  Field (fld_name: string) (fld_type: pb_type) (fld_repeated: bool) (fld_has: bool) (fld_value: "'f pb_value")
and 'f pb_value = Scalar "'f pb_scalar" | Submessage "'f pb_field list"

type_synonym 'f pb_message = "'f pb_field list"

text \<open>The fixed mapping from the types to the C++ types of protobuf.\<close>

fun cpp_type_ok :: "pb_type \<Rightarrow> 'f pb_scalar \<Rightarrow> bool" where
  "cpp_type_ok t (Int32 v) = (t = TYPE_INT32 \<or> t = TYPE_SINT32 \<or> t = TYPE_SFIXED32)"
| "cpp_type_ok t (Int64 v) = (t = TYPE_INT64 \<or> t = TYPE_SINT64 \<or> t = TYPE_SFIXED64)"
| "cpp_type_ok t (UInt32 v) = (t = TYPE_UINT32 \<or> t = TYPE_FIXED32)"
| "cpp_type_ok t (UInt64 v) = (t = TYPE_UINT64 \<or> t = TYPE_FIXED64)"
| "cpp_type_ok t (Double v) = (t = TYPE_DOUBLE)"
| "cpp_type_ok t (Float v) = (t = TYPE_FLOAT)"
| "cpp_type_ok t (Bool v) = (t = TYPE_BOOL)"
| "cpp_type_ok t (Enum v) = (t = TYPE_ENUM)"
| "cpp_type_ok t (Str_Val v) = (t = TYPE_STRING \<or> t = TYPE_BYTES)"

text \<open>A well-formed message: every value has the C++ type of its field.\<close>

fun field_ok :: "'f pb_field \<Rightarrow> bool" and value_ok :: "pb_type \<Rightarrow> 'f pb_value \<Rightarrow> bool" where
  "field_ok (Field n t r h v) = value_ok t v"
| "value_ok t (Scalar x) = cpp_type_ok t x"
| "value_ok t (Submessage fs) = ((t = TYPE_MESSAGE \<or> t = TYPE_GROUP) \<and> list_all field_ok fs)"

section \<open>Reflection\<close>

fun GetInt32 :: "'f pb_value \<Rightarrow> 32 word res" where
  "GetInt32 (Scalar (Int32 v)) = Inr v"
| "GetInt32 _ = Inl Usage_Error"

fun GetInt64 :: "'f pb_value \<Rightarrow> 64 word res" where
  "GetInt64 (Scalar (Int64 v)) = Inr v"
| "GetInt64 _ = Inl Usage_Error"

fun GetUInt32 :: "'f pb_value \<Rightarrow> 32 word res" where
  "GetUInt32 (Scalar (UInt32 v)) = Inr v"
| "GetUInt32 _ = Inl Usage_Error"

fun GetUInt64 :: "'f pb_value \<Rightarrow> 64 word res" where
  "GetUInt64 (Scalar (UInt64 v)) = Inr v"
| "GetUInt64 _ = Inl Usage_Error"

fun GetDouble :: "'f pb_value \<Rightarrow> 'f res" where
  "GetDouble (Scalar (Double v)) = Inr v"
| "GetDouble _ = Inl Usage_Error"

fun GetFloat :: "'f pb_value \<Rightarrow> 'f res" where
  "GetFloat (Scalar (Float v)) = Inr v"
| "GetFloat _ = Inl Usage_Error"

fun GetBool :: "'f pb_value \<Rightarrow> bool res" where
  "GetBool (Scalar (Bool v)) = Inr v"
| "GetBool _ = Inl Usage_Error"

fun GetEnum :: "'f pb_value \<Rightarrow> 32 word res" where
  "GetEnum (Scalar (Enum v)) = Inr v"
| "GetEnum _ = Inl Usage_Error"

fun GetString :: "'f pb_value \<Rightarrow> string res" where
  "GetString (Scalar (Str_Val v)) = Inr v"
| "GetString _ = Inl Usage_Error"

fun GetMessage :: "'f pb_value \<Rightarrow> 'f pb_message res" where
  "GetMessage (Submessage fs) = Inr fs"
| "GetMessage _ = Inl Usage_Error"

text \<open>A setter stores the value and marks the field as set.\<close>

definition set_scalar :: "'f pb_scalar \<Rightarrow> 'f pb_field \<Rightarrow> 'f pb_field res" where
  "set_scalar x fd =
     (if cpp_type_ok (fld_type fd) x
      then Inr (Field (fld_name fd) (fld_type fd) (fld_repeated fd) True (Scalar x))
      else Inl Usage_Error)"

text \<open>\<open>HasField\<close> on a singular field.\<close>

abbreviation skipped :: "'f pb_field \<Rightarrow> bool" where
  "skipped fd \<equiv> fld_repeated fd \<or> \<not> fld_has fd"

section \<open>Recursion over the fields\<close>

text \<open>The number of fields, submessages included: the measure of the recursive functions.\<close>

fun field_size :: "'f pb_field \<Rightarrow> nat" and value_size :: "'f pb_value \<Rightarrow> nat" where
  "field_size (Field n t r h v) = Suc (value_size v)"
| "value_size (Scalar x) = 0"
| "value_size (Submessage fs) = sum_list (map field_size fs)"

definition message_size :: "'f pb_message \<Rightarrow> nat" where
  "message_size fs = sum_list (map field_size fs)"

lemma message_size_simps [simp]:
  "message_size [] = 0"
  "message_size (Field n t r h v # fs) = Suc (value_size v + message_size fs)"
  "value_size (Submessage fs) = message_size fs"
  by (simp_all add: message_size_def)

declare value_size.simps(2) [simp del]

lemma field_size_pos [simp]: "0 < field_size fd"
  by (cases fd) simp

text \<open>Induction over a list of fields and the submessages in it.\<close>

lemma message_induct [case_names Nil Sub Leaf]:
  assumes "P []"
    and "\<And>n t r h sub fs. P sub \<Longrightarrow> P fs \<Longrightarrow> P (Field n t r h (Submessage sub) # fs)"
    and "\<And>n t r h x fs. P fs \<Longrightarrow> P (Field n t r h (Scalar x) # fs)"
  shows "P fs"
proof (induction "message_size fs" arbitrary: fs rule: less_induct)
  case less
  show ?case
  proof (cases fs)
    case Nil
    then show ?thesis using assms(1) by simp
  next
    case (Cons fd fs')
    obtain n t r h v where fd: "fd = Field n t r h v" by (cases fd)
    have "P fs'" using less Cons fd by simp
    then show ?thesis
    proof (cases v)
      case (Scalar x)
      then show ?thesis using assms(3) \<open>P fs'\<close> Cons fd by simp
    next
      case (Submessage sub)
      then have "P sub" using less [of sub] Cons fd by simp
      then show ?thesis using assms(2) \<open>P fs'\<close> Cons fd Submessage by simp
    qed
  qed
qed

end
