(* ===== verification/Db_Params.thy ===== *)
theory Db_Params
  imports Zdb_Session Pb_Message
begin

text \<open>
  \<open>src/src/db/Protobuf2DbEngine.cpp\<close>, from a message to a bound statement: the collection of the
  fields that are set (\<open>CollectEntityInputParams\<close>, \<open>CollectEntitySetFields\<close>,
  \<open>CollectProcInputParams\<close>), the statement of each operation (\<open>ParseSelect\<close>, \<open>ParseInsert\<close>,
  \<open>ParseUpdate\<close>, \<open>ParseDelete\<close>, \<open>ParseProc\<close>) and the binding of one field by its type
  (\<open>AddOneInputParam\<close>).

  A \<open>pb_input_param_t\<close> is the field it points to. The collections keep the order in which the
  fields are declared, submessages in place.
\<close>

section \<open>Collecting\<close>

function CollectEntityInputParams ::
  "string list \<Rightarrow> string list \<Rightarrow> 'f pb_message \<Rightarrow> 'f pb_field list \<times> 'f pb_field list \<Rightarrow>
    ('f pb_field list \<times> 'f pb_field list) res" where
  "CollectEntityInputParams vInKey vInSet [] out = Inr out"
| "CollectEntityInputParams vInKey vInSet (Field sName t r h v # fs) (vOutKeyParam, vOutSetParam) =
     (if r \<or> \<not> h then CollectEntityInputParams vInKey vInSet fs (vOutKeyParam, vOutSetParam)
      else if t = TYPE_MESSAGE then
        (case v of
           Submessage sub \<Rightarrow>
             bindR (CollectEntityInputParams vInKey vInSet sub (vOutKeyParam, vOutSetParam))
               (CollectEntityInputParams vInKey vInSet fs)
         | Scalar _ \<Rightarrow> Inl Usage_Error)
      else
        CollectEntityInputParams vInKey vInSet fs
          (if sName \<in> set vInKey then vOutKeyParam @ [Field sName t r h v] else vOutKeyParam,
           if sName \<in> set vInSet then vOutSetParam @ [Field sName t r h v] else vOutSetParam))"
  by pat_completeness auto
termination by (relation "measure (\<lambda>(_, _, fs, _). message_size fs)") auto

function CollectEntitySetFields :: "string list \<Rightarrow> 'f pb_message \<Rightarrow> string list \<Rightarrow> string list res" where
  "CollectEntitySetFields vInKey [] vOut = Inr vOut"
| "CollectEntitySetFields vInKey (Field sName t r h v # fs) vOut =
     (if r \<or> \<not> h then CollectEntitySetFields vInKey fs vOut
      else if t = TYPE_MESSAGE then
        (case v of
           Submessage sub \<Rightarrow>
             bindR (CollectEntitySetFields vInKey sub vOut) (CollectEntitySetFields vInKey fs)
         | Scalar _ \<Rightarrow> Inl Usage_Error)
      else CollectEntitySetFields vInKey fs (if sName \<notin> set vInKey then vOut @ [sName] else vOut))"
  by pat_completeness auto
termination by (relation "measure (\<lambda>(_, fs, _). message_size fs)") auto

function CollectProcInputParams :: "'f pb_message \<Rightarrow> 'f pb_field list \<Rightarrow> 'f pb_field list res" where
  "CollectProcInputParams [] vOut = Inr vOut"
| "CollectProcInputParams (Field sName t r h v # fs) vOut =
     (if r \<or> \<not> h then CollectProcInputParams fs vOut
      else if t = TYPE_MESSAGE then
        (case v of
           Submessage sub \<Rightarrow> bindR (CollectProcInputParams sub vOut) (CollectProcInputParams fs)
         | Scalar _ \<Rightarrow> Inl Usage_Error)
      else CollectProcInputParams fs (vOut @ [Field sName t r h v]))"
  by pat_completeness auto
termination by (relation "measure (\<lambda>(fs, _). message_size fs)") auto

text \<open>The types \<open>ParseProcParamsCount\<close> counts; the others fail an assertion.\<close>

definition counted_type :: "pb_type \<Rightarrow> bool" where
  "counted_type t \<longleftrightarrow>
     t \<in> {TYPE_ENUM, TYPE_SFIXED64, TYPE_FIXED64, TYPE_INT64, TYPE_UINT64, TYPE_FIXED32, TYPE_INT32,
          TYPE_UINT32, TYPE_STRING, TYPE_BYTES, TYPE_DOUBLE, TYPE_FLOAT, TYPE_BOOL}"

function ParseProcParamsCount :: "'f pb_message \<Rightarrow> nat res" where
  "ParseProcParamsCount [] = Inr 0"
| "ParseProcParamsCount (Field sName t r h v # fs) =
     (if r \<or> \<not> h then ParseProcParamsCount fs
      else if t = TYPE_MESSAGE then
        (case v of
           Submessage sub \<Rightarrow>
             bindR (ParseProcParamsCount sub) (\<lambda>n. bindR (ParseProcParamsCount fs) (\<lambda>m. Inr (n + m)))
         | Scalar _ \<Rightarrow> Inl Usage_Error)
      else if counted_type t then bindR (ParseProcParamsCount fs) (\<lambda>m. Inr (Suc m))
      else Inl Assertion_Failed)"
  by pat_completeness auto
termination by (relation "measure message_size") auto

section \<open>Binding one field\<close>

text \<open>
  A \<open>TYPE_STRING\<close> is passed as \<open>char *\<close>; the only overload with two arguments that takes it is
  \<open>const std::string&\<close>, so the statement keeps a pointer into a temporary string that ends at the
  first NUL. The conversion of \<open>float\<close> to \<open>double\<close> keeps the value. The result False is a type that
  is not bound.
\<close>

definition AddOneInputParam :: "'f pb_field \<Rightarrow> 'f zstmt \<Rightarrow> (bool \<times> 'f zstmt) res" where
  "AddOneInputParam fd s =
     (let v = fld_value fd; ok = (\<lambda>s. Inr (True, s))
      in case fld_type fd of
           TYPE_ENUM \<Rightarrow> bindR (GetEnum v) (\<lambda>nVal. bindR (AddInputInt nVal s) ok)
         | TYPE_SFIXED64 \<Rightarrow> bindR (GetInt64 v) (\<lambda>tmVal. bindR (AddInputTime tmVal s) ok)
         | TYPE_FIXED64 \<Rightarrow> bindR (GetInt64 v) (\<lambda>nVal. bindR (AddInputInt64Parameter nVal s) ok)
         | TYPE_INT64 \<Rightarrow> bindR (GetInt64 v) (\<lambda>nVal. bindR (AddInputInt64Parameter nVal s) ok)
         | TYPE_UINT64 \<Rightarrow> bindR (GetUInt64 v) (\<lambda>nVal. bindR (AddInputInt64Parameter nVal s) ok)
         | TYPE_FIXED32 \<Rightarrow> bindR (GetInt32 v) (\<lambda>nVal. bindR (AddInputInt nVal s) ok)
         | TYPE_INT32 \<Rightarrow> bindR (GetInt32 v) (\<lambda>nVal. bindR (AddInputInt nVal s) ok)
         | TYPE_UINT32 \<Rightarrow> bindR (GetUInt32 v) (\<lambda>nVal. bindR (AddInputInt nVal s) ok)
         | TYPE_STRING \<Rightarrow> bindR (GetString v) (\<lambda>str. bindR (AddInputString Temporary (c_str str) s) ok)
         | TYPE_BYTES \<Rightarrow> bindR (GetString v) (\<lambda>str. bindR (AddInputBlob str s) ok)
         | TYPE_DOUBLE \<Rightarrow> bindR (GetDouble v) (\<lambda>dVal. bindR (AddInputDouble dVal s) ok)
         | TYPE_FLOAT \<Rightarrow> bindR (GetFloat v) (\<lambda>dVal. bindR (AddInputDouble dVal s) ok)
         | TYPE_BOOL \<Rightarrow> bindR (GetBool v) (\<lambda>b. bindR (AddInputInt (if b then 1 else 0) s) ok)
         | _ \<Rightarrow> Inr (False, s))"

fun AddInputParams :: "'f pb_field list \<Rightarrow> 'f zstmt \<Rightarrow> 'f zstmt res" where
  "AddInputParams [] s = Inr s"
| "AddInputParams (fd # fds) s = bindR (AddOneInputParam fd s) (\<lambda>(_, s). AddInputParams fds s)"

text \<open>An UPDATE, a SELECT and a DELETE bind the set fields first, an INSERT the keys.\<close>

definition ParseEntityParams ::
  "'f pb_message \<Rightarrow> string list \<Rightarrow> string list \<Rightarrow> 'f zstmt \<Rightarrow> 'f zstmt res" where
  "ParseEntityParams pParams vInKey vSet s =
     bindR (CollectEntityInputParams vInKey vSet pParams ([], []))
       (\<lambda>(vKeyParam, vSetParam). AddInputParams (vSetParam @ vKeyParam) s)"

definition ParseInsertParams ::
  "'f pb_message \<Rightarrow> string list \<Rightarrow> string list \<Rightarrow> 'f zstmt \<Rightarrow> 'f zstmt res" where
  "ParseInsertParams pParams vInKey vSet s =
     bindR (CollectEntityInputParams vInKey vSet pParams ([], []))
       (\<lambda>(vKeyParam, vSetParam). AddInputParams (vKeyParam @ vSetParam) s)"

definition ParseProcParams :: "'f pb_message \<Rightarrow> 'f zstmt \<Rightarrow> 'f zstmt res" where
  "ParseProcParams pParams s = bindR (CollectProcInputParams pParams []) (\<lambda>v. AddInputParams v s)"

section \<open>The statement of an operation\<close>

type_synonym ('w, 'f) prepared = "(bool \<times> 'f zstmt \<times> 'w) res"

text \<open>The prepared statement with its parameters; False ends the operation.\<close>

definition with_params ::
  "('w, 'f) prepared \<Rightarrow> ('f zstmt \<Rightarrow> 'f zstmt res) \<Rightarrow> ('w, 'f) prepared" where
  "with_params m bind =
     bindR m (\<lambda>(ok, s, w).
       if \<not> ok then Inr (False, s, w) else bindR (bind s) (\<lambda>s. Inr (True, s, w)))"

text \<open>
  The keys that are set fields of the entity, in the order of the fields; a key that is given
  twice is taken twice.
\<close>

definition valid_keys :: "'f pb_message \<Rightarrow> string list \<Rightarrow> string list" where
  "valid_keys entity vInKey =
     concat (map (\<lambda>fd. filter (\<lambda>sKey. sKey = fld_name fd) vInKey)
       (filter (\<lambda>fd. \<not> skipped fd) entity))"

definition ParseSelect ::
  "('w, 'f, 'c) env \<Rightarrow> driver \<Rightarrow> 'f pb_message \<Rightarrow> string \<Rightarrow> string list \<Rightarrow> 'f zstmt \<Rightarrow> 'w \<Rightarrow> ('w, 'f) prepared" where
  "ParseSelect e d entity sTableName vInKey s w =
     (let vValidKey = valid_keys entity vInKey
      in with_params (PrepareSelect e d sTableName vValidKey s w)
           (ParseEntityParams entity vValidKey []))"

definition ParseInsert ::
  "('w, 'f, 'c) env \<Rightarrow> driver \<Rightarrow> 'f pb_message \<Rightarrow> string \<Rightarrow> string list \<Rightarrow> 'f zstmt \<Rightarrow> 'w \<Rightarrow> ('w, 'f) prepared" where
  "ParseInsert e d entity sTableName vInKey s w =
     bindR (CollectEntitySetFields vInKey entity []) (\<lambda>vSet.
     with_params (PrepareInsert e d sTableName vInKey vSet s w)
       (ParseInsertParams entity vInKey vSet))"

definition ParseUpdate ::
  "('w, 'f, 'c) env \<Rightarrow> driver \<Rightarrow> 'f pb_message \<Rightarrow> string \<Rightarrow> string list \<Rightarrow> bool \<Rightarrow> 'f zstmt \<Rightarrow> 'w \<Rightarrow>
    ('w, 'f) prepared" where
  "ParseUpdate e d entity sTableName vInKey bHackInsert s w =
     bindR (CollectEntitySetFields vInKey entity []) (\<lambda>vSet.
     if bHackInsert then
       with_params (PrepareInsert e d sTableName vInKey vSet s w)
         (ParseInsertParams entity vInKey vSet)
     else if vSet \<noteq> [] then
       with_params (PrepareUpdate e d sTableName vInKey vSet s w)
         (ParseEntityParams entity vInKey vSet)
     else Inr (True, s, w))"

definition ParseDelete ::
  "('w, 'f, 'c) env \<Rightarrow> driver \<Rightarrow> 'f pb_message \<Rightarrow> string \<Rightarrow> string list \<Rightarrow> 'f zstmt \<Rightarrow> 'w \<Rightarrow> ('w, 'f) prepared" where
  "ParseDelete e d entity sTableName vInKey s w =
     with_params (PrepareDelete e d sTableName vInKey s w) (ParseEntityParams entity vInKey [])"

text \<open>
  The parameters of a stored procedure are the field \<open>param\<close>; without one that is set nothing is
  prepared and the result is True.
\<close>

fun ParseProc ::
  "('w, 'f, 'c) env \<Rightarrow> driver \<Rightarrow> 'f pb_message \<Rightarrow> string \<Rightarrow> 'f zstmt \<Rightarrow> 'w \<Rightarrow> ('w, 'f) prepared" where
  "ParseProc e d [] sProcName s w = Inr (True, s, w)"
| "ParseProc e d (field # fs) sProcName s w =
     (if skipped field then ParseProc e d fs sProcName s w
      else if fld_name field = ''param'' then
        bindR (GetMessage (fld_value field)) (\<lambda>param.
        bindR (ParseProcParamsCount param) (\<lambda>nParamsCount.
        bindR (with_params (PrepareStoredProcCall e d sProcName nParamsCount s w) (ParseProcParams param))
          (\<lambda>(ok, s, w). if \<not> ok then Inr (False, s, w) else ParseProc e d fs sProcName s w)))
      else ParseProc e d fs sProcName s w)"

section \<open>What is collected\<close>

text \<open>The fields that are set, submessages in place.\<close>

function leaves :: "'f pb_message \<Rightarrow> 'f pb_field list" where
  "leaves [] = []"
| "leaves (Field n t r h v # fs) =
     (if r \<or> \<not> h then leaves fs
      else if t = TYPE_MESSAGE then (case v of Submessage sub \<Rightarrow> leaves sub @ leaves fs | Scalar _ \<Rightarrow> leaves fs)
      else Field n t r h v # leaves fs)"
  by pat_completeness auto
termination by (relation "measure message_size") auto

abbreviation leaf_names :: "'f pb_message \<Rightarrow> string list" where
  "leaf_names fs \<equiv> map fld_name (leaves fs)"

abbreviation message_ok :: "'f pb_message \<Rightarrow> bool" where
  "message_ok fs \<equiv> list_all field_ok fs"

lemma scalar_not_message [simp]: "\<not> cpp_type_ok TYPE_MESSAGE x"
  by (cases x) simp_all

lemma CollectEntityInputParams_leaves:
  "message_ok fs \<Longrightarrow> CollectEntityInputParams ks ss fs out =
    Inr (fst out @ filter (\<lambda>fd. fld_name fd \<in> set ks) (leaves fs),
         snd out @ filter (\<lambda>fd. fld_name fd \<in> set ss) (leaves fs))"
  by (induction ks ss fs out rule: CollectEntityInputParams.induct) (auto split: pb_value.splits)

lemma CollectEntitySetFields_leaves:
  "message_ok fs \<Longrightarrow> CollectEntitySetFields ks fs out =
    Inr (out @ map fld_name (filter (\<lambda>fd. fld_name fd \<notin> set ks) (leaves fs)))"
  by (induction ks fs out rule: CollectEntitySetFields.induct) (auto split: pb_value.splits)

lemma CollectProcInputParams_leaves:
  "message_ok fs \<Longrightarrow> CollectProcInputParams fs out = Inr (out @ leaves fs)"
  by (induction fs out rule: CollectProcInputParams.induct) (auto split: pb_value.splits)

lemma ParseProcParamsCount_leaves:
  "message_ok fs \<Longrightarrow> list_all (\<lambda>fd. counted_type (fld_type fd)) (leaves fs) \<Longrightarrow>
    ParseProcParamsCount fs = Inr (length (leaves fs))"
  by (induction fs rule: ParseProcParamsCount.induct) (auto split: pb_value.splits if_splits)

lemma leaves_ok: "message_ok fs \<Longrightarrow> list_all field_ok (leaves fs)"
  by (induction fs rule: leaves.induct) (auto split: pb_value.splits)

section \<open>What is bound\<close>

text \<open>
  The types a set field is bound with. \<open>TYPE_FIXED64\<close> and \<open>TYPE_FIXED32\<close> are read with the accessor
  of the signed type, which protobuf refuses; the groups and the zigzag and signed fixed types are
  not bound at all.
\<close>

definition bindable :: "pb_type \<Rightarrow> bool" where
  "bindable t \<longleftrightarrow>
     t \<in> {TYPE_ENUM, TYPE_SFIXED64, TYPE_INT64, TYPE_UINT64, TYPE_INT32, TYPE_UINT32, TYPE_STRING,
          TYPE_BYTES, TYPE_DOUBLE, TYPE_FLOAT, TYPE_BOOL}"

fun bound_scalar :: "pb_type \<Rightarrow> 'f pb_scalar \<Rightarrow> 'f bound" where
  "bound_scalar t (Int32 v) = Bind_Int v"
| "bound_scalar t (Int64 v) = (if t = TYPE_SFIXED64 then Bind_Timestamp v else Bind_LLong v)"
| "bound_scalar t (UInt32 v) = Bind_Int v"
| "bound_scalar t (UInt64 v) = Bind_LLong v"
| "bound_scalar t (Double v) = Bind_Double v"
| "bound_scalar t (Float v) = Bind_Double v"
| "bound_scalar t (Bool b) = Bind_Int (if b then 1 else 0)"
| "bound_scalar t (Enum v) = Bind_Int v"
| "bound_scalar t (Str_Val v) = (if t = TYPE_STRING then Bind_String Temporary (c_str v) else Bind_Blob v)"

definition bound_field :: "'f pb_field \<Rightarrow> 'f bound" where
  "bound_field fd =
     (case fld_value fd of Scalar x \<Rightarrow> bound_scalar (fld_type fd) x | Submessage _ \<Rightarrow> Bind_Blob [])"

lemmas add_inputs =
  AddInputInt64Parameter_def AddInputInt_def AddInputString_def AddInputTime_def AddInputDouble_def AddInputBlob_def

lemma AddOneInputParam_bound:
  assumes "field_ok fd" "bindable (fld_type fd)"
  shows "AddOneInputParam fd s = bindR (z_bind (bound_field fd) s) (\<lambda>s. Inr (True, s))"
proof -
  obtain n t r h v where fd: "fd = Field n t r h v" by (cases fd)
  then obtain x where "v = Scalar x" using assms by (cases v) (auto simp: bindable_def)
  then show ?thesis
    using assms fd by (cases x) (auto simp: AddOneInputParam_def add_inputs bound_field_def bindable_def Let_def)
qed

lemma AddInputParams_bound:
  "list_all field_ok fds \<Longrightarrow> list_all (\<lambda>fd. bindable (fld_type fd)) fds \<Longrightarrow>
    AddInputParams fds s = z_binds (map bound_field fds) s"
  by (induction fds arbitrary: s) (simp_all add: AddOneInputParam_bound bindR_assoc)

text \<open>Every column is bound to the value of a set field with the name of the column.\<close>

definition binds_columns :: "'f pb_message \<Rightarrow> string list \<Rightarrow> 'f bound option list \<Rightarrow> bool" where
  "binds_columns entity cols slots \<longleftrightarrow>
     list_all2 (\<lambda>c b. \<exists>fd \<in> set (leaves entity). fld_name fd = c \<and> b = Some (bound_field fd)) cols slots"

lemma binds_columns_fields:
  assumes "set fds \<subseteq> set (leaves entity)" "cols = map fld_name fds" "slots = map Some (map bound_field fds)"
  shows "binds_columns entity cols slots"
  using assms unfolding binds_columns_def list_all2_conv_all_nth
  by (simp, metis nth_mem subsetD)

text \<open>A message whose set fields are bound.\<close>

definition entity_ok :: "'f pb_message \<Rightarrow> bool" where
  "entity_ok entity \<longleftrightarrow> message_ok entity \<and> list_all (\<lambda>fd. bindable (fld_type fd)) (leaves entity)"

text \<open>The non-key fields are collected twice, with the same result.\<close>

definition set_names :: "'f pb_message \<Rightarrow> string list \<Rightarrow> string list" where
  "set_names entity ks = filter (\<lambda>n. n \<notin> set ks) (leaf_names entity)"

lemma set_fields_names:
  "map fld_name (filter (\<lambda>fd. fld_name fd \<in> set (set_names entity ks)) (leaves entity)) = set_names entity ks"
proof -
  have "filter (\<lambda>fd. fld_name fd \<in> set (set_names entity ks)) (leaves entity) =
      filter (\<lambda>fd. fld_name fd \<notin> set ks) (leaves entity)"
    by (rule filter_cong) (auto simp: set_names_def)
  then show ?thesis by (simp add: set_names_def filter_map comp_def)
qed

lemma collect_set_names:
  "entity_ok entity \<Longrightarrow> CollectEntitySetFields ks entity [] = Inr (set_names entity ks)"
  by (simp add: entity_ok_def CollectEntitySetFields_leaves set_names_def filter_map comp_def)

text \<open>The keys are set fields of the entity, listed in the order of the fields.\<close>

definition keys_in_order :: "'f pb_message \<Rightarrow> string list \<Rightarrow> bool" where
  "keys_in_order entity ks \<longleftrightarrow> filter (\<lambda>n. n \<in> set ks) (leaf_names entity) = ks"

lemma keys_in_order_names:
  "keys_in_order entity ks \<Longrightarrow> map fld_name (filter (\<lambda>fd. fld_name fd \<in> set ks) (leaves entity)) = ks"
  by (simp add: keys_in_order_def filter_map comp_def)

lemma bind_fields:
  assumes "entity_ok entity" "z_stmt s = Some (sql, replicate (length fds) None)" "z_index s = 0"
    "set fds \<subseteq> set (leaves entity)"
  shows "AddInputParams fds s =
    Inr (s\<lparr>z_index := length fds, z_stmt := Some (sql, map Some (map bound_field fds))\<rparr>)"
proof -
  have "list_all field_ok fds" "list_all (\<lambda>fd. bindable (fld_type fd)) fds"
    using assms(1,4) leaves_ok [of entity] by (auto simp: entity_ok_def list_all_iff)
  then show ?thesis
    using z_binds_slots [of s sql "[]" "length fds" "map bound_field fds"] assms(2,3) by (simp add: AddInputParams_bound)
qed

section \<open>Parameter markers\<close>

text \<open>
  The parameters a server finds in a text: the question marks outside quoted names and strings.
  This is the documented behaviour of the server, the hypothesis \<open>server_counts\<close>.
\<close>

fun markers :: "char option \<Rightarrow> string \<Rightarrow> nat" where
  "markers q [] = 0"
| "markers None (c # t) =
     (if c \<in> {CHR 0x60, CHR 0x22, CHR 0x27} then markers (Some c) t
      else (if c = CHR ''?'' then 1 else 0) + markers None t)"
| "markers (Some q) (c # t) = (if c = q then markers None t else markers (Some q) t)"

definition server_counts :: "('w, 'f, 'c) env \<Rightarrow> bool" where
  "server_counts e \<longleftrightarrow> (\<forall>t w n w'. e_prepare e t w = (Some n, w') \<longrightarrow> n = markers None t)"

text \<open>A name that can be quoted, and goes through the format of libzdb unchanged.\<close>

definition name_ok :: "string \<Rightarrow> bool" where
  "name_ok k \<longleftrightarrow> list_all (\<lambda>c. c \<noteq> NUL \<and> c \<noteq> CHR 0x60 \<and> c \<noteq> CHR 0x25) k"

lemma markers_quoted [simp]:
  assumes "name_ok k"
  shows "markers None (quoted k @ r) = markers None r"
proof -
  have "markers (Some CHR 0x60) (k @ CHR 0x60 # r) = markers None r"
    using assms by (induction k) (simp_all add: name_ok_def)
  then show ?thesis by (simp add: quoted_def)
qed

lemma markers_columns:
  assumes "list_all name_ok ks"
  shows "markers None (columns_text ks @ r) = markers None r"
proof -
  have "markers None (concat (map (\<lambda>k. '','' @ quoted k) ks) @ r) = markers None r"
    using assms by (induction ks) simp_all
  then show ?thesis using assms by (cases ks) (simp_all add: columns_text_def comp_def)
qed

lemma markers_set:
  assumes "list_all name_ok ks"
  shows "markers None (set_text ks @ r) = length ks + markers None r"
proof -
  have "markers None (concat (map (\<lambda>k. '','' @ quoted k @ ''=?'') ks) @ r) = length ks + markers None r"
    using assms by (induction ks) simp_all
  then show ?thesis using assms by (cases ks) (simp_all add: set_text_def comp_def)
qed

lemma markers_where:
  assumes "list_all name_ok ks"
  shows "markers None (where_text ks @ r) = length ks + markers None r"
proof -
  have "markers None (concat (map (\<lambda>k. '' AND '' @ quoted k @ ''=?'') ks) @ r) = length ks + markers None r"
    using assms by (induction ks) simp_all
  then show ?thesis using assms by (cases ks) (simp_all add: where_text_def comp_def)
qed

lemma markers_marks: "markers None (marks_text n @ r) = n + markers None r"
proof -
  have "markers None (concat (replicate n '',?'') @ r) = n + markers None r" by (induction n) simp_all
  then show ?thesis by (cases n) (simp_all add: marks_text_def map_replicate)
qed

lemma markers_duplicate:
  assumes "list_all name_ok ks" "list_all name_ok ss"
  shows "markers None (duplicate_text ks ss @ r) = markers None r"
proof -
  have "markers None (concat (map (\<lambda>k. '','' @ quoted k @ ''= VALUES('' @ quoted k @ '')'') ss) @ r) = markers None r"
    if "list_all name_ok ss" for ss using that by (induction ss) simp_all
  then show ?thesis
    using assms by (cases ss; cases ks) (auto simp: duplicate_text_def comp_def list_all_iff)
qed

lemma name_text_ok: "name_ok k \<Longrightarrow> cvalid k" "name_ok k \<Longrightarrow> CHR 0x25 \<notin> set k"
  by (auto simp: name_ok_def list_all_iff cvalid_def)

lemma percent_joined:
  "CHR 0x25 \<notin> set sep \<Longrightarrow> list_all (\<lambda>x. CHR 0x25 \<notin> set x) xs \<Longrightarrow> CHR 0x25 \<notin> set (joined sep xs)"
  by (cases xs) (auto simp: list_all_iff)

lemma percent_texts:
  assumes "list_all name_ok ks"
  shows "CHR 0x25 \<notin> set (where_text ks)" "CHR 0x25 \<notin> set (set_text ks)" "CHR 0x25 \<notin> set (columns_text ks)"
    "CHR 0x25 \<notin> set (marks_text n)"
    "list_all name_ok ss \<Longrightarrow> CHR 0x25 \<notin> set (duplicate_text ks ss)"
  unfolding where_text_def set_text_def columns_text_def marks_text_def duplicate_text_def
  by (rule percent_joined; use assms name_text_ok(2) in \<open>auto simp: list_all_iff quoted_def\<close>)+

text \<open>The texts of the statements over good names.\<close>

lemma statement_markers:
  assumes "name_ok tbl" "list_all name_ok ks" "list_all name_ok ss"
  shows "markers None (select_text tbl ks) = length ks"
    "markers None (insert_text tbl ks ss) = length ks + length ss"
    "markers None (update_text tbl ks ss) = length ss + length ks"
    "markers None (delete_text tbl ks) = length ks"
proof -
  note m = markers_quoted [OF assms(1)] markers_where [OF assms(2), of "[]"] markers_where [OF assms(2)]
    markers_columns markers_set [OF assms(3)] markers_set [OF assms(3), of "[]"] markers_marks
    markers_duplicate [OF assms(2,3)]
  show "markers None (select_text tbl ks) = length ks" "markers None (delete_text tbl ks) = length ks"
    using m(1) [of "[]"] m(1,2) by (simp_all add: select_text_def delete_text_def)
  show "markers None (update_text tbl ks ss) = length ss + length ks"
    using m by (simp add: update_text_def)
  show "markers None (insert_text tbl ks ss) = length ks + length ss"
    using m assms by (simp add: insert_text_def)
qed

lemma statement_plain:
  assumes "name_ok tbl" "list_all name_ok ks" "list_all name_ok ss"
  shows "CHR 0x25 \<notin> set (select_text tbl ks)" "CHR 0x25 \<notin> set (insert_text tbl ks ss)"
    "CHR 0x25 \<notin> set (update_text tbl ks ss)" "CHR 0x25 \<notin> set (delete_text tbl ks)"
  using name_text_ok(2) [OF assms(1)] percent_texts [OF assms(2)] percent_texts [OF assms(3)] percent_texts [of "ks @ ss"] assms
  by (auto simp: text_defs)

end
