(* ===== verification/Zdb_Result.thy ===== *)
theory Zdb_Result
  imports Zdb_Session
begin

text \<open>
  The result set of \<open>src/src/db/ZdbConnectionPoolSession.h\<close>: the rows one after the other, and the
  values of the current row by column name or by column index.

  The conversions of a column are those of libzdb, the parameter \<open>cell_ops\<close>. A column name that is
  not in the result raises an exception in libzdb, which the accessors by name catch and log; a
  column index that is out of range raises one too, which the accessors by index do not catch.
\<close>

text \<open>
  The result sets of a statement that are still to come, the rows of the current one, and the row
  that was fetched last. \<open>s_broken\<close>: fetching behind the last row fails with an error.
\<close>

record 'c rset =
  s_cols :: "(string \<times> nat) list"
  s_rows :: "'c list list"
  s_row :: "'c list"
  s_more :: "'c result list"
  s_opened :: bool
  s_broken :: bool

record ('c, 'f) cell_ops =
  c_int :: "'c \<Rightarrow> 32 word"
  c_llong :: "'c \<Rightarrow> 64 word"
  c_time :: "'c \<Rightarrow> 64 word"
  c_double :: "'c \<Rightarrow> 'f"
  c_float :: "'c \<Rightarrow> 'f"
  c_string :: "'c \<Rightarrow> string option"   \<comment> \<open>None for a NULL; the bytes before the first NUL\<close>
  c_blob :: "'c \<Rightarrow> string option"
  c_dbl_min :: 'f
  c_flt_min :: 'f

definition ZdbResultSet_Open :: "bool \<Rightarrow> 'c result list \<Rightarrow> 'c rset" where
  "ZdbResultSet_Open broken rss =
     (case rss of
        [] \<Rightarrow> \<lparr>s_cols = [], s_rows = [], s_row = [], s_more = [], s_opened = True, s_broken = broken\<rparr>
      | rs # rss \<Rightarrow> \<lparr>s_cols = rs_cols rs, s_rows = rs_rows rs, s_row = [], s_more = rss, s_opened = True,
                   s_broken = broken\<rparr>)"

definition ZdbResultSet_Close :: "'c rset \<Rightarrow> 'c rset" where
  "ZdbResultSet_Close rs = rs\<lparr>s_opened := False\<rparr>"

definition MoveNext :: "'c rset \<Rightarrow> (bool \<times> 'c rset) res" where
  "MoveNext rs =
     (case s_rows rs of
        [] \<Rightarrow> if s_broken rs then Inl Uncaught_Exception else Inr (False, rs)
      | r # rows \<Rightarrow> Inr (True, rs\<lparr>s_row := r, s_rows := rows\<rparr>))"

definition HasMoreResultSets :: "'c rset \<Rightarrow> bool \<times> 'c rset" where
  "HasMoreResultSets rs =
     (case s_more rs of
        [] \<Rightarrow> (False, rs\<lparr>s_cols := [], s_rows := []\<rparr>)
      | r # rss \<Rightarrow> (True, rs\<lparr>s_cols := rs_cols r, s_rows := rs_rows r, s_more := rss\<rparr>))"

section \<open>Columns\<close>

text \<open>The first column with the name, counted from 1.\<close>

fun col_index :: "string \<Rightarrow> (string \<times> nat) list \<Rightarrow> nat option" where
  "col_index n [] = None"
| "col_index n ((c, t) # cols) = (if n = c then Some 1 else map_option Suc (col_index n cols))"

text \<open>
  The common part of the accessors: by name they return whether the column was found, the value
  or the initial one, and the index and the type of the column, which stay as they are when it was
  not found.
\<close>

definition by_name ::
  "bool \<Rightarrow> 'c rset \<Rightarrow> ('c \<Rightarrow> 'v) \<Rightarrow> string \<Rightarrow> 'v \<Rightarrow> nat \<times> nat \<Rightarrow> (bool \<times> 'v \<times> nat \<times> nat) res" where
  "by_name haslog rs conv sField val out =
     (case col_index sField (s_cols rs) of
        Some i \<Rightarrow> Inr (True, conv (s_row rs ! (i - 1)), i, snd (s_cols rs ! (i - 1)))
      | None \<Rightarrow> if haslog then Inr (False, val, out) else Inl Null_Dereference)"

definition by_index :: "'c rset \<Rightarrow> ('c \<Rightarrow> 'v) \<Rightarrow> nat \<Rightarrow> 'v res" where
  "by_index rs conv nField =
     (if 1 \<le> nField \<and> nField \<le> length (s_cols rs) then Inr (conv (s_row rs ! (nField - 1)))
      else Inl Uncaught_Exception)"

definition GetFieldString where
  "GetFieldString haslog ops rs = by_name haslog rs (c_string ops)"

definition GetFieldString_at where
  "GetFieldString_at ops rs = by_index rs (c_string ops)"

definition GetFieldBlob where
  "GetFieldBlob haslog ops rs = by_name haslog rs (c_blob ops)"

definition GetFieldBlob_at where
  "GetFieldBlob_at ops rs = by_index rs (c_blob ops)"

definition GetFieldFloatValue where
  "GetFieldFloatValue haslog ops rs = by_name haslog rs (c_float ops)"

definition GetFieldFloatValue_at where
  "GetFieldFloatValue_at ops rs = by_index rs (c_float ops)"

definition GetFieldDoubleValue where
  "GetFieldDoubleValue haslog ops rs = by_name haslog rs (c_double ops)"

definition GetFieldDoubleValue_at where
  "GetFieldDoubleValue_at ops rs = by_index rs (c_double ops)"

definition GetFieldInt64Value where
  "GetFieldInt64Value haslog ops rs = by_name haslog rs (c_llong ops)"

definition GetFieldInt64Value_at where
  "GetFieldInt64Value_at ops rs = by_index rs (c_llong ops)"

definition GetFieldInt where
  "GetFieldInt haslog ops rs = by_name haslog rs (c_int ops)"

definition GetFieldInt_at where
  "GetFieldInt_at ops rs = by_index rs (c_int ops)"

definition GetFieldShort where
  "GetFieldShort haslog ops rs = by_name haslog rs (\<lambda>c. ucast (c_int ops c) :: 16 word)"

definition GetFieldShort_at where
  "GetFieldShort_at ops rs = by_index rs (\<lambda>c. ucast (c_int ops c) :: 16 word)"

definition GetFieldTime where
  "GetFieldTime haslog ops rs = by_name haslog rs (c_time ops)"

definition GetFieldTime_at where
  "GetFieldTime_at ops rs = by_index rs (c_time ops)"

lemmas get_field_defs =
  GetFieldString_def GetFieldString_at_def GetFieldBlob_def GetFieldBlob_at_def
  GetFieldFloatValue_def GetFieldFloatValue_at_def GetFieldDoubleValue_def GetFieldDoubleValue_at_def
  GetFieldInt64Value_def GetFieldInt64Value_at_def GetFieldInt_def GetFieldInt_at_def
  GetFieldShort_def GetFieldShort_at_def GetFieldTime_def GetFieldTime_at_def

section \<open>ExecuteSQL\<close>

text \<open>
  \<open>ExecuteSQL\<close> of the driver runs a fixed query, whatever its arguments, and prints three values of every
  row: the name of column 2, the column \<open>result_code\<close> and column 3. A null connection is loaded from;
  the exceptions of libzdb are not caught.
\<close>

fun print_rows :: "(string \<times> nat) list \<Rightarrow> bool \<Rightarrow> 'c list list \<Rightarrow> unit res" where
  "print_rows cols broken [] = (if broken then Inl Uncaught_Exception else Inr ())"
| "print_rows cols broken (r # rows) =
     bindR (assertR (col_index ''result_code'' cols \<noteq> None \<and> 3 \<le> length cols) Uncaught_Exception) (\<lambda>_.
     print_rows cols broken rows)"

definition ZdbDriver_ExecuteSQL :: "('w, 'f, 'c) env \<Rightarrow> 'w \<Rightarrow> (bool \<times> 'w) res" where
  "ZdbDriver_ExecuteSQL e w =
     (case e_get_connection e w of
        (False, w) \<Rightarrow> Inl Null_Dereference
      | (True, w) \<Rightarrow>
          case e_execute e ''select * from AlipayTrans'' [] w of
            (None, w) \<Rightarrow> Inl Uncaught_Exception
          | (Some rss, w) \<Rightarrow>
              let rs = ZdbResultSet_Open (e_broken e w) rss
              in bindR (print_rows (s_cols rs) (s_broken rs) (s_rows rs)) (\<lambda>_. Inr (False, e_close e w)))"

lemma ZdbDriver_ExecuteSQL_False: "ZdbDriver_ExecuteSQL e w = Inr (b, w') \<Longrightarrow> \<not> b"
  by (auto simp: ZdbDriver_ExecuteSQL_def Let_def bindR_Inr_iff split: prod.split_asm bool.split_asm option.split_asm)

section \<open>Lemmas\<close>

lemma col_index_range: "col_index n cols = Some i \<Longrightarrow> 1 \<le> i \<and> i \<le> length cols \<and> fst (cols ! (i - 1)) = n"
proof (induction cols arbitrary: i)
  case (Cons c cols)
  then show ?case by (cases c) (auto split: if_splits simp: nth_Cons')
qed simp

lemma col_index_None: "col_index n cols = None \<longleftrightarrow> n \<notin> fst ` set cols"
  by (induction cols) (auto split: if_splits)

lemma by_name_found:
  "col_index n (s_cols rs) = Some i \<Longrightarrow>
    by_name haslog rs conv n val out = Inr (True, conv (s_row rs ! (i - 1)), i, snd (s_cols rs ! (i - 1)))"
  by (simp add: by_name_def)

lemma by_index_found:
  "col_index n (s_cols rs) = Some i \<Longrightarrow> by_index rs conv i = Inr (conv (s_row rs ! (i - 1)))"
  using col_index_range by (fastforce simp: by_index_def)

end
