(* ===== verification/Db_Records.thy ===== *)
theory Db_Records
  imports Zdb_Result Pb_Message
begin

text \<open>
  \<open>src/src/db/Protobuf2DbEngine.cpp\<close>, from the rows of a result set to messages:
  \<open>AddFirstReturnRecord\<close> reads the first row by column name and notes the column of every field in
  \<open>arrIndex\<close>, \<open>AddReturnRecord\<close> reads the later rows through these indices, and
  \<open>ParseEntityResult\<close> and \<open>ParseProcResult\<close> go through the rows.

  The flag \<open>dbg\<close> is the macro \<open>_DEBUG\<close>: with it the type of a column is compared with the type of
  the field, and a difference raises an exception that is not caught.
\<close>

section \<open>Field types of the server\<close>

datatype enum_field_types =
  MYSQL_TYPE_DECIMAL | MYSQL_TYPE_TINY | MYSQL_TYPE_SHORT | MYSQL_TYPE_LONG | MYSQL_TYPE_FLOAT
| MYSQL_TYPE_DOUBLE | MYSQL_TYPE_NULL | MYSQL_TYPE_TIMESTAMP | MYSQL_TYPE_LONGLONG
| MYSQL_TYPE_INT24 | MYSQL_TYPE_DATE | MYSQL_TYPE_TIME | MYSQL_TYPE_DATETIME | MYSQL_TYPE_YEAR
| MYSQL_TYPE_NEWDATE | MYSQL_TYPE_VARCHAR | MYSQL_TYPE_BIT | MYSQL_TYPE_TIMESTAMP2
| MYSQL_TYPE_DATETIME2 | MYSQL_TYPE_TIME2 | MYSQL_TYPE_JSON | MYSQL_TYPE_NEWDECIMAL
| MYSQL_TYPE_ENUM | MYSQL_TYPE_SET | MYSQL_TYPE_TINY_BLOB | MYSQL_TYPE_MEDIUM_BLOB
| MYSQL_TYPE_LONG_BLOB | MYSQL_TYPE_BLOB | MYSQL_TYPE_VAR_STRING | MYSQL_TYPE_STRING
| MYSQL_TYPE_GEOMETRY

fun field_type_code :: "enum_field_types \<Rightarrow> nat" where
  "field_type_code MYSQL_TYPE_DECIMAL = 0" | "field_type_code MYSQL_TYPE_TINY = 1"
| "field_type_code MYSQL_TYPE_SHORT = 2" | "field_type_code MYSQL_TYPE_LONG = 3"
| "field_type_code MYSQL_TYPE_FLOAT = 4" | "field_type_code MYSQL_TYPE_DOUBLE = 5"
| "field_type_code MYSQL_TYPE_NULL = 6" | "field_type_code MYSQL_TYPE_TIMESTAMP = 7"
| "field_type_code MYSQL_TYPE_LONGLONG = 8" | "field_type_code MYSQL_TYPE_INT24 = 9"
| "field_type_code MYSQL_TYPE_DATE = 10" | "field_type_code MYSQL_TYPE_TIME = 11"
| "field_type_code MYSQL_TYPE_DATETIME = 12" | "field_type_code MYSQL_TYPE_YEAR = 13"
| "field_type_code MYSQL_TYPE_NEWDATE = 14" | "field_type_code MYSQL_TYPE_VARCHAR = 15"
| "field_type_code MYSQL_TYPE_BIT = 16" | "field_type_code MYSQL_TYPE_TIMESTAMP2 = 17"
| "field_type_code MYSQL_TYPE_DATETIME2 = 18" | "field_type_code MYSQL_TYPE_TIME2 = 19"
| "field_type_code MYSQL_TYPE_JSON = 245" | "field_type_code MYSQL_TYPE_NEWDECIMAL = 246"
| "field_type_code MYSQL_TYPE_ENUM = 247" | "field_type_code MYSQL_TYPE_SET = 248"
| "field_type_code MYSQL_TYPE_TINY_BLOB = 249" | "field_type_code MYSQL_TYPE_MEDIUM_BLOB = 250"
| "field_type_code MYSQL_TYPE_LONG_BLOB = 251" | "field_type_code MYSQL_TYPE_BLOB = 252"
| "field_type_code MYSQL_TYPE_VAR_STRING = 253" | "field_type_code MYSQL_TYPE_STRING = 254"
| "field_type_code MYSQL_TYPE_GEOMETRY = 255"

text \<open>
  The names of the types that the message of an exception has. A \<open>std::map\<close> keeps the first of two
  entries with one key.
\<close>

definition s_map_field_type :: "nat \<Rightarrow> string option" where
  "s_map_field_type = map_of (
     (0, ''MYSQL_TYPE_UNKNOWN'') #
     map (\<lambda>(t, n). (field_type_code t, n))
       [(MYSQL_TYPE_DECIMAL, ''MYSQL_TYPE_DECIMAL''), (MYSQL_TYPE_TINY, ''MYSQL_TYPE_TINY''),
        (MYSQL_TYPE_SHORT, ''MYSQL_TYPE_SHORT''), (MYSQL_TYPE_LONG, ''MYSQL_TYPE_LONG''),
        (MYSQL_TYPE_FLOAT, ''MYSQL_TYPE_FLOAT''), (MYSQL_TYPE_DOUBLE, ''MYSQL_TYPE_DOUBLE''),
        (MYSQL_TYPE_NULL, ''MYSQL_TYPE_NULL''), (MYSQL_TYPE_TIMESTAMP, ''MYSQL_TYPE_TIMESTAMP''),
        (MYSQL_TYPE_LONGLONG, ''MYSQL_TYPE_LONGLONG''), (MYSQL_TYPE_INT24, ''MYSQL_TYPE_INT24''),
        (MYSQL_TYPE_DATE, ''MYSQL_TYPE_DATE''), (MYSQL_TYPE_TIME, ''MYSQL_TYPE_TIME''),
        (MYSQL_TYPE_TIME, ''MYSQL_TYPE_TIME''), (MYSQL_TYPE_DATETIME, ''MYSQL_TYPE_DATETIME''),
        (MYSQL_TYPE_YEAR, ''MYSQL_TYPE_YEAR''), (MYSQL_TYPE_NEWDATE, ''MYSQL_TYPE_NEWDATE''),
        (MYSQL_TYPE_VARCHAR, ''MYSQL_TYPE_VARCHAR''), (MYSQL_TYPE_BIT, ''MYSQL_TYPE_BIT''),
        (MYSQL_TYPE_TIMESTAMP2, ''MYSQL_TYPE_TIMESTAMP2''), (MYSQL_TYPE_DATETIME2, ''MYSQL_TYPE_DATETIME2''),
        (MYSQL_TYPE_TIME2, ''MYSQL_TYPE_TIME2''), (MYSQL_TYPE_JSON, ''MYSQL_TYPE_JSON''),
        (MYSQL_TYPE_NEWDECIMAL, ''MYSQL_TYPE_NEWDECIMAL''), (MYSQL_TYPE_ENUM, ''MYSQL_TYPE_ENUM''),
        (MYSQL_TYPE_SET, ''MYSQL_TYPE_SET''), (MYSQL_TYPE_TINY_BLOB, ''MYSQL_TYPE_TINY_BLOB''),
        (MYSQL_TYPE_MEDIUM_BLOB, ''MYSQL_TYPE_MEDIUM_BLOB''), (MYSQL_TYPE_LONG_BLOB, ''MYSQL_TYPE_LONG_BLOB''),
        (MYSQL_TYPE_BLOB, ''MYSQL_TYPE_BLOB''), (MYSQL_TYPE_VAR_STRING, ''MYSQL_TYPE_VAR_STRING''),
        (MYSQL_TYPE_STRING, ''MYSQL_TYPE_STRING''), (MYSQL_TYPE_GEOMETRY, ''MYSQL_TYPE_GEOMETRY'')])"

lemma s_map_field_type_decimal: "s_map_field_type (field_type_code MYSQL_TYPE_DECIMAL) = Some ''MYSQL_TYPE_UNKNOWN''"
  by (simp add: s_map_field_type_def)

text \<open>The column types the debug build takes for a field of a message.\<close>

definition int_columns :: "nat set" where
  "int_columns = field_type_code ` {MYSQL_TYPE_LONG, MYSQL_TYPE_SHORT, MYSQL_TYPE_TINY}"

section \<open>One row\<close>

definition INT64_MIN :: "64 word" where
  "INT64_MIN = push_bit 63 1"

definition INT32_MIN :: "32 word" where
  "INT32_MIN = push_bit 31 1"

definition checked :: "bool \<Rightarrow> nat set \<Rightarrow> nat \<Rightarrow> 'a \<Rightarrow> 'a res" where
  "checked dbg types nFieldType x =
     (if dbg \<and> nFieldType \<notin> types then Inl Uncaught_Exception else Inr x)"

text \<open>
  The \<open>switch\<close> of \<open>AddFirstReturnRecord\<close>: the value to store, if the type is read, and
  \<open>nFieldIndex\<close>, which keeps its old value when the column is not found. \<open>nFieldType\<close> is 0 before
  every field.
\<close>

definition first_value ::
  "bool \<Rightarrow> bool \<Rightarrow> ('c, 'f) cell_ops \<Rightarrow> 'c rset \<Rightarrow> pb_type \<Rightarrow> string \<Rightarrow> nat \<Rightarrow>
    ('f pb_scalar option \<times> nat) res" where
  "first_value dbg haslog ops rs t name nFieldIndex =
     (let out = (nFieldIndex, 0);
          types = (\<lambda>ts. field_type_code ` set ts);
          the_str = (\<lambda>s. case s of None \<Rightarrow> [] | Some s \<Rightarrow> s)
      in case t of
           TYPE_SFIXED64 \<Rightarrow>
             bindR (GetFieldTime haslog ops rs name INT64_MIN out) (\<lambda>(_, v, i, ty).
             checked dbg (types [MYSQL_TYPE_DATETIME, MYSQL_TYPE_DATE]) ty (Some (Int64 v), i))
         | TYPE_FIXED64 \<Rightarrow>
             bindR (GetFieldInt64Value haslog ops rs name INT64_MIN out) (\<lambda>(_, v, i, ty).
             checked dbg (types [MYSQL_TYPE_LONGLONG]) ty (Some (Int64 v), i))
         | TYPE_INT64 \<Rightarrow>
             bindR (GetFieldInt64Value haslog ops rs name INT64_MIN out) (\<lambda>(_, v, i, ty).
             checked dbg (types [MYSQL_TYPE_LONGLONG]) ty (Some (Int64 v), i))
         | TYPE_UINT64 \<Rightarrow>
             bindR (GetFieldInt64Value haslog ops rs name INT64_MIN out) (\<lambda>(_, v, i, ty).
             checked dbg (types [MYSQL_TYPE_LONGLONG]) ty (Some (UInt64 v), i))
         | TYPE_FIXED32 \<Rightarrow>
             bindR (GetFieldInt haslog ops rs name INT32_MIN out) (\<lambda>(_, v, i, ty).
             checked dbg int_columns ty (Some (Int32 v), i))
         | TYPE_INT32 \<Rightarrow>
             bindR (GetFieldInt haslog ops rs name INT32_MIN out) (\<lambda>(_, v, i, ty).
             checked dbg int_columns ty (Some (Int32 v), i))
         | TYPE_UINT32 \<Rightarrow>
             bindR (GetFieldInt haslog ops rs name INT32_MIN out) (\<lambda>(_, v, i, ty).
             checked dbg int_columns ty (Some (UInt32 v), i))
         | TYPE_STRING \<Rightarrow>
             bindR (GetFieldString haslog ops rs name None out) (\<lambda>(_, scratch, i, ty).
             checked dbg (types [MYSQL_TYPE_VARCHAR, MYSQL_TYPE_STRING]) ty (Some (Str_Val (the_str scratch)), i))
         | TYPE_BYTES \<Rightarrow>
             bindR (GetFieldBlob haslog ops rs name None out) (\<lambda>(_, blob, i, ty).
             checked dbg (types [MYSQL_TYPE_BLOB, MYSQL_TYPE_VAR_STRING]) ty (Some (Str_Val (the_str blob)), i))
         | TYPE_DOUBLE \<Rightarrow>
             bindR (GetFieldDoubleValue haslog ops rs name (c_dbl_min ops) out) (\<lambda>(_, v, i, ty).
             checked dbg (types [MYSQL_TYPE_DOUBLE]) ty (Some (Double v), i))
         | TYPE_FLOAT \<Rightarrow>
             bindR (GetFieldFloatValue haslog ops rs name (c_flt_min ops) out) (\<lambda>(_, v, i, ty).
             checked dbg (types [MYSQL_TYPE_FLOAT]) ty (Some (Float v), i))
         | TYPE_BOOL \<Rightarrow>
             bindR (GetFieldInt haslog ops rs name INT32_MIN out) (\<lambda>(_, v, i, ty).
             checked dbg int_columns ty (Some (Bool (v \<noteq> 0)), i))
         | _ \<Rightarrow> Inr (None, nFieldIndex))"

definition set_value :: "'f pb_scalar option \<Rightarrow> 'f pb_field \<Rightarrow> 'f pb_field res" where
  "set_value x fd = (case x of None \<Rightarrow> Inr fd | Some x \<Rightarrow> set_scalar x fd)"

text \<open>
  \<open>arrIndex[nIndex++] = nFieldIndex\<close> on a \<open>std::array<int, 256>\<close>. A submessage takes a slot too,
  behind the slots of its fields, and has its own \<open>nFieldIndex\<close>.
\<close>

function AddFirstReturnRecord ::
  "bool \<Rightarrow> bool \<Rightarrow> ('c, 'f) cell_ops \<Rightarrow> 'c rset \<Rightarrow> nat \<Rightarrow> 'f pb_message \<Rightarrow> nat list \<Rightarrow> nat \<Rightarrow>
    ('f pb_message \<times> nat list \<times> nat) res" where
  "AddFirstReturnRecord dbg haslog ops rs nFieldIndex [] arrIndex nIndex = Inr ([], arrIndex, nIndex)"
| "AddFirstReturnRecord dbg haslog ops rs nFieldIndex (Field name t r h v # fs) arrIndex nIndex =
     (if r then
        bindR (AddFirstReturnRecord dbg haslog ops rs nFieldIndex fs arrIndex nIndex) (\<lambda>(fs, out).
        Inr (Field name t r h v # fs, out))
      else if t = TYPE_MESSAGE then
        (case v of
           Submessage sub \<Rightarrow>
             bindR (AddFirstReturnRecord dbg haslog ops rs 0 sub arrIndex nIndex) (\<lambda>(sub, arrIndex, nIndex).
             bindR (wr arrIndex nIndex nFieldIndex) (\<lambda>arrIndex.
             bindR (AddFirstReturnRecord dbg haslog ops rs nFieldIndex fs arrIndex (Suc nIndex)) (\<lambda>(fs, out).
             Inr (Field name t r True (Submessage sub) # fs, out))))
         | Scalar _ \<Rightarrow> Inl Usage_Error)
      else
        bindR (first_value dbg haslog ops rs t name nFieldIndex) (\<lambda>(x, nFieldIndex).
        bindR (set_value x (Field name t r h v)) (\<lambda>fd.
        bindR (wr arrIndex nIndex nFieldIndex) (\<lambda>arrIndex.
        bindR (AddFirstReturnRecord dbg haslog ops rs nFieldIndex fs arrIndex (Suc nIndex)) (\<lambda>(fs, out).
        Inr (fd # fs, out))))))"
  by pat_completeness auto
termination by (relation "measure (\<lambda>(_, _, _, _, _, fs, _). message_size fs)") auto

text \<open>The \<open>switch\<close> of \<open>AddReturnRecord\<close>; the slot is read for the types that are read.\<close>

definition next_value ::
  "('c, 'f) cell_ops \<Rightarrow> 'c rset \<Rightarrow> pb_type \<Rightarrow> nat list \<Rightarrow> nat \<Rightarrow> 'f pb_scalar option res" where
  "next_value ops rs t arrIndex nIndex =
     (let the_str = (\<lambda>s. case s of None \<Rightarrow> [] | Some s \<Rightarrow> s)
      in case t of
           TYPE_SFIXED64 \<Rightarrow> bindR (rd arrIndex nIndex) (\<lambda>i. bindR (GetFieldTime_at ops rs i) (\<lambda>v. Inr (Some (Int64 v))))
         | TYPE_FIXED64 \<Rightarrow> bindR (rd arrIndex nIndex) (\<lambda>i. bindR (GetFieldInt64Value_at ops rs i) (\<lambda>v. Inr (Some (Int64 v))))
         | TYPE_INT64 \<Rightarrow> bindR (rd arrIndex nIndex) (\<lambda>i. bindR (GetFieldInt64Value_at ops rs i) (\<lambda>v. Inr (Some (Int64 v))))
         | TYPE_UINT64 \<Rightarrow> bindR (rd arrIndex nIndex) (\<lambda>i. bindR (GetFieldInt64Value_at ops rs i) (\<lambda>v. Inr (Some (UInt64 v))))
         | TYPE_FIXED32 \<Rightarrow> bindR (rd arrIndex nIndex) (\<lambda>i. bindR (GetFieldInt_at ops rs i) (\<lambda>v. Inr (Some (Int32 v))))
         | TYPE_INT32 \<Rightarrow> bindR (rd arrIndex nIndex) (\<lambda>i. bindR (GetFieldInt_at ops rs i) (\<lambda>v. Inr (Some (Int32 v))))
         | TYPE_UINT32 \<Rightarrow> bindR (rd arrIndex nIndex) (\<lambda>i. bindR (GetFieldInt_at ops rs i) (\<lambda>v. Inr (Some (UInt32 v))))
         | TYPE_STRING \<Rightarrow>
             bindR (rd arrIndex nIndex) (\<lambda>i. bindR (GetFieldString_at ops rs i) (\<lambda>s. Inr (Some (Str_Val (the_str s)))))
         | TYPE_BYTES \<Rightarrow>
             bindR (rd arrIndex nIndex) (\<lambda>i. bindR (GetFieldBlob_at ops rs i) (\<lambda>s. Inr (Some (Str_Val (the_str s)))))
         | TYPE_DOUBLE \<Rightarrow> bindR (rd arrIndex nIndex) (\<lambda>i. bindR (GetFieldDoubleValue_at ops rs i) (\<lambda>v. Inr (Some (Double v))))
         | TYPE_FLOAT \<Rightarrow> bindR (rd arrIndex nIndex) (\<lambda>i. bindR (GetFieldFloatValue_at ops rs i) (\<lambda>v. Inr (Some (Float v))))
         | TYPE_BOOL \<Rightarrow>
             bindR (rd arrIndex nIndex) (\<lambda>i. bindR (GetFieldInt_at ops rs i) (\<lambda>v. Inr (Some (Bool (v \<noteq> 0)))))
         | _ \<Rightarrow> Inr None)"

function AddReturnRecord ::
  "('c, 'f) cell_ops \<Rightarrow> 'c rset \<Rightarrow> 'f pb_message \<Rightarrow> nat list \<Rightarrow> nat \<Rightarrow> ('f pb_message \<times> nat) res" where
  "AddReturnRecord ops rs [] arrIndex nIndex = Inr ([], nIndex)"
| "AddReturnRecord ops rs (Field name t r h v # fs) arrIndex nIndex =
     (if r then
        bindR (AddReturnRecord ops rs fs arrIndex nIndex) (\<lambda>(fs, out). Inr (Field name t r h v # fs, out))
      else if t = TYPE_MESSAGE then
        (case v of
           Submessage sub \<Rightarrow>
             bindR (AddReturnRecord ops rs sub arrIndex nIndex) (\<lambda>(sub, nIndex).
             bindR (AddReturnRecord ops rs fs arrIndex (Suc nIndex)) (\<lambda>(fs, out).
             Inr (Field name t r True (Submessage sub) # fs, out)))
         | Scalar _ \<Rightarrow> Inl Usage_Error)
      else
        bindR (next_value ops rs t arrIndex nIndex) (\<lambda>x.
        bindR (set_value x (Field name t r h v)) (\<lambda>fd.
        bindR (AddReturnRecord ops rs fs arrIndex (Suc nIndex)) (\<lambda>(fs, out).
        Inr (fd # fs, out)))))"
  by pat_completeness auto
termination by (relation "measure (\<lambda>(_, _, fs, _). message_size fs)") auto

section \<open>All rows\<close>

text \<open>
  The loops over the rows. \<open>sink\<close> takes the record after each row: it is serialized into the
  result of a query, or it is a new message of the list of records.
\<close>

lemma MoveNext_rows: "MoveNext rs = Inr (True, rs') \<Longrightarrow> length (s_rows rs') < length (s_rows rs)"
  by (auto simp: MoveNext_def split: list.splits if_splits)

text \<open>\<open>ParseEntityResult\<close> fills the same record again for every row.\<close>

function entity_rows ::
  "('c, 'f) cell_ops \<Rightarrow> ('f pb_message \<Rightarrow> string) \<Rightarrow> 'c rset \<Rightarrow> 'f pb_message \<Rightarrow> nat list \<Rightarrow> string list \<Rightarrow>
    (string list \<times> 'f pb_message \<times> 'c rset) res" where
  "entity_rows ops SerializeAsString rs record arrIndex vResult =
     (case MoveNext rs of
        Inl e \<Rightarrow> Inl e
      | Inr (False, rs) \<Rightarrow> Inr (vResult, record, rs)
      | Inr (True, rs) \<Rightarrow>
          bindR (AddReturnRecord ops rs record arrIndex 0) (\<lambda>(record, _).
          entity_rows ops SerializeAsString rs record arrIndex (vResult @ [SerializeAsString record])))"
  by pat_completeness auto
termination
  by (relation "measure (\<lambda>(_, _, rs, _). length (s_rows rs))") (auto dest: MoveNext_rows)

declare entity_rows.simps [simp del]

definition ParseEntityResult ::
  "bool \<Rightarrow> bool \<Rightarrow> ('c, 'f) cell_ops \<Rightarrow> ('f pb_message \<Rightarrow> string) \<Rightarrow> 'c rset \<Rightarrow> string list \<Rightarrow> 'f pb_message \<Rightarrow>
    (string list \<times> 'f pb_message \<times> 'c rset) res" where
  "ParseEntityResult dbg haslog ops SerializeAsString rs vResult record =
     (let arrIndex = replicate 256 0
      in bindR (MoveNext rs) (\<lambda>(found, rs).
         bindR (if found then
                  bindR (AddFirstReturnRecord dbg haslog ops rs 0 record arrIndex 0) (\<lambda>(record, arrIndex, _).
                  Inr (record, arrIndex, vResult @ [SerializeAsString record]))
                else Inr (record, arrIndex, vResult)) (\<lambda>(record, arrIndex, vResult).
         entity_rows ops SerializeAsString rs record arrIndex vResult)))"

text \<open>
  \<open>ParseProcResult\<close> adds a message to the repeated field for every row; \<open>proto\<close> is the empty
  message \<open>AddMessage\<close> adds.
\<close>

function proc_rows ::
  "('c, 'f) cell_ops \<Rightarrow> 'f pb_message \<Rightarrow> 'c rset \<Rightarrow> nat list \<Rightarrow> 'f pb_message list \<Rightarrow>
    ('f pb_message list \<times> 'c rset) res" where
  "proc_rows ops proto rs arrIndex records =
     (case MoveNext rs of
        Inl e \<Rightarrow> Inl e
      | Inr (False, rs) \<Rightarrow> Inr (records, rs)
      | Inr (True, rs) \<Rightarrow>
          bindR (AddReturnRecord ops rs proto arrIndex 0) (\<lambda>(one_record, _).
          proc_rows ops proto rs arrIndex (records @ [one_record])))"
  by pat_completeness auto
termination
  by (relation "measure (\<lambda>(_, _, rs, _). length (s_rows rs))") (auto dest: MoveNext_rows)

declare proc_rows.simps [simp del]

definition ParseProcResult ::
  "bool \<Rightarrow> bool \<Rightarrow> ('c, 'f) cell_ops \<Rightarrow> 'f pb_message \<Rightarrow> 'c rset \<Rightarrow> 'f pb_message list \<Rightarrow>
    ('f pb_message list \<times> 'c rset) res" where
  "ParseProcResult dbg haslog ops proto rs records =
     (let arrIndex = replicate 256 0
      in bindR (MoveNext rs) (\<lambda>(found, rs).
         bindR (if found then
                  bindR (AddFirstReturnRecord dbg haslog ops rs 0 proto arrIndex 0) (\<lambda>(one_record, arrIndex, _).
                  Inr (arrIndex, records @ [one_record]))
                else Inr (arrIndex, records)) (\<lambda>(arrIndex, records).
         proc_rows ops proto rs arrIndex records)))"

section \<open>What is loaded\<close>

text \<open>The value of a field from the cell of its column; the types without one are not read.\<close>

fun cell_value :: "('c, 'f) cell_ops \<Rightarrow> pb_type \<Rightarrow> 'c \<Rightarrow> 'f pb_scalar option" where
  "cell_value ops TYPE_SFIXED64 c = Some (Int64 (c_time ops c))"
| "cell_value ops TYPE_INT64 c = Some (Int64 (c_llong ops c))"
| "cell_value ops TYPE_UINT64 c = Some (UInt64 (c_llong ops c))"
| "cell_value ops TYPE_INT32 c = Some (Int32 (c_int ops c))"
| "cell_value ops TYPE_UINT32 c = Some (UInt32 (c_int ops c))"
| "cell_value ops TYPE_STRING c = Some (Str_Val (case c_string ops c of None \<Rightarrow> [] | Some s \<Rightarrow> s))"
| "cell_value ops TYPE_BYTES c = Some (Str_Val (case c_blob ops c of None \<Rightarrow> [] | Some s \<Rightarrow> s))"
| "cell_value ops TYPE_DOUBLE c = Some (Double (c_double ops c))"
| "cell_value ops TYPE_FLOAT c = Some (Float (c_float ops c))"
| "cell_value ops TYPE_BOOL c = Some (Bool (c_int ops c \<noteq> 0))"
| "cell_value ops _ c = None"

definition is_read :: "pb_type \<Rightarrow> bool" where
  "is_read t \<longleftrightarrow>
     t \<in> {TYPE_SFIXED64, TYPE_INT64, TYPE_UINT64, TYPE_INT32, TYPE_UINT32, TYPE_STRING, TYPE_BYTES,
          TYPE_DOUBLE, TYPE_FLOAT, TYPE_BOOL}"

lemma cell_value_None: "cell_value ops t c = None \<longleftrightarrow> \<not> is_read t"
  by (cases t) (simp_all add: is_read_def)

lemma cell_value_Some: "cell_value ops t c = Some x \<Longrightarrow> is_read t"
  using cell_value_None [of ops t c] by simp

definition named_cell :: "(string \<times> nat) list \<Rightarrow> 'c list \<Rightarrow> string \<Rightarrow> 'c" where
  "named_cell cols row name = row ! (the (col_index name cols) - 1)"

text \<open>A record with the values of a row: the singular fields that are read, submessages included.\<close>

function load :: "('c, 'f) cell_ops \<Rightarrow> (string \<times> nat) list \<Rightarrow> 'c list \<Rightarrow> 'f pb_message \<Rightarrow> 'f pb_message" where
  "load ops cols row [] = []"
| "load ops cols row (Field name t r h v # fs) =
     (if r then Field name t r h v
      else if t = TYPE_MESSAGE then
        (case v of
           Submessage sub \<Rightarrow> Field name t r True (Submessage (load ops cols row sub))
         | Scalar x \<Rightarrow> Field name t r h v)
      else case cell_value ops t (named_cell cols row name) of
             Some x \<Rightarrow> Field name t r True (Scalar x)
           | None \<Rightarrow> Field name t r h v) # load ops cols row fs"
  by pat_completeness auto
termination by (relation "measure (\<lambda>(_, _, _, fs). message_size fs)") auto

text \<open>
  A record that fits the columns: every field that is read has a column with its name, and in the
  debug build the column has one of the types the field is compared with.
\<close>

fun debug_types :: "pb_type \<Rightarrow> nat set" where
  "debug_types TYPE_SFIXED64 = field_type_code ` {MYSQL_TYPE_DATETIME, MYSQL_TYPE_DATE}"
| "debug_types TYPE_STRING = field_type_code ` {MYSQL_TYPE_VARCHAR, MYSQL_TYPE_STRING}"
| "debug_types TYPE_BYTES = field_type_code ` {MYSQL_TYPE_BLOB, MYSQL_TYPE_VAR_STRING}"
| "debug_types TYPE_DOUBLE = field_type_code ` {MYSQL_TYPE_DOUBLE}"
| "debug_types TYPE_FLOAT = field_type_code ` {MYSQL_TYPE_FLOAT}"
| "debug_types TYPE_INT64 = field_type_code ` {MYSQL_TYPE_LONGLONG}"
| "debug_types TYPE_UINT64 = field_type_code ` {MYSQL_TYPE_LONGLONG}"
| "debug_types _ = int_columns"

definition column_ok :: "bool \<Rightarrow> (string \<times> nat) list \<Rightarrow> pb_type \<Rightarrow> string \<Rightarrow> bool" where
  "column_ok dbg cols t name =
     (case col_index name cols of
        None \<Rightarrow> False
      | Some i \<Rightarrow> dbg \<longrightarrow> snd (cols ! (i - 1)) \<in> debug_types t)"

function record_ok :: "bool \<Rightarrow> (string \<times> nat) list \<Rightarrow> 'f pb_message \<Rightarrow> bool" where
  "record_ok dbg cols [] = True"
| "record_ok dbg cols (Field name t r h v # fs) =
     ((r \<or> (if t = TYPE_MESSAGE then (case v of Submessage sub \<Rightarrow> record_ok dbg cols sub | Scalar _ \<Rightarrow> False)
            else t \<noteq> TYPE_FIXED64 \<and> t \<noteq> TYPE_FIXED32 \<and> (is_read t \<longrightarrow> column_ok dbg cols t name))) \<and>
      record_ok dbg cols fs)"
  by pat_completeness auto
termination by (relation "measure (\<lambda>(_, _, fs). message_size fs)") auto

text \<open>The column indices the first row leaves, one for every singular field.\<close>

function slots :: "(string \<times> nat) list \<Rightarrow> nat \<Rightarrow> 'f pb_message \<Rightarrow> nat list" where
  "slots cols i [] = []"
| "slots cols i (Field name t r h v # fs) =
     (if r then slots cols i fs
      else if t = TYPE_MESSAGE then
        (case v of Submessage sub \<Rightarrow> slots cols 0 sub | Scalar _ \<Rightarrow> []) @ i # slots cols i fs
      else let i = (if is_read t then the (col_index name cols) else i) in i # slots cols i fs)"
  by pat_completeness auto
termination by (relation "measure (\<lambda>(_, _, fs). message_size fs)") auto

lemma first_value_found:
  assumes "is_read t" "column_ok dbg (s_cols rs) t name"
  shows "first_value dbg lg ops rs t name i =
    Inr (cell_value ops t (named_cell (s_cols rs) (s_row rs) name), the (col_index name (s_cols rs)))"
proof -
  obtain j where j: "col_index name (s_cols rs) = Some j" "dbg \<longrightarrow> snd (s_cols rs ! (j - 1)) \<in> debug_types t"
    using assms(2) by (auto simp: column_ok_def split: option.splits)
  show ?thesis
    using assms(1) j by (cases t) (auto simp: is_read_def first_value_def get_field_defs by_name_def checked_def
        named_cell_def Let_def)
qed

lemma first_value_skipped:
  "\<not> is_read t \<Longrightarrow> t \<noteq> TYPE_FIXED64 \<Longrightarrow> t \<noteq> TYPE_FIXED32 \<Longrightarrow> first_value dbg lg ops rs t name i = Inr (None, i)"
  by (cases t) (simp_all add: is_read_def first_value_def Let_def)

lemma next_value_found:
  assumes "is_read t" "column_ok dbg (s_cols rs) t name" "n < length arr" "arr ! n = the (col_index name (s_cols rs))"
  shows "next_value ops rs t arr n = Inr (cell_value ops t (named_cell (s_cols rs) (s_row rs) name))"
proof -
  obtain j where j: "col_index name (s_cols rs) = Some j" using assms(2) by (auto simp: column_ok_def split: option.splits)
  show ?thesis
    using assms by (cases t) (simp_all add: is_read_def next_value_def get_field_defs by_index_found [OF j] j
        named_cell_def Let_def)
qed

lemma next_value_skipped:
  "\<not> is_read t \<Longrightarrow> t \<noteq> TYPE_FIXED64 \<Longrightarrow> t \<noteq> TYPE_FIXED32 \<Longrightarrow> next_value ops rs t arr n = Inr None"
  by (cases t) (simp_all add: is_read_def next_value_def Let_def)

lemma set_value_cell:
  "set_value (cell_value ops t c) (Field name t r h v) =
    Inr (case cell_value ops t c of Some x \<Rightarrow> Field name t r True (Scalar x) | None \<Rightarrow> Field name t r h v)"
  by (cases t) (simp_all add: set_value_def set_scalar_def)

lemma set_value_None [simp]: "set_value None fd = Inr fd"
  by (simp add: set_value_def)

lemma take_slot:
  assumes "take (Suc b) (drop n arr) = j # ys"
  shows "n < length arr" "arr ! n = j" "take b (drop (Suc n) arr) = ys"
proof -
  have "drop n arr \<noteq> []" using assms by auto
  then show n: "n < length arr" by simp
  show "arr ! n = j" "take b (drop (Suc n) arr) = ys"
    using assms Cons_nth_drop_Suc [OF n, symmetric] by simp_all
qed

lemma overwrite_slots:
  "n < length arr \<Longrightarrow> overwrite (Suc n) ys (overwrite n [i] arr) = overwrite n (i # ys) arr"
  "n + length xs < length arr \<Longrightarrow>
    overwrite (Suc (n + length xs)) ys (overwrite (n + length xs) [i] (overwrite n xs arr)) = overwrite n (xs @ i # ys) arr"
  using overwrite_overwrite [of n "[i]" arr ys] overwrite_overwrite [of n xs arr "[i]"]
    overwrite_overwrite [of n "xs @ [i]" arr ys]
  by simp_all

text \<open>A singular field that is not a message.\<close>

definition leaf_slot :: "(string \<times> nat) list \<Rightarrow> nat \<Rightarrow> pb_type \<Rightarrow> string \<Rightarrow> nat" where
  "leaf_slot cols i t name = (if is_read t then the (col_index name cols) else i)"

lemma first_leaf:
  assumes "\<not> r" "t \<noteq> TYPE_MESSAGE" "record_ok dbg (s_cols rs) (Field name t r h v # fs)" "n < length arr"
    "j = leaf_slot (s_cols rs) i t name"
  shows "AddFirstReturnRecord dbg lg ops rs i (Field name t r h v # fs) arr n =
    bindR (AddFirstReturnRecord dbg lg ops rs j fs (overwrite n [j] arr) (Suc n)) (\<lambda>(fs, out).
    Inr (load ops (s_cols rs) (s_row rs) [Field name t r h v] @ fs, out))"
proof (cases "is_read t")
  case True
  then show ?thesis
    using assms by (simp add: first_value_found set_value_cell wr_overwrite leaf_slot_def split: option.splits del: wr_simps)
next
  case False
  then have "cell_value ops t c = None" for c by (simp add: cell_value_None)
  then show ?thesis
    using assms False by (simp add: first_value_skipped wr_overwrite leaf_slot_def del: wr_simps)
qed

lemma next_leaf:
  assumes "\<not> r" "t \<noteq> TYPE_MESSAGE" "record_ok dbg (s_cols rs) (Field name t r h v # fs)" "n < length arr"
    "arr ! n = leaf_slot (s_cols rs) i t name"
  shows "AddReturnRecord ops rs (Field name t r h v # fs) arr n =
    bindR (AddReturnRecord ops rs fs arr (Suc n)) (\<lambda>(fs, out).
    Inr (load ops (s_cols rs) (s_row rs) [Field name t r h v] @ fs, out))"
proof (cases "is_read t")
  case True
  then show ?thesis
    using assms next_value_found [OF True _ assms(4), where dbg = dbg and ops = ops and rs = rs and name = name]
    by (simp add: set_value_cell leaf_slot_def split: option.splits)
next
  case False
  then have "cell_value ops t c = None" for c by (simp add: cell_value_None)
  then show ?thesis
    using assms False by (simp add: next_value_skipped leaf_slot_def)
qed

lemma slots_leaf:
  "\<not> r \<Longrightarrow> t \<noteq> TYPE_MESSAGE \<Longrightarrow>
    slots cols i (Field name t r h v # fs) = leaf_slot cols i t name # slots cols (leaf_slot cols i t name) fs"
  "\<not> r \<Longrightarrow> t \<noteq> TYPE_MESSAGE \<Longrightarrow>
    load ops cols row (Field name t r h v # fs) = load ops cols row [Field name t r h v] @ load ops cols row fs"
  by (simp_all add: leaf_slot_def Let_def)

text \<open>The first row is read by name, and every singular field leaves its slot.\<close>

lemma AddFirstReturnRecord_load:
  assumes "record_ok dbg (s_cols rs) fs" "n + length (slots (s_cols rs) i fs) \<le> length arr"
  shows "AddFirstReturnRecord dbg lg ops rs i fs arr n =
    Inr (load ops (s_cols rs) (s_row rs) fs, overwrite n (slots (s_cols rs) i fs) arr,
         n + length (slots (s_cols rs) i fs))"
  using assms
proof (induction "message_size fs" arbitrary: fs n i arr rule: less_induct)
  case less
  show ?case
  proof (cases fs)
    case (Cons fd fs')
    obtain name t r h v where fd: "fd = Field name t r h v" by (cases fd)
    consider "r" | sub where "\<not> r" "t = TYPE_MESSAGE" "v = Submessage sub" | "\<not> r" "t \<noteq> TYPE_MESSAGE"
      using less.prems(1) Cons fd by (cases v) (auto split: if_splits)
    then show ?thesis
    proof cases
      case 1
      then show ?thesis using less.hyps [of fs' n i arr] less.prems Cons fd by simp
    next
      case 2
      then show ?thesis
        using less.hyps [of sub n 0 arr] less.hyps [of fs' "Suc (n + length (slots (s_cols rs) 0 sub))" i] less.prems Cons fd
          overwrite_overwrite [of n "slots (s_cols rs) 0 sub" arr "i # slots (s_cols rs) i fs'"]
        by (simp add: wr_overwrite overwrite_slots(1) del: wr_simps)
    next
      case 3
      let ?j = "leaf_slot (s_cols rs) i t name"
      have n: "Suc n + length (slots (s_cols rs) ?j fs') \<le> length arr"
        using less.prems(2) unfolding Cons fd slots_leaf(1) [OF 3] by simp
      have "AddFirstReturnRecord dbg lg ops rs ?j fs' (overwrite n [?j] arr) (Suc n) =
          Inr (load ops (s_cols rs) (s_row rs) fs',
            overwrite (Suc n) (slots (s_cols rs) ?j fs') (overwrite n [?j] arr), Suc n + length (slots (s_cols rs) ?j fs'))"
        by (rule less.hyps) (use less.prems(1) Cons fd n in simp_all)
      moreover have "AddFirstReturnRecord dbg lg ops rs i fs arr n =
          bindR (AddFirstReturnRecord dbg lg ops rs ?j fs' (overwrite n [?j] arr) (Suc n)) (\<lambda>(fs, out).
          Inr (load ops (s_cols rs) (s_row rs) [Field name t r h v] @ fs, out))"
        unfolding Cons fd by (rule first_leaf [OF 3]) (use less.prems(1) Cons fd n in simp_all)
      ultimately show ?thesis
        using n unfolding Cons fd slots_leaf(1) [OF 3] slots_leaf(2) [OF 3, where fs = fs']
        by (simp add: overwrite_slots)
    qed
  qed simp
qed

text \<open>More singular fields than slots: the store behind the last slot is out of bounds.\<close>

lemma first_leaf_full:
  assumes "\<not> r" "t \<noteq> TYPE_MESSAGE" "record_ok dbg (s_cols rs) (Field name t r h v # fs)"
  shows "AddFirstReturnRecord dbg lg ops rs i (Field name t r h v # fs) arr (length arr) = Inl Write_Out_Of_Bounds"
proof (cases "is_read t")
  case True
  then show ?thesis using assms by (simp add: first_value_found set_value_cell split: option.splits)
next
  case False
  then show ?thesis using assms by (simp add: first_value_skipped)
qed

lemma AddFirstReturnRecord_full:
  assumes "record_ok dbg (s_cols rs) fs" "n \<le> length arr" "length arr < n + length (slots (s_cols rs) i fs)"
  shows "AddFirstReturnRecord dbg lg ops rs i fs arr n = Inl Write_Out_Of_Bounds"
  using assms
proof (induction "message_size fs" arbitrary: fs n i arr rule: less_induct)
  case less
  show ?case
  proof (cases fs)
    case (Cons fd fs')
    obtain name t r h v where fd: "fd = Field name t r h v" by (cases fd)
    consider "r" | sub where "\<not> r" "t = TYPE_MESSAGE" "v = Submessage sub" | "\<not> r" "t \<noteq> TYPE_MESSAGE"
      using less.prems(1) Cons fd by (cases v) (auto split: if_splits)
    then show ?thesis
    proof cases
      case 1
      then show ?thesis using less.hyps [of fs' n arr i] less.prems Cons fd by simp
    next
      case 2
      let ?k = "n + length (slots (s_cols rs) 0 sub)"
      have sub: "record_ok dbg (s_cols rs) sub" "record_ok dbg (s_cols rs) fs'" using less.prems(1) Cons fd 2 by simp_all
      show ?thesis
      proof (cases "?k \<le> length arr")
        case True
        then have "AddFirstReturnRecord dbg lg ops rs i fs' (overwrite n (slots (s_cols rs) 0 sub @ [i]) arr) (Suc ?k) =
            Inl Write_Out_Of_Bounds" if "?k < length arr"
          by (intro less.hyps) (use that less.prems Cons fd 2 in simp_all)
        then show ?thesis
          using AddFirstReturnRecord_load [OF sub(1) True] Cons fd 2 True
            overwrite_overwrite [of n "slots (s_cols rs) 0 sub" arr "[i]"]
          by (cases "?k < length arr") (simp_all add: wr_overwrite del: wr_simps(1))
      next
        case False
        then show ?thesis using less.hyps [of sub n arr 0] less.prems Cons fd 2 by simp
      qed
    next
      case 3
      let ?j = "leaf_slot (s_cols rs) i t name"
      show ?thesis
      proof (cases "n < length arr")
        case True
        have "length arr < Suc n + length (slots (s_cols rs) ?j fs')"
          using less.prems(3) unfolding Cons fd slots_leaf(1) [OF 3] by simp
        then have "AddFirstReturnRecord dbg lg ops rs ?j fs' (overwrite n [?j] arr) (Suc n) = Inl Write_Out_Of_Bounds"
          by (intro less.hyps) (use True less.prems Cons fd in simp_all)
        then show ?thesis
          unfolding Cons fd first_leaf [OF 3 less.prems(1) [unfolded Cons fd] True refl] by simp
      next
        case False
        then have "n = length arr" using less.prems(2) by simp
        then show ?thesis unfolding Cons fd by (simp only: first_leaf_full [OF 3 less.prems(1) [unfolded Cons fd]])
      qed
    qed
  qed (use less.prems in simp)
qed

text \<open>A later row is read through the slots, with the same result as by name.\<close>

lemma AddReturnRecord_load:
  assumes "record_ok dbg (s_cols rs) fs" "take (length (slots (s_cols rs) i fs)) (drop n arr) = slots (s_cols rs) i fs"
  shows "AddReturnRecord ops rs fs arr n =
    Inr (load ops (s_cols rs) (s_row rs) fs, n + length (slots (s_cols rs) i fs))"
  using assms
proof (induction "message_size fs" arbitrary: fs n i rule: less_induct)
  case less
  show ?case
  proof (cases fs)
    case (Cons fd fs')
    obtain name t r h v where fd: "fd = Field name t r h v" by (cases fd)
    consider "r" | sub where "\<not> r" "t = TYPE_MESSAGE" "v = Submessage sub" | "\<not> r" "t \<noteq> TYPE_MESSAGE"
      using less.prems(1) Cons fd by (cases v) (auto split: if_splits)
    then show ?thesis
    proof cases
      case 1
      then show ?thesis using less.hyps [of fs' i n] less.prems Cons fd by simp
    next
      case 2
      let ?a = "length (slots (s_cols rs) 0 sub)" and ?b = "length (slots (s_cols rs) i fs')"
      have s: "take (?a + Suc ?b) (drop n arr) = slots (s_cols rs) 0 sub @ i # slots (s_cols rs) i fs'"
        using less.prems(2) Cons fd 2 by simp
      have "take ?a (drop n arr) @ take (Suc ?b) (drop (n + ?a) arr) = slots (s_cols rs) 0 sub @ i # slots (s_cols rs) i fs'"
        using s by (simp only: take_add drop_drop add.commute)
      moreover have "length (take ?a (drop n arr)) = ?a"
        using arg_cong [OF s, of length] by simp
      ultimately have "take ?a (drop n arr) = slots (s_cols rs) 0 sub" "take (Suc ?b) (drop (n + ?a) arr) = i # slots (s_cols rs) i fs'"
        by (simp_all add: append_eq_append_conv)
      then show ?thesis
        using less.hyps [of sub 0 n] less.hyps [of fs' i "Suc (n + ?a)"] take_slot(3) [of ?b "n + ?a" arr] less.prems(1) Cons fd 2
        by simp
    next
      case 3
      let ?j = "leaf_slot (s_cols rs) i t name"
      have s: "take (Suc (length (slots (s_cols rs) ?j fs'))) (drop n arr) = ?j # slots (s_cols rs) ?j fs'"
        using less.prems(2) unfolding Cons fd slots_leaf(1) [OF 3] by simp
      have "AddReturnRecord ops rs fs' arr (Suc n) =
          Inr (load ops (s_cols rs) (s_row rs) fs', Suc n + length (slots (s_cols rs) ?j fs'))"
        by (rule less.hyps) (use less.prems(1) Cons fd take_slot(3) [OF s] in simp_all)
      moreover have "AddReturnRecord ops rs fs arr n = bindR (AddReturnRecord ops rs fs' arr (Suc n)) (\<lambda>(fs, out).
          Inr (load ops (s_cols rs) (s_row rs) [Field name t r h v] @ fs, out))"
        unfolding Cons fd by (rule next_leaf [OF 3]) (use less.prems(1) Cons fd take_slot(1,2) [OF s] in simp_all)
      ultimately show ?thesis
        unfolding Cons fd slots_leaf(1) [OF 3] slots_leaf(2) [OF 3, where fs = fs'] by simp
    qed
  qed simp
qed

lemma load_shape [simp]:
  "slots cols i (load ops cols' row fs) = slots cols i fs"
  "record_ok dbg cols (load ops cols' row fs) = record_ok dbg cols fs"
  "load ops cols row' (load ops cols row fs) = load ops cols row' fs"
proof -
  show "slots cols i (load ops cols' row fs) = slots cols i fs"
    by (induction fs arbitrary: i rule: message_induct) (auto simp: Let_def split: option.splits)
  show "record_ok dbg cols (load ops cols' row fs) = record_ok dbg cols fs"
    by (induction fs rule: message_induct) (auto simp: cell_value_None dest: cell_value_Some split: option.splits)
  show "load ops cols row' (load ops cols row fs) = load ops cols row' fs"
    by (induction fs rule: message_induct) (auto simp: cell_value_None dest: cell_value_Some split: option.splits)
qed

section \<open>The rows of a result\<close>

text \<open>The slots of the first row, as the later rows find them.\<close>

definition holds_slots :: "nat list \<Rightarrow> (string \<times> nat) list \<Rightarrow> 'f pb_message \<Rightarrow> bool" where
  "holds_slots arr cols fs \<longleftrightarrow> take (length (slots cols 0 fs)) arr = slots cols 0 fs"

lemma holds_slots_first:
  "length (slots cols 0 fs) \<le> 256 \<Longrightarrow> holds_slots (overwrite 0 (slots cols 0 fs) (replicate 256 0)) cols fs"
  by (simp add: holds_slots_def overwrite_def)

lemma MoveNext_Cons:
  "s_rows rs = r # rows \<Longrightarrow> MoveNext rs = Inr (True, rs\<lparr>s_row := r, s_rows := rows\<rparr>)"
  "s_rows rs = [] \<Longrightarrow> \<not> s_broken rs \<Longrightarrow> MoveNext rs = Inr (False, rs)"
  by (simp_all add: MoveNext_def)

text \<open>The record after the rows: that of the last one.\<close>

definition last_load :: "('c, 'f) cell_ops \<Rightarrow> (string \<times> nat) list \<Rightarrow> 'c list list \<Rightarrow> 'f pb_message \<Rightarrow> 'f pb_message" where
  "last_load ops cols rows fs = (if rows = [] then fs else load ops cols (last rows) fs)"

lemma entity_rows_load:
  assumes "record_ok dbg (s_cols rs) fs" "holds_slots arr (s_cols rs) fs" "\<not> s_broken rs"
  shows "\<exists>rs'. entity_rows ops ser rs fs arr v =
    Inr (v @ map (\<lambda>row. ser (load ops (s_cols rs) row fs)) (s_rows rs), last_load ops (s_cols rs) (s_rows rs) fs, rs')
    \<and> s_opened rs' = s_opened rs"
  using assms
proof (induction "s_rows rs" arbitrary: rs fs v)
  case Nil
  then show ?case by (subst entity_rows.simps) (simp add: MoveNext_Cons last_load_def)
next
  case (Cons r rows)
  let ?rs = "rs\<lparr>s_row := r, s_rows := rows\<rparr>" and ?fs = "load ops (s_cols rs) r fs"
  have row: "AddReturnRecord ops ?rs fs arr 0 = Inr (?fs, length (slots (s_cols rs) 0 fs))"
    using AddReturnRecord_load [of dbg ?rs fs 0 0 arr ops] Cons.prems by (simp add: holds_slots_def)
  obtain rs' where "entity_rows ops ser ?rs ?fs arr (v @ [ser ?fs]) =
      Inr ((v @ [ser ?fs]) @ map (\<lambda>row. ser (load ops (s_cols rs) row ?fs)) rows, last_load ops (s_cols rs) rows ?fs, rs')"
      "s_opened rs' = s_opened rs"
    using Cons.hyps(1) [of ?rs ?fs "v @ [ser ?fs]"] Cons.prems by (auto simp: holds_slots_def)
  moreover have "last_load ops (s_cols rs) rows ?fs = last_load ops (s_cols rs) (r # rows) fs"
    by (simp add: last_load_def)
  moreover have "entity_rows ops ser rs fs arr v = entity_rows ops ser ?rs ?fs arr (v @ [ser ?fs])"
    using row MoveNext_Cons(1) [OF Cons.hyps(2) [symmetric]] by (subst entity_rows.simps) simp
  ultimately show ?case by (simp flip: Cons.hyps(2))
qed

lemma ParseEntityResult_load:
  assumes "record_ok dbg (s_cols rs) fs" "length (slots (s_cols rs) 0 fs) \<le> 256" "\<not> s_broken rs"
  shows "\<exists>rs'. ParseEntityResult dbg lg ops ser rs v fs =
    Inr (v @ map (\<lambda>row. ser (load ops (s_cols rs) row fs)) (s_rows rs), last_load ops (s_cols rs) (s_rows rs) fs, rs')
    \<and> s_opened rs' = s_opened rs"
proof (cases "s_rows rs")
  case Nil
  then show ?thesis
    using assms(3) by (simp add: ParseEntityResult_def entity_rows.simps [of _ _ rs] MoveNext_Cons last_load_def Let_def)
next
  case (Cons r rows)
  let ?rs = "rs\<lparr>s_row := r, s_rows := rows\<rparr>" and ?fs = "load ops (s_cols rs) r fs"
  let ?arr = "overwrite 0 (slots (s_cols rs) 0 fs) (replicate 256 0)"
  have first: "AddFirstReturnRecord dbg lg ops ?rs 0 fs (replicate 256 0) 0 = Inr (?fs, ?arr, length (slots (s_cols rs) 0 fs))"
    using AddFirstReturnRecord_load [of dbg ?rs fs 0 0 "replicate 256 0" lg ops] assms by simp
  obtain rs' where "entity_rows ops ser ?rs ?fs ?arr (v @ [ser ?fs]) =
      Inr ((v @ [ser ?fs]) @ map (\<lambda>row. ser (load ops (s_cols rs) row ?fs)) rows, last_load ops (s_cols rs) rows ?fs, rs')"
      "s_opened rs' = s_opened rs"
    using entity_rows_load [of dbg ?rs ?fs ?arr ops ser "v @ [ser ?fs]"] assms holds_slots_first [OF assms(2)]
    by (auto simp: holds_slots_def)
  moreover have "last_load ops (s_cols rs) rows ?fs = last_load ops (s_cols rs) (r # rows) fs"
    by (simp add: last_load_def)
  ultimately show ?thesis using Cons first MoveNext_Cons(1) [OF Cons] by (simp add: ParseEntityResult_def Let_def)
qed

lemma proc_rows_load:
  assumes "record_ok dbg (s_cols rs) fs" "holds_slots arr (s_cols rs) fs" "\<not> s_broken rs"
  shows "\<exists>rs'. proc_rows ops fs rs arr v = Inr (v @ map (\<lambda>row. load ops (s_cols rs) row fs) (s_rows rs), rs')
    \<and> s_opened rs' = s_opened rs \<and> s_more rs' = s_more rs \<and> s_broken rs' = s_broken rs"
  using assms
proof (induction "s_rows rs" arbitrary: rs v)
  case Nil
  then show ?case by (subst proc_rows.simps) (simp add: MoveNext_Cons)
next
  case (Cons r rows)
  let ?rs = "rs\<lparr>s_row := r, s_rows := rows\<rparr>" and ?fs = "load ops (s_cols rs) r fs"
  have row: "AddReturnRecord ops ?rs fs arr 0 = Inr (?fs, length (slots (s_cols rs) 0 fs))"
    using AddReturnRecord_load [of dbg ?rs fs 0 0 arr ops] Cons.prems by (simp add: holds_slots_def)
  obtain rs' where "proc_rows ops fs ?rs arr (v @ [?fs]) =
      Inr ((v @ [?fs]) @ map (\<lambda>row. load ops (s_cols rs) row fs) rows, rs')"
      "s_opened rs' = s_opened rs" "s_more rs' = s_more rs" "s_broken rs' = s_broken rs"
    using Cons.hyps(1) [of ?rs "v @ [?fs]"] Cons.prems by auto
  moreover have "proc_rows ops fs rs arr v = proc_rows ops fs ?rs arr (v @ [?fs])"
    using row MoveNext_Cons(1) [OF Cons.hyps(2) [symmetric]] by (subst proc_rows.simps) simp
  ultimately show ?case by (simp flip: Cons.hyps(2))
qed

lemma ParseProcResult_load:
  assumes "record_ok dbg (s_cols rs) fs" "length (slots (s_cols rs) 0 fs) \<le> 256" "\<not> s_broken rs"
  shows "\<exists>rs'. ParseProcResult dbg lg ops fs rs v =
    Inr (v @ map (\<lambda>row. load ops (s_cols rs) row fs) (s_rows rs), rs')
    \<and> s_opened rs' = s_opened rs \<and> s_more rs' = s_more rs \<and> s_broken rs' = s_broken rs"
proof (cases "s_rows rs")
  case Nil
  then show ?thesis
    using assms(3) by (simp add: ParseProcResult_def proc_rows.simps [of _ _ rs] MoveNext_Cons Let_def)
next
  case (Cons r rows)
  let ?rs = "rs\<lparr>s_row := r, s_rows := rows\<rparr>" and ?fs = "load ops (s_cols rs) r fs"
  let ?arr = "overwrite 0 (slots (s_cols rs) 0 fs) (replicate 256 0)"
  have "AddFirstReturnRecord dbg lg ops ?rs 0 fs (replicate 256 0) 0 = Inr (?fs, ?arr, length (slots (s_cols rs) 0 fs))"
    using AddFirstReturnRecord_load [of dbg ?rs fs 0 0 "replicate 256 0" lg ops] assms by simp
  then show ?thesis
    using Cons MoveNext_Cons(1) [OF Cons] holds_slots_first [OF assms(2)] assms
      proc_rows_load [of dbg ?rs fs ?arr ops "v @ [?fs]"] by (simp add: ParseProcResult_def Let_def)
qed

end
