(* ===== verification/Db_Engine.thy ===== *)
theory Db_Engine
  imports Db_Params Db_Records
begin

text \<open>
  The operations of \<open>src/src/db/Protobuf2DbEngine.cpp\<close>: opening the database, \<open>ESelect\<close>,
  \<open>EInsert\<close>, \<open>EUpdate\<close>, \<open>EDelete\<close>, \<open>SpQuery\<close> and \<open>SpUpdate\<close>. Each one takes a connection from the
  pool, builds and binds its statement, executes it and, for the queries, reads the rows.

  The outer option is a loop that does not end: None. The inner sum is the fault.
\<close>

section \<open>The library\<close>

text \<open>
  The parts of protobuf and libzdb an operation uses besides the environment of a statement.
  Parsing stores into the message it is given, also when it fails; \<open>l_parse_full\<close> fails when a
  required field is missing, and \<open>l_serialize_partial\<close> writes a message also then. \<open>l_serialize_sp\<close> writes a message together with the records that were
  added to its repeated fields.
\<close>

record ('w, 'f, 'c) lib =
  l_env :: "('w, 'f, 'c) env"
  l_debug :: bool
  l_ops :: "('c, 'f) cell_ops"
  l_serialize :: "'f pb_message \<Rightarrow> string"
  l_serialize_partial :: "'f pb_message \<Rightarrow> string"
  l_serialize_sp :: "'f pb_message \<Rightarrow> (string \<times> 'f pb_message list) list \<Rightarrow> string"
  l_lookup :: "string \<Rightarrow> 'f pb_message option"
  l_clear :: "'f pb_message \<Rightarrow> 'f pb_message"
  l_parse :: "'f pb_message \<Rightarrow> string \<Rightarrow> bool \<times> 'f pb_message"
  l_parse_full :: "'f pb_message \<Rightarrow> string \<Rightarrow> bool \<times> 'f pb_message"

record engine =
  en_driver :: driver
  en_opened :: bool

definition OnInit :: "bool \<Rightarrow> string \<Rightarrow> char list \<Rightarrow> char list \<Rightarrow> char list \<Rightarrow> int \<Rightarrow> engine res" where
  "OnInit pLog sURL sUser sPass sSchema nPoolSize =
     bindR (ZdbDriver pLog sURL sUser sPass sSchema nPoolSize) (\<lambda>d.
     Inr \<lparr>en_driver = d, en_opened = False\<rparr>)"

text \<open>\<open>Open\<close> tries until the driver opens.\<close>

partial_function (option) open_loop ::
  "('w, 'f, 'c) env \<Rightarrow> driver \<Rightarrow> 'w \<Rightarrow> (driver \<times> 'w) res option" where
  "open_loop e d w =
     (let r = ZdbDriver_Open e d w
      in if isl r then Some (Inl (projl r))
         else let (ok, d, w) = projr r
              in if ok then Some (Inr (d, w)) else open_loop e d w)"

definition engine_Open ::
  "('w, 'f, 'c) env \<Rightarrow> engine \<Rightarrow> 'w \<Rightarrow> (engine \<times> 'w) res option" where
  "engine_Open e en w =
     map_option (\<lambda>r. bindR r (\<lambda>(d, w). Inr (\<lparr>en_driver = d, en_opened = True\<rparr>, w)))
       (open_loop e (en_driver en) w)"

definition engine_Close :: "engine \<Rightarrow> engine" where
  "engine_Close en = \<lparr>en_driver = ZdbDriver_Close (en_driver en), en_opened = False\<rparr>"

section \<open>Entities\<close>

text \<open>
  The statement is a local object: its constructor opens it, so the connection comes first, and its
  destructor closes it on every way out of the operation. \<open>upd\<close> says where the world is in the
  result of the operation.
\<close>

definition with_connection ::
  "('w, 'f, 'c) env \<Rightarrow> (('w \<Rightarrow> 'w) \<Rightarrow> 'a \<Rightarrow> 'a) \<Rightarrow> 'w \<Rightarrow> ('w \<Rightarrow> 'a res) \<Rightarrow> 'a res option" where
  "with_connection e upd w f =
     map_option (\<lambda>w. bindR (f w) (\<lambda>r. Inr (upd (ZdbStatement_Close e) r))) (ZdbStatement_Open e w)"

definition ESelect ::
  "('w, 'f, 'c) lib \<Rightarrow> driver \<Rightarrow> string \<Rightarrow> string list \<Rightarrow> string list \<times> 'f pb_message \<times> 'w \<Rightarrow>
    (bool \<times> string list \<times> 'f pb_message \<times> 'w) res option" where
  "ESelect L d sTableName vInKey st =
     (let e = l_env L; (vResult, entity, w) = st
      in with_connection e (apsnd \<circ> apsnd \<circ> apsnd) w (\<lambda>w.
         bindR (ParseSelect e d entity sTableName vInKey (ZdbStatement e) w) (\<lambda>(ok, s, w).
         if \<not> ok then Inr (False, vResult, entity, w)
         else bindR (Exec e d s w) (\<lambda>(rss, w).
           case rss of
             None \<Rightarrow> Inr (False, vResult, entity, w)
           | Some rss \<Rightarrow>
               bindR (ParseEntityResult (l_debug L) (d_log d) (l_ops L) (l_serialize L)
                   (ZdbResultSet_Open (e_broken e w) rss) vResult entity) (\<lambda>(vResult, entity, rs).
               Inr (True, vResult, entity, w))))))"

text \<open>The common end of the updates.\<close>

definition exec_update ::
  "('w, 'f, 'c) env \<Rightarrow> driver \<Rightarrow> ('w, 'f) prepared \<Rightarrow> (bool \<times> 'w) res" where
  "exec_update e d m =
     bindR m (\<lambda>(ok, s, w).
     if \<not> ok then Inr (False, w) else bindR (Exec e d s w) (\<lambda>(rss, w). Inr (rss \<noteq> None, w)))"

definition EInsert ::
  "('w, 'f, 'c) lib \<Rightarrow> driver \<Rightarrow> 'f pb_message \<Rightarrow> string \<Rightarrow> string list \<Rightarrow> 'w \<Rightarrow> (bool \<times> 'w) res option" where
  "EInsert L d entity sTableName vInKey w =
     (let e = l_env L
      in with_connection e apsnd w (\<lambda>w.
         exec_update e d (ParseInsert e d entity sTableName vInKey (ZdbStatement e) w)))"

definition EUpdate ::
  "('w, 'f, 'c) lib \<Rightarrow> driver \<Rightarrow> 'f pb_message \<Rightarrow> string \<Rightarrow> string list \<Rightarrow> bool \<Rightarrow> 'w \<Rightarrow> (bool \<times> 'w) res option" where
  "EUpdate L d entity sTableName vInKey bHackInsert w =
     (let e = l_env L
      in with_connection e apsnd w (\<lambda>w.
         exec_update e d (ParseUpdate e d entity sTableName vInKey bHackInsert (ZdbStatement e) w)))"

definition EDelete ::
  "('w, 'f, 'c) lib \<Rightarrow> driver \<Rightarrow> 'f pb_message \<Rightarrow> string \<Rightarrow> string list \<Rightarrow> 'w \<Rightarrow> (bool \<times> 'w) res option" where
  "EDelete L d entity sTableName vInKey w =
     (let e = l_env L
      in with_connection e apsnd w (\<lambda>w.
         exec_update e d (ParseDelete e d entity sTableName vInKey (ZdbStatement e) w)))"

section \<open>Stored procedures\<close>

text \<open>
  The records a query adds, by the name of the repeated field they are added to. \<open>AddMessage\<close> on a
  field that is not a repeated message is an error of its use.
\<close>

definition proc_field ::
  "bool \<Rightarrow> bool \<Rightarrow> ('c, 'f) cell_ops \<Rightarrow> 'f pb_field \<Rightarrow> 'c rset \<Rightarrow> ((string \<times> 'f pb_message list) \<times> 'c rset) res" where
  "proc_field dbg haslog ops field rs =
     (case field of
        Field name t r h v \<Rightarrow>
          case (r, v) of
            (True, Submessage proto) \<Rightarrow>
              bindR (ParseProcResult dbg haslog ops proto rs []) (\<lambda>(records, rs). Inr ((name, records), rs))
          | _ \<Rightarrow>
              bindR (MoveNext rs) (\<lambda>(found, rs). if found then Inl Usage_Error else
              bindR (MoveNext rs) (\<lambda>(found, rs). if found then Inl Usage_Error else Inr ((name, []), rs))))"

text \<open>One result set for every field of \<open>return_recordsets\<close>, as long as there are more.\<close>

fun recordsets_loop ::
  "bool \<Rightarrow> bool \<Rightarrow> ('c, 'f) cell_ops \<Rightarrow> 'f pb_message \<Rightarrow> 'c rset \<Rightarrow> (string \<times> 'f pb_message list) list \<Rightarrow>
    ((string \<times> 'f pb_message list) list \<times> 'c rset) res" where
  "recordsets_loop dbg haslog ops [] rs out = Inr (out, rs)"
| "recordsets_loop dbg haslog ops (field # fs) rs out =
     bindR (proc_field dbg haslog ops field rs) (\<lambda>(one, rs).
     let (more, rs) = HasMoreResultSets rs
     in if \<not> more then Inr (out @ [one], rs)
        else recordsets_loop dbg haslog ops fs rs (out @ [one]))"

definition FindFieldByName :: "string \<Rightarrow> 'f pb_message \<Rightarrow> 'f pb_field option" where
  "FindFieldByName name fs = find (\<lambda>fd. fld_name fd = name) fs"

definition SpQuery ::
  "('w, 'f, 'c) lib \<Rightarrow> driver \<Rightarrow> string \<Rightarrow> 'f pb_message \<Rightarrow>
    (string \<times> 'f pb_message list) list \<times> 'w \<Rightarrow> (bool \<times> (string \<times> 'f pb_message list) list \<times> 'w) res option" where
  "SpQuery L d proc_name storedProc st =
     (let e = l_env L; (out, w) = st
      in with_connection e (apsnd \<circ> apsnd) w (\<lambda>w.
         bindR (ParseProc e d storedProc proc_name (ZdbStatement e) w) (\<lambda>(ok, s, w).
         if \<not> ok then Inr (False, out, w)
         else bindR (Exec e d s w) (\<lambda>(rss, w).
           case rss of
             None \<Rightarrow> Inr (False, out, w)
           | Some rss \<Rightarrow>
               let rs = ZdbResultSet_Open (e_broken e w) rss
               in case FindFieldByName ''return_record_list'' storedProc of
                    Some field \<Rightarrow>
                      bindR (proc_field (l_debug L) (d_log d) (l_ops L) field rs) (\<lambda>(one, rs).
                      Inr (True, out @ [one], w))
                  | None \<Rightarrow>
                      case FindFieldByName ''return_recordsets'' storedProc of
                        None \<Rightarrow> Inr (True, out, w)
                      | Some field \<Rightarrow>
                          bindR (GetMessage (fld_value field)) (\<lambda>fs.
                          bindR (recordsets_loop (l_debug L) (d_log d) (l_ops L) fs rs out) (\<lambda>(out, rs).
                          Inr (True, out, w)))))))"

definition SpUpdate ::
  "('w, 'f, 'c) lib \<Rightarrow> driver \<Rightarrow> string \<Rightarrow> 'f pb_message \<Rightarrow> 'w \<Rightarrow> (bool \<times> 'w) res option" where
  "SpUpdate L d proc_name storedProc w =
     (let e = l_env L
      in with_connection e apsnd w (\<lambda>w.
         exec_update e d (ParseProc e d storedProc proc_name (ZdbStatement e) w)))"

end
