(* ===== verification/Db_Operations.thy ===== *)
theory Db_Operations
  imports Db_Engine
begin

text \<open>
  What the operations on entities do, in terms of the database: the SQL text each one sends and
  the values it binds, and what its result is when the server accepts the text.

  The four statements share a contract, the locale \<open>statement\<close>: preparing sends the text of the
  statement, and the text has one parameter for every key and every set field. What an operation
  does follows from the contract once.
\<close>

section \<open>The contract of a statement\<close>

locale statement =
  fixes prepare :: "('w, 'f, 'c) env \<Rightarrow> driver \<Rightarrow> string \<Rightarrow> string list \<Rightarrow> string list \<Rightarrow> 'f zstmt \<Rightarrow> 'w \<Rightarrow>
      ('w, 'f) prepared"
    and sql :: "string \<Rightarrow> string list \<Rightarrow> string list \<Rightarrow> string"
    and sets_ok :: "string list \<Rightarrow> bool"
  assumes sends: "env_ok e \<Longrightarrow> length (z_sql s) = 4096 \<Longrightarrow> names_ok tbl (ks @ ss) \<Longrightarrow> sets_ok ss \<Longrightarrow>
      length (sql tbl ks ss) < CLAUSE_SIZE \<Longrightarrow>
      \<exists>s'. prepare e d tbl ks ss s w = z_prepare e d s' w \<and> holds_sql (sql tbl ks ss) s s'"
    and parameters: "name_ok tbl \<Longrightarrow> list_all name_ok (ks @ ss) \<Longrightarrow> sets_ok ss \<Longrightarrow>
      markers None (sql tbl ks ss) = length ks + length ss"
    and no_percent: "name_ok tbl \<Longrightarrow> list_all name_ok (ks @ ss) \<Longrightarrow> sets_ok ss \<Longrightarrow>
      CHR 0x25 \<notin> set (sql tbl ks ss)"
begin

text \<open>Preparing and binding as many fields as there are names fills every parameter.\<close>

lemma prepared:
  assumes e: "env_ok e" "server_counts e" and t: "name_ok tbl" "length tbl < 2 ^ 30"
    and n: "list_all name_ok (ks @ ss)" "sets_ok ss" "length (sql tbl ks ss) < CLAUSE_SIZE"
    and server: "e_prepare e (sql tbl ks ss) w = (Some n, w')"
    and fds: "entity_ok entity" "set fds \<subseteq> set (leaves entity)" "length fds = length ks + length ss"
    and bind: "bind = AddInputParams fds"
  shows "\<exists>s'. with_params (prepare e d tbl ks ss (ZdbStatement e) w) bind = Inr (True, s', w') \<and>
    z_stmt s' = Some (sql tbl ks ss, map Some (map bound_field fds))"
proof -
  have "names_ok tbl (ks @ ss)"
    using t n(1) name_text_ok(1) by (auto simp: names_ok_def list_all_iff)
  moreover have "length (z_sql (ZdbStatement e)) = 4096" using e(1) by (simp add: ZdbStatement_def env_ok_def)
  ultimately obtain s' where s': "prepare e d tbl ks ss (ZdbStatement e) w = z_prepare e d s' w"
      "holds_sql (sql tbl ks ss) (ZdbStatement e) s'"
    using sends [OF e(1)] n(2,3) by blast
  have count: "n = length fds"
    using e(2) server parameters [OF t(1) n(1,2)] fds(3) by (auto simp: server_counts_def)
  let ?s = "s'\<lparr>z_stmt := Some (sql tbl ks ss, replicate n None)\<rparr>"
  have p: "z_prepare e d s' w = Inr (True, ?s, w')"
    using z_prepare_text [OF s'(2) no_percent [OF t(1) n(1,2)], where e = e and d = d and w = w] server by simp
  have "z_index ?s = 0" using s'(2) by (simp add: holds_sql_def ZdbStatement_def)
  then have "AddInputParams fds ?s =
      Inr (?s\<lparr>z_index := length fds, z_stmt := Some (sql tbl ks ss, map Some (map bound_field fds))\<rparr>)"
    by (intro bind_fields [OF fds(1) _ _ fds(2)]) (simp_all add: count)
  then show ?thesis unfolding s'(1) p bind with_params_def by simp
qed

text \<open>A text the server refuses ends the operation with False.\<close>

lemma refused:
  assumes e: "env_ok e" and t: "name_ok tbl" "length tbl < 2 ^ 30"
    and n: "list_all name_ok (ks @ ss)" "sets_ok ss" "length (sql tbl ks ss) < CLAUSE_SIZE"
    and server: "e_prepare e (sql tbl ks ss) w = (None, w')" "d_log d"
  shows "\<exists>s'. with_params (prepare e d tbl ks ss (ZdbStatement e) w) bind = Inr (False, s', w')"
proof -
  have "names_ok tbl (ks @ ss)"
    using t n(1) name_text_ok(1) by (auto simp: names_ok_def list_all_iff)
  moreover have "length (z_sql (ZdbStatement e)) = 4096" using e by (simp add: ZdbStatement_def env_ok_def)
  ultimately obtain s' where s': "prepare e d tbl ks ss (ZdbStatement e) w = z_prepare e d s' w"
      "holds_sql (sql tbl ks ss) (ZdbStatement e) s'"
    using sends [OF e(1)] n(2,3) by blast
  then show ?thesis
    using z_prepare_text [OF s'(2) no_percent [OF t(1) n(1,2)], where e = e and d = d and w = w] server
    by (simp add: with_params_def)
qed

end

section \<open>The four statements\<close>

lemma sql_cut_short: "length t < CLAUSE_SIZE \<Longrightarrow> sql_cut t = t"
  by (simp add: sql_cut_def CLAUSE_SIZE_def)

lemma clause_lengths:
  "length (select_text tbl ks) < CLAUSE_SIZE \<Longrightarrow> length (where_text ks) < CLAUSE_SIZE"
  "length (delete_text tbl ks) < CLAUSE_SIZE \<Longrightarrow> length (where_text ks) < CLAUSE_SIZE"
  "length (update_text tbl ks ss) < CLAUSE_SIZE \<Longrightarrow> length (where_text ks) < CLAUSE_SIZE"
  "length (update_text tbl ks ss) < CLAUSE_SIZE \<Longrightarrow> length (set_text ss) < CLAUSE_SIZE"
  "length (insert_text tbl ks ss) < CLAUSE_SIZE \<Longrightarrow> length (columns_text (ks @ ss)) < CLAUSE_SIZE"
  "length (insert_text tbl ks ss) < CLAUSE_SIZE \<Longrightarrow> length (marks_text (length ks + length ss)) < CLAUSE_SIZE"
  "length (insert_text tbl ks ss) < CLAUSE_SIZE \<Longrightarrow> length (duplicate_text ks ss) < CLAUSE_SIZE"
  by (auto simp: text_defs where_text_def duplicate_text_def split: if_splits)

interpretation insert: statement PrepareInsert insert_text "\<lambda>_. True"
proof (unfold_locales, goal_cases)
  case (1 e s tbl ks ss d w)
  show ?case
    using PrepareInsert_text [OF 1(1-3), where d = d and w = w] clause_lengths(5-7) [OF 1(5)]
      sql_cut_short [OF 1(5)] by metis
qed (simp_all add: statement_markers statement_plain)

interpretation update: statement PrepareUpdate update_text "\<lambda>ss. ss \<noteq> []"
proof (unfold_locales, goal_cases)
  case (1 e s tbl ks ss d w)
  show ?case
    using PrepareUpdate_text [OF 1(1-4), where d = d and w = w] clause_lengths(3,4) [OF 1(5)]
      sql_cut_short [OF 1(5)] by metis
qed (simp_all add: statement_markers statement_plain)

interpretation select: statement "\<lambda>e d tbl ks ss. PrepareSelect e d tbl ks" "\<lambda>tbl ks ss. select_text tbl ks" "\<lambda>ss. ss = []"
proof (unfold_locales, goal_cases)
  case (1 e s tbl ks ss d w)
  then have "names_ok tbl ks" by simp
  then show ?case
    using PrepareSelect_text [OF 1(1,2), where d = d and w = w] clause_lengths(1) [OF 1(5)] sql_cut_short [OF 1(5)] by metis
qed (simp_all add: statement_markers statement_plain)

interpretation delete: statement "\<lambda>e d tbl ks ss. PrepareDelete e d tbl ks" "\<lambda>tbl ks ss. delete_text tbl ks" "\<lambda>ss. ss = []"
proof (unfold_locales, goal_cases)
  case (1 e s tbl ks ss d w)
  then have "names_ok tbl ks" by simp
  then show ?case
    using PrepareDelete_text [OF 1(1,2), where d = d and w = w] clause_lengths(2) [OF 1(5)] sql_cut_short [OF 1(5)] by metis
qed (simp_all add: statement_markers statement_plain)

section \<open>What an operation binds\<close>

text \<open>
  The fields behind the parameters of each statement, in order. A SELECT takes those keys only that
  are set fields of the entity itself.
\<close>

definition key_fields :: "'f pb_message \<Rightarrow> string list \<Rightarrow> 'f pb_field list" where
  "key_fields entity ks = filter (\<lambda>fd. fld_name fd \<in> set ks) (leaves entity)"

definition set_fields :: "'f pb_message \<Rightarrow> string list \<Rightarrow> 'f pb_field list" where
  "set_fields entity ks = filter (\<lambda>fd. fld_name fd \<notin> set ks) (leaves entity)"

lemma set_fields_again:
  "filter (\<lambda>fd. fld_name fd \<in> set (set_names entity ks)) (leaves entity) = set_fields entity ks"
  unfolding set_fields_def by (rule filter_cong) (auto simp: set_names_def)

lemma key_fields_names: "keys_in_order entity ks \<Longrightarrow> map fld_name (key_fields entity ks) = ks"
  by (simp add: key_fields_def keys_in_order_names)

lemma set_fields_set_names: "map fld_name (set_fields entity ks) = set_names entity ks"
  by (simp add: set_fields_def set_names_def filter_map comp_def)

lemma fields_of_leaves: "set (key_fields entity ks) \<subseteq> set (leaves entity)" "set (set_fields entity ks) \<subseteq> set (leaves entity)"
  by (auto simp: key_fields_def set_fields_def)

lemma field_counts:
  "keys_in_order entity ks \<Longrightarrow> length (key_fields entity ks) = length ks"
  "length (set_fields entity ks) = length (set_names entity ks)"
  using key_fields_names [of entity ks] set_fields_set_names [of entity ks] by (metis length_map)+

lemma keys_named: "keys_in_order entity ks \<Longrightarrow> set ks \<subseteq> set (leaf_names entity)"
  by (metis keys_in_order_def filter_is_subset)

lemma names_good:
  "list_all name_ok (leaf_names entity) \<Longrightarrow> keys_in_order entity ks \<Longrightarrow> list_all name_ok (ks @ set_names entity ks)"
  using keys_named [of entity ks] by (auto simp: list_all_iff set_names_def)

lemma ParseInsertParams_fields:
  "entity_ok entity \<Longrightarrow>
    ParseInsertParams entity ks (set_names entity ks) = AddInputParams (key_fields entity ks @ set_fields entity ks)"
  by (rule ext) (simp add: ParseInsertParams_def entity_ok_def CollectEntityInputParams_leaves key_fields_def set_fields_again)

lemma ParseEntityParams_fields:
  "entity_ok entity \<Longrightarrow>
    ParseEntityParams entity ks (set_names entity ks) = AddInputParams (set_fields entity ks @ key_fields entity ks)"
  "entity_ok entity \<Longrightarrow> ParseEntityParams entity ks [] = AddInputParams (key_fields entity ks)"
  by (rule ext; simp add: ParseEntityParams_def entity_ok_def CollectEntityInputParams_leaves key_fields_def set_fields_again)+

text \<open>An entity without submessages; its keys are put in the order of the fields.\<close>

definition flat :: "'f pb_message \<Rightarrow> bool" where
  "flat entity \<longleftrightarrow> list_all (\<lambda>fd. skipped fd \<or> fld_type fd \<noteq> TYPE_MESSAGE) entity"

lemma flat_leaves: "flat entity \<Longrightarrow> leaves entity = filter (\<lambda>fd. \<not> skipped fd) entity"
  by (induction entity rule: message_induct) (auto simp: flat_def)

lemma filter_distinct_one: "distinct ks \<Longrightarrow> filter (\<lambda>k. k = n) ks = (if n \<in> set ks then [n] else [])"
  by (induction ks) auto

lemma concat_filter: "concat (map (\<lambda>x. if P x then [f x] else []) xs) = map f (filter P xs)"
  by (induction xs) simp_all

lemma valid_keys_flat:
  assumes "flat entity" "distinct ks"
  shows "valid_keys entity ks = filter (\<lambda>n. n \<in> set ks) (leaf_names entity)"
  using assms by (simp add: valid_keys_def flat_leaves filter_distinct_one concat_filter filter_map comp_def)

lemma valid_keys_in_order:
  assumes "flat entity" "distinct ks"
  shows "keys_in_order entity (valid_keys entity ks)"
proof -
  have "filter (\<lambda>n. n \<in> set (filter (\<lambda>n. n \<in> set ks) L)) L = filter (\<lambda>n. n \<in> set ks) L" for L :: "string list"
    by (rule filter_cong) auto
  then show ?thesis unfolding keys_in_order_def valid_keys_flat [OF assms] .
qed

section \<open>The operations over the database\<close>

text \<open>
  A call an operation makes: the text that is prepared and the values that are bound. The
  hypotheses under which it is made are collected in \<open>call_ok\<close>.
\<close>

definition call_ok :: "('w, 'f, 'c) env \<Rightarrow> 'f pb_message \<Rightarrow> string \<Rightarrow> string \<Rightarrow> bool" where
  "call_ok e entity tbl text \<longleftrightarrow>
     env_ok e \<and> server_counts e \<and> entity_ok entity \<and> name_ok tbl \<and> list_all name_ok (leaf_names entity) \<and>
     length tbl < 2 ^ 30 \<and> length text < CLAUSE_SIZE"

definition values_of :: "'f pb_field list \<Rightarrow> 'f bound option list" where
  "values_of fds = map Some (map bound_field fds)"

lemma ParseInsert_sends:
  assumes "call_ok e entity tbl (insert_text tbl ks (set_names entity ks))" "keys_in_order entity ks"
    "e_prepare e (insert_text tbl ks (set_names entity ks)) w = (Some n, w')"
  shows "\<exists>s. ParseInsert e d entity tbl ks (ZdbStatement e) w = Inr (True, s, w') \<and>
    z_stmt s = Some (insert_text tbl ks (set_names entity ks), values_of (key_fields entity ks @ set_fields entity ks))"
  using insert.prepared [where e = e and tbl = tbl and ks = ks and ss = "set_names entity ks" and w = w and n = n and w' = w'
      and entity = entity and fds = "key_fields entity ks @ set_fields entity ks" and d = d
      and bind = "ParseInsertParams entity ks (set_names entity ks)"]
    assms names_good [of entity ks] fields_of_leaves [of entity ks]
  by (simp add: call_ok_def ParseInsert_def collect_set_names ParseInsertParams_fields field_counts values_of_def)

lemma ParseUpdate_sends:
  assumes "call_ok e entity tbl (update_text tbl ks (set_names entity ks))" "keys_in_order entity ks"
    "set_names entity ks \<noteq> []"
    "e_prepare e (update_text tbl ks (set_names entity ks)) w = (Some n, w')"
  shows "\<exists>s. ParseUpdate e d entity tbl ks False (ZdbStatement e) w = Inr (True, s, w') \<and>
    z_stmt s = Some (update_text tbl ks (set_names entity ks), values_of (set_fields entity ks @ key_fields entity ks))"
  using update.prepared [where e = e and tbl = tbl and ks = ks and ss = "set_names entity ks" and w = w and n = n and w' = w'
      and entity = entity and fds = "set_fields entity ks @ key_fields entity ks" and d = d
      and bind = "ParseEntityParams entity ks (set_names entity ks)"]
    assms names_good [of entity ks] fields_of_leaves [of entity ks]
  by (simp add: call_ok_def ParseUpdate_def collect_set_names ParseEntityParams_fields field_counts values_of_def)

lemma ParseUpdate_insert: "ParseUpdate e d entity tbl ks True s w = ParseInsert e d entity tbl ks s w"
  by (simp add: ParseUpdate_def ParseInsert_def)

lemma ParseDelete_sends:
  assumes "call_ok e entity tbl (delete_text tbl ks)" "keys_in_order entity ks"
    "e_prepare e (delete_text tbl ks) w = (Some n, w')"
  shows "\<exists>s. ParseDelete e d entity tbl ks (ZdbStatement e) w = Inr (True, s, w') \<and>
    z_stmt s = Some (delete_text tbl ks, values_of (key_fields entity ks))"
  using delete.prepared [where e = e and tbl = tbl and ks = ks and ss = "[]" and w = w and n = n and w' = w'
      and entity = entity and fds = "key_fields entity ks" and d = d and bind = "ParseEntityParams entity ks []"]
    assms names_good [of entity ks] fields_of_leaves [of entity ks]
  by (simp add: call_ok_def ParseDelete_def ParseEntityParams_fields field_counts values_of_def)

lemma ParseSelect_sends:
  assumes "call_ok e entity tbl (select_text tbl (valid_keys entity ks))" "flat entity" "distinct ks"
    "e_prepare e (select_text tbl (valid_keys entity ks)) w = (Some n, w')"
  shows "\<exists>s. ParseSelect e d entity tbl ks (ZdbStatement e) w = Inr (True, s, w') \<and>
    z_stmt s = Some (select_text tbl (valid_keys entity ks), values_of (key_fields entity (valid_keys entity ks)))"
  using select.prepared [where e = e and tbl = tbl and ks = "valid_keys entity ks" and ss = "[]" and w = w and n = n and w' = w'
      and entity = entity and fds = "key_fields entity (valid_keys entity ks)" and d = d
      and bind = "ParseEntityParams entity (valid_keys entity ks) []"]
    assms names_good [of entity "valid_keys entity ks"] fields_of_leaves [of entity "valid_keys entity ks"]
    valid_keys_in_order [OF assms(2,3)]
  by (simp add: call_ok_def ParseSelect_def ParseEntityParams_fields field_counts values_of_def Let_def)

text \<open>The same when the server refuses the text.\<close>

lemma ParseInsert_refused:
  assumes "call_ok e entity tbl (insert_text tbl ks (set_names entity ks))" "keys_in_order entity ks" "d_log d"
    "e_prepare e (insert_text tbl ks (set_names entity ks)) w = (None, w')"
  shows "\<exists>s. ParseInsert e d entity tbl ks (ZdbStatement e) w = Inr (False, s, w')"
  using insert.refused [where e = e and tbl = tbl and ks = ks and ss = "set_names entity ks" and w = w and w' = w'
      and d = d and bind = "ParseInsertParams entity ks (set_names entity ks)"]
    assms names_good [of entity ks]
  by (simp add: call_ok_def ParseInsert_def collect_set_names)

lemma ParseUpdate_refused:
  assumes "call_ok e entity tbl (update_text tbl ks (set_names entity ks))" "keys_in_order entity ks" "d_log d"
    "set_names entity ks \<noteq> []" "e_prepare e (update_text tbl ks (set_names entity ks)) w = (None, w')"
  shows "\<exists>s. ParseUpdate e d entity tbl ks False (ZdbStatement e) w = Inr (False, s, w')"
  using update.refused [where e = e and tbl = tbl and ks = ks and ss = "set_names entity ks" and w = w and w' = w'
      and d = d and bind = "ParseEntityParams entity ks (set_names entity ks)"]
    assms names_good [of entity ks]
  by (simp add: call_ok_def ParseUpdate_def collect_set_names)

lemma ParseDelete_refused:
  assumes "call_ok e entity tbl (delete_text tbl ks)" "keys_in_order entity ks" "d_log d"
    "e_prepare e (delete_text tbl ks) w = (None, w')"
  shows "\<exists>s. ParseDelete e d entity tbl ks (ZdbStatement e) w = Inr (False, s, w')"
  using delete.refused [where e = e and tbl = tbl and ks = ks and ss = "[]" and w = w and w' = w'
      and d = d and bind = "ParseEntityParams entity ks []"]
    assms names_good [of entity ks]
  by (simp add: call_ok_def ParseDelete_def)

lemma ParseSelect_refused:
  assumes "call_ok e entity tbl (select_text tbl (valid_keys entity ks))" "flat entity" "distinct ks" "d_log d"
    "e_prepare e (select_text tbl (valid_keys entity ks)) w = (None, w')"
  shows "\<exists>s. ParseSelect e d entity tbl ks (ZdbStatement e) w = Inr (False, s, w')"
  using select.refused [where e = e and tbl = tbl and ks = "valid_keys entity ks" and ss = "[]" and w = w and w' = w'
      and d = d and bind = "ParseEntityParams entity (valid_keys entity ks) []"]
    assms names_good [of entity "valid_keys entity ks"] valid_keys_in_order [OF assms(2,3)]
  by (simp add: call_ok_def ParseSelect_def Let_def)

text \<open>
  What an operation means: the database prepares one text and executes it with one list of values.
  A refusal of either is the result False.
\<close>

definition db_query ::
  "('w, 'f, 'c) env \<Rightarrow> string \<Rightarrow> 'f bound option list \<Rightarrow> 'w \<Rightarrow> 'c result list option \<times> 'w" where
  "db_query e sql values w =
     (case e_prepare e sql w of
        (None, w) \<Rightarrow> (None, w)
      | (Some n, w) \<Rightarrow> e_execute e sql values w)"

definition db_exec :: "('w, 'f, 'c) env \<Rightarrow> string \<Rightarrow> 'f bound option list \<Rightarrow> 'w \<Rightarrow> bool \<times> 'w" where
  "db_exec e sql values w = (case db_query e sql values w of (r, w) \<Rightarrow> (r \<noteq> None, w))"

text \<open>At the end of an operation its connection goes back to the pool.\<close>

definition db_update :: "('w, 'f, 'c) env \<Rightarrow> string \<Rightarrow> 'f bound option list \<Rightarrow> 'w \<Rightarrow> bool \<times> 'w" where
  "db_update e sql values w = apsnd (e_close e) (db_exec e sql values w)"

lemmas db_update_eval = db_update_def db_exec_def db_query_def

text \<open>No set field is a \<open>string\<close>, so no bound value is read from freed memory.\<close>

definition no_strings :: "'f pb_message \<Rightarrow> bool" where
  "no_strings entity \<longleftrightarrow> list_all (\<lambda>fd. fld_type fd \<noteq> TYPE_STRING) (leaves entity)"

lemma dangling_bound:
  assumes "field_ok fd" "bindable (fld_type fd)"
  shows "dangling (Some (bound_field fd)) \<longleftrightarrow> fld_type fd = TYPE_STRING"
proof -
  obtain n t r h v where fd: "fd = Field n t r h v" by (cases fd)
  then obtain x where "v = Scalar x" using assms by (cases v) (auto simp: bindable_def)
  then show ?thesis using assms fd by (cases x) (auto simp: bound_field_def bindable_def)
qed

lemma dangling_values:
  assumes "entity_ok entity" "set fds \<subseteq> set (leaves entity)"
  shows "list_ex dangling (values_of fds) \<longleftrightarrow> (\<exists>fd \<in> set fds. fld_type fd = TYPE_STRING)"
proof -
  have "field_ok fd \<and> bindable (fld_type fd)" if "fd \<in> set fds" for fd
    using assms that leaves_ok [of entity] by (auto simp: entity_ok_def list_all_iff)
  then show ?thesis by (auto simp: values_of_def list_ex_iff dangling_bound)
qed

lemma Exec_values:
  assumes "z_stmt s = Some (sql, values_of fds)" "entity_ok entity" "set fds \<subseteq> set (leaves entity)"
    "no_strings entity" "d_log d"
  shows "Exec e d s w = Inr (e_execute e sql (values_of fds) w)"
proof -
  have "\<not> list_ex dangling (values_of fds)"
    using dangling_values [OF assms(2,3)] assms(3,4) by (auto simp: no_strings_def list_all_iff)
  then show ?thesis using assms(1,5) by (auto simp: Exec_def split: prod.splits option.splits)
qed

lemma exec_update_sends:
  assumes "\<And>n w1. e_prepare e sql w = (Some n, w1) \<Longrightarrow> \<exists>s. m = Inr (True, s, w1) \<and> z_stmt s = Some (sql, values_of fds)"
    and "\<And>w1. e_prepare e sql w = (None, w1) \<Longrightarrow> \<exists>s. m = Inr (False, s, w1)"
    and "entity_ok entity" "set fds \<subseteq> set (leaves entity)" "no_strings entity" "d_log d"
  shows "exec_update e d m = Inr (db_exec e sql (values_of fds) w)"
proof (cases "e_prepare e sql w")
  case (Pair n w1)
  then show ?thesis
    using assms(1) [of _ w1] assms(2) [of w1] Exec_values [OF _ assms(3-6), where e = e and sql = sql and w = w1]
    by (cases n; cases "e_execute e sql (values_of fds) w1") (auto simp: exec_update_def db_exec_def db_query_def)
qed

lemma insert_runs:
  assumes "call_ok e entity tbl (insert_text tbl ks (set_names entity ks))" "keys_in_order entity ks" "no_strings entity" "d_log d"
  shows "exec_update e d (ParseInsert e d entity tbl ks (ZdbStatement e) w) =
    Inr (db_exec e (insert_text tbl ks (set_names entity ks)) (values_of (key_fields entity ks @ set_fields entity ks)) w)"
proof (rule exec_update_sends [OF ParseInsert_sends [OF assms(1,2)] ParseInsert_refused [OF assms(1,2,4)]])
  show "entity_ok entity" "set (key_fields entity ks @ set_fields entity ks) \<subseteq> set (leaves entity)"
    using assms(1) fields_of_leaves [of entity ks] by (simp_all add: call_ok_def)
qed (use assms in simp_all)

lemma update_runs:
  assumes "call_ok e entity tbl (update_text tbl ks (set_names entity ks))" "keys_in_order entity ks" "set_names entity ks \<noteq> []" "no_strings entity" "d_log d"
  shows "exec_update e d (ParseUpdate e d entity tbl ks False (ZdbStatement e) w) =
    Inr (db_exec e (update_text tbl ks (set_names entity ks)) (values_of (set_fields entity ks @ key_fields entity ks)) w)"
proof (rule exec_update_sends [OF ParseUpdate_sends [OF assms(1,2,3)] ParseUpdate_refused [OF assms(1,2,5,3)]])
  show "entity_ok entity" "set (set_fields entity ks @ key_fields entity ks) \<subseteq> set (leaves entity)"
    using assms(1) fields_of_leaves [of entity ks] by (simp_all add: call_ok_def)
qed (use assms in simp_all)

lemma delete_runs:
  assumes "call_ok e entity tbl (delete_text tbl ks)" "keys_in_order entity ks" "no_strings entity" "d_log d"
  shows "exec_update e d (ParseDelete e d entity tbl ks (ZdbStatement e) w) =
    Inr (db_exec e (delete_text tbl ks) (values_of (key_fields entity ks)) w)"
proof (rule exec_update_sends [OF ParseDelete_sends [OF assms(1,2)] ParseDelete_refused [OF assms(1,2,4)]])
  show "entity_ok entity" "set (key_fields entity ks) \<subseteq> set (leaves entity)"
    using assms(1) fields_of_leaves [of entity ks] by (simp_all add: call_ok_def)
qed (use assms in simp_all)

end
