(* ===== verification/Db_Properties.thy ===== *)
theory Db_Properties
  imports Db_Operations Snprintf_Properties
begin

text \<open>
  The properties of the engine on protobuf messages, of the connection and of the helpers they
  use, with the inputs they are applied to.
\<close>

section \<open>A sample database\<close>

text \<open>
  A server that takes every text, counts its parameters, notes every execution in the state, and
  answers with one result set.
\<close>

definition sample_env :: "int result \<Rightarrow> ((string \<times> rat bound option list) list, rat, int) env" where
  "sample_env answer =
     \<lparr>e_fops = exact_fops, e_scratch = replicate 32 NUL, e_raw = replicate 4096 NUL,
      e_url_new = (\<lambda>_. True), e_pool_start = (\<lambda>_ _ w. (True, w)), e_get_connection = (\<lambda>w. (True, w)), e_close = id,
      e_prepare = (\<lambda>t w. (Some (markers None t), w)),
      e_execute = (\<lambda>t vs w. (Some [answer], w @ [(t, vs)])), e_broken = (\<lambda>_. False)\<rparr>"

definition sample_ops :: "(int, rat) cell_ops" where
  "sample_ops =
     \<lparr>c_int = word_of_int, c_llong = word_of_int, c_time = word_of_int, c_double = of_int, c_float = of_int,
      c_string = (\<lambda>_. None), c_blob = (\<lambda>_. None), c_dbl_min = 0, c_flt_min = 0\<rparr>"

definition sample_lib :: "int result \<Rightarrow> ((string \<times> rat bound option list) list, rat, int) lib" where
  "sample_lib answer =
     \<lparr>l_env = sample_env answer, l_debug = False, l_ops = sample_ops, l_serialize = (\<lambda>fs. concat (map fld_name fs)),
      l_serialize_partial = (\<lambda>fs. concat (map fld_name fs)), l_serialize_sp = (\<lambda>fs _. concat (map fld_name fs)), l_lookup = (\<lambda>_. None), l_clear = id,
      l_parse = (\<lambda>fs _. (False, fs)), l_parse_full = (\<lambda>fs _. (False, fs))\<rparr>"

definition sample_driver :: driver where
  "sample_driver = \<lparr>d_log = True, d_url = ''db'', d_user = ''u'', d_pass = ''p'', d_schema = ''s'',
     d_poolsize = 4, d_opened = True\<rparr>"

definition int_field :: "string \<Rightarrow> int \<Rightarrow> rat pb_field" where
  "int_field n i = Field n TYPE_INT32 False True (Scalar (Int32 (word_of_int i)))"

definition sample_answer :: "int result" where
  "sample_answer = \<lparr>rs_cols = [(''hp'', 3), (''id'', 3)], rs_rows = [[10, 1], [20, 2]]\<rparr>"

lemmas sample_defs = sample_env_def sample_ops_def sample_lib_def sample_driver_def sample_answer_def

lemma sample_open [simp]: "ZdbStatement_Open (sample_env a) w = Some w"
  by (subst ZdbStatement_Open.simps) (simp add: sample_env_def)

lemma sample_server [simp]: "env_ok (sample_env a)" "server_counts (sample_env a)"
  by (simp_all add: sample_env_def env_ok_def server_counts_def)

lemma sample_lib_simps [simp]:
  "l_env (sample_lib a) = sample_env a" "l_debug (sample_lib a) = False" "l_ops (sample_lib a) = sample_ops"
  "l_serialize (sample_lib a) = (\<lambda>fs. concat (map fld_name fs))"
  by (simp_all add: sample_lib_def)

lemma sample_env_simps [simp]:
  "e_prepare (sample_env a) t w = (Some (markers None t), w)" "e_execute (sample_env a) t vs w = (Some [a], w @ [(t, vs)])"
  "e_broken (sample_env a) w = False" "e_close (sample_env a) w = w" "d_log sample_driver"
  by (simp_all add: sample_env_def sample_driver_def)

lemma int_field_simps [simp]:
  "fld_name (int_field n i) = n" "fld_type (int_field n i) = TYPE_INT32" "field_ok (int_field n i)"
  "leaves (int_field n i # fs) = int_field n i # leaves fs"
  "\<not> fld_repeated (int_field n i)" "fld_has (int_field n i)"
  "bound_field (int_field n i) = Bind_Int (word_of_int i)"
  by (simp_all add: int_field_def bound_field_def)

lemma int_field_bindable [simp]: "bindable TYPE_INT32"
  by (simp add: bindable_def)

lemmas sample_entity = call_ok_def entity_ok_def keys_in_order_def set_names_def no_strings_def name_ok_def flat_def
lemmas sample_texts = text_defs columns_text_def marks_text_def duplicate_text_def where_text_def set_text_def CLAUSE_SIZE_def

section \<open>Entities in the database\<close>

text \<open>C1. \<open>EInsert\<close> on an entity whose keys are set fields given in the order of the fields, and
  with no \<open>string\<close> among them: once a connection is there, it prepares one INSERT text over the keys
  and the other set fields and executes it with the values of exactly these fields in the order of
  the columns, or returns False when the server refuses.\<close>

theorem EInsert_inserts:
  assumes "call_ok (l_env L) entity tbl sql" "sql = insert_text tbl ks (set_names entity ks)"
    "keys_in_order entity ks" "no_strings entity" "d_log d" "ZdbStatement_Open (l_env L) w0 = Some w"
  shows "EInsert L d entity tbl ks w0 =
      Some (Inr (db_update (l_env L) sql (values_of (key_fields entity ks @ set_fields entity ks)) w)) \<and>
    map fld_name (key_fields entity ks @ set_fields entity ks) = ks @ set_names entity ks"
  using assms insert_runs [OF assms(1) [unfolded assms(2)], where d = d and w = w]
  by (simp add: EInsert_def with_connection_def Let_def key_fields_names set_fields_set_names db_update_def)

lemma EInsert_inserts_witness:
  "EInsert (sample_lib sample_answer) sample_driver [int_field ''id'' 7, int_field ''hp'' 30] ''player'' [''id''] [] =
    Some (Inr (True, [(''INSERT INTO `player` (`id`,`hp`) VALUES (?,?) ON DUPLICATE KEY UPDATE `hp`= VALUES(`hp`) '',
      [Some (Bind_Int 7), Some (Bind_Int 30)])]))"
  using EInsert_inserts [where L = "sample_lib sample_answer" and entity = "[int_field ''id'' 7, int_field ''hp'' 30]"
      and tbl = "''player''" and ks = "[''id'']" and d = sample_driver and ?w0.0 = "[]" and w = "[]", OF _ refl]
  by (simp add: sample_entity sample_texts db_update_eval values_of_def key_fields_def set_fields_def)

text \<open>C6. \<open>EUpdate\<close>: with \<open>bHackInsert\<close> it does what \<open>EInsert\<close> does; without it, on an entity with
  a set field that is not a key, it executes one UPDATE text with the values of the set fields and
  then of the keys, in the order of the parameters.\<close>

theorem EUpdate_updates:
  assumes "call_ok (l_env L) entity tbl sql" "sql = update_text tbl ks (set_names entity ks)" "set_names entity ks \<noteq> []"
    "keys_in_order entity ks" "no_strings entity" "d_log d" "ZdbStatement_Open (l_env L) w0 = Some w"
  shows "EUpdate L d entity tbl ks False w0 =
      Some (Inr (db_update (l_env L) sql (values_of (set_fields entity ks @ key_fields entity ks)) w)) \<and>
    map fld_name (set_fields entity ks @ key_fields entity ks) = set_names entity ks @ ks \<and>
    EUpdate L d entity tbl ks True w0 = EInsert L d entity tbl ks w0"
  using assms update_runs [OF assms(1) [unfolded assms(2)], where d = d and w = w]
  by (simp add: EUpdate_def EInsert_def with_connection_def Let_def key_fields_names set_fields_set_names db_update_def
        ParseUpdate_insert)

lemma EUpdate_updates_witness:
  "EUpdate (sample_lib sample_answer) sample_driver [int_field ''id'' 7, int_field ''hp'' 30] ''player'' [''id''] False [] =
    Some (Inr (True, [(''UPDATE `player` SET `hp`=? WHERE `id`=?'', [Some (Bind_Int 30), Some (Bind_Int 7)])]))"
  using EUpdate_updates [where L = "sample_lib sample_answer" and entity = "[int_field ''id'' 7, int_field ''hp'' 30]"
      and tbl = "''player''" and ks = "[''id'']" and d = sample_driver and ?w0.0 = "[]" and w = "[]", OF _ refl]
  by (simp add: sample_entity sample_texts db_update_eval values_of_def key_fields_def set_fields_def)

text \<open>C7. \<open>EDelete\<close> executes one DELETE text with the values of the keys. Without keys, which is
  the default of its last argument, the text has no WHERE clause and deletes every row of the
  table.\<close>

theorem EDelete_deletes:
  assumes "call_ok (l_env L) entity tbl sql" "sql = delete_text tbl ks"
    "keys_in_order entity ks" "no_strings entity" "d_log d" "ZdbStatement_Open (l_env L) w0 = Some w"
  shows "EDelete L d entity tbl ks w0 =
      Some (Inr (db_update (l_env L) sql (values_of (key_fields entity ks)) w)) \<and>
    map fld_name (key_fields entity ks) = ks \<and>
    delete_text tbl [] = ''DELETE FROM '' @ quoted tbl"
  using assms delete_runs [OF assms(1) [unfolded assms(2)], where d = d and w = w]
  by (simp add: EDelete_def with_connection_def Let_def key_fields_names delete_text_def db_update_def)

lemma EDelete_deletes_witness:
  "EDelete (sample_lib sample_answer) sample_driver [int_field ''id'' 7, int_field ''hp'' 30] ''player'' [] [] =
    Some (Inr (True, [(''DELETE FROM `player`'', [])]))"
  using EDelete_deletes [where L = "sample_lib sample_answer" and entity = "[int_field ''id'' 7, int_field ''hp'' 30]"
      and tbl = "''player''" and ks = "[]" and d = sample_driver and ?w0.0 = "[]" and w = "[]", OF _ refl]
  by (simp add: sample_entity sample_texts db_update_eval values_of_def key_fields_def)

section \<open>Reading entities\<close>

text \<open>The result of a query whose rows fit the entity.\<close>

definition rows_fit :: "bool \<Rightarrow> 'f pb_message \<Rightarrow> 'c result list \<Rightarrow> bool" where
  "rows_fit dbg entity rss \<longleftrightarrow>
     rss \<noteq> [] \<and> record_ok dbg (rs_cols (hd rss)) entity \<and> length (slots (rs_cols (hd rss)) 0 entity) \<le> 256"

lemma ESelect_result:
  assumes "call_ok (l_env L) entity tbl sql" "sql = select_text tbl (valid_keys entity ks)" "flat entity" "distinct ks"
    "no_strings entity" "d_log d" "ZdbStatement_Open (l_env L) w0 = Some w"
    "db_query (l_env L) sql (values_of (key_fields entity (valid_keys entity ks))) w = (r, w')"
    "\<And>rss. r = Some rss \<Longrightarrow> rows_fit (l_debug L) entity rss \<and> \<not> e_broken (l_env L) w'"
  shows "ESelect L d tbl ks (vResult, entity, w0) = Some (Inr (case r of
      None \<Rightarrow> (False, vResult, entity, e_close (l_env L) w')
    | Some rss \<Rightarrow>
        let row_entity = (\<lambda>row. load (l_ops L) (rs_cols (hd rss)) row entity); rows = rs_rows (hd rss)
        in (True, vResult @ map (\<lambda>row. l_serialize L (row_entity row)) rows,
            if rows = [] then entity else row_entity (last rows), e_close (l_env L) w')))"
proof (cases "e_prepare (l_env L) sql w")
  case (Pair n w1)
  show ?thesis
  proof (cases n)
    case None
    then obtain s where "ParseSelect (l_env L) d entity tbl ks (ZdbStatement (l_env L)) w = Inr (False, s, w1)"
      using ParseSelect_refused [OF assms(1) [unfolded assms(2)] assms(3,4,6)] Pair assms(2) by blast
    then show ?thesis
      using None Pair assms(7,8) by (auto simp: ESelect_def with_connection_def Let_def db_query_def)
  next
    case (Some m)
    let ?v = "values_of (key_fields entity (valid_keys entity ks))"
    obtain s where s: "ParseSelect (l_env L) d entity tbl ks (ZdbStatement (l_env L)) w = Inr (True, s, w1)"
        "z_stmt s = Some (sql, ?v)"
      using ParseSelect_sends [OF assms(1) [unfolded assms(2)] assms(3,4)] Pair Some assms(2) by blast
    have x: "Exec (l_env L) d s w1 = Inr (r, w')"
      using Exec_values [OF s(2) _ _ assms(5,6), of "l_env L" w1] assms(1,8) Pair Some fields_of_leaves(1) [of entity]
      by (simp add: call_ok_def db_query_def)
    show ?thesis
    proof (cases r)
      case (Some rss)
      then obtain r1 rs where rss: "rss = r1 # rs" using assms(9) by (cases rss) (auto simp: rows_fit_def)
      have "\<exists>rs'. ParseEntityResult (l_debug L) (d_log d) (l_ops L) (l_serialize L)
          (ZdbResultSet_Open (e_broken (l_env L) w') rss) vResult entity =
        Inr (vResult @ map (\<lambda>row. l_serialize L (load (l_ops L) (rs_cols r1) row entity)) (rs_rows r1),
          last_load (l_ops L) (rs_cols r1) (rs_rows r1) entity, rs')"
        using ParseEntityResult_load [where rs = "ZdbResultSet_Open (e_broken (l_env L) w') rss" and fs = entity
            and dbg = "l_debug L" and lg = "d_log d" and ops = "l_ops L" and ser = "l_serialize L" and v = vResult]
          assms(9) [OF Some] rss by (auto simp: rows_fit_def ZdbResultSet_Open_def)
      then show ?thesis
        using s(1) x assms(7) Some rss by (auto simp: ESelect_def with_connection_def Let_def last_load_def)
    qed (use s(1) x assms(7) in \<open>simp add: ESelect_def with_connection_def Let_def\<close>)
  qed
qed

lemma int_field_record [simp]:
  "record_ok False cols (int_field n i # fs) \<longleftrightarrow> col_index n cols \<noteq> None \<and> record_ok False cols fs"
  "slots cols j (int_field n i # fs) = the (col_index n cols) # slots cols (the (col_index n cols)) fs"
  "load sample_ops cols row (int_field n i # fs) =
    int_field n (uint (word_of_int (named_cell cols row n) :: 32 word)) # load sample_ops cols row fs"
  by (auto simp: int_field_def column_ok_def is_read_def sample_ops_def Let_def split: option.splits)

lemma sample_select:
  "ESelect (sample_lib sample_answer) sample_driver ''player'' [''id''] ([], [int_field ''id'' 7, int_field ''hp'' 30], []) =
    Some (Inr (True, [''idhp'', ''idhp''], [int_field ''id'' 2, int_field ''hp'' 20],
      [(''SELECT * FROM `player` WHERE `id`=?'', [Some (Bind_Int 7)])]))"
  using ESelect_result [where L = "sample_lib sample_answer" and entity = "[int_field ''id'' 7, int_field ''hp'' 30]"
      and tbl = "''player''" and ks = "[''id'']" and d = sample_driver and ?w0.0 = "[]" and w = "[]" and vResult = "[]",
      OF _ refl]
  by (simp add: sample_entity sample_texts db_query_def values_of_def key_fields_def rows_fit_def valid_keys_def
      sample_answer_def named_cell_def)

text \<open>C2. \<open>ESelect\<close> on an entity without submessages: whatever the order of the keys, it
  executes one SELECT over those keys that are set fields, with the values of these fields. A
  result whose columns fit the entity is returned as one serialized entity for every row, in order,
  with the row's values loaded; an error of the server gives False and changes nothing.\<close>

theorem ESelect_selects:
  assumes "call_ok (l_env L) entity tbl sql" "sql = select_text tbl (valid_keys entity ks)" "flat entity" "distinct ks"
    "no_strings entity" "d_log d" "ZdbStatement_Open (l_env L) w0 = Some w"
    "db_query (l_env L) sql (values_of (key_fields entity (valid_keys entity ks))) w = (r, w')"
    "\<And>rss. r = Some rss \<Longrightarrow> rows_fit (l_debug L) entity rss \<and> \<not> e_broken (l_env L) w'"
  shows "ESelect L d tbl ks (vResult, entity, w0) = Some (Inr (case r of
      None \<Rightarrow> (False, vResult, entity, e_close (l_env L) w')
    | Some rss \<Rightarrow>
        let row_entity = (\<lambda>row. load (l_ops L) (rs_cols (hd rss)) row entity); rows = rs_rows (hd rss)
        in (True, vResult @ map (\<lambda>row. l_serialize L (row_entity row)) rows,
            if rows = [] then entity else row_entity (last rows), e_close (l_env L) w')))"
  by (rule ESelect_result [OF assms])

lemma ESelect_selects_witness:
  "ESelect (sample_lib sample_answer) sample_driver ''player'' [''id''] ([], [int_field ''id'' 7, int_field ''hp'' 30], []) =
    Some (Inr (True, [''idhp'', ''idhp''], [int_field ''id'' 2, int_field ''hp'' 20],
      [(''SELECT * FROM `player` WHERE `id`=?'', [Some (Bind_Int 7)])]))"
  using ESelect_selects [where L = "sample_lib sample_answer" and entity = "[int_field ''id'' 7, int_field ''hp'' 30]"
      and tbl = "''player''" and ks = "[''id'']" and d = sample_driver and ?w0.0 = "[]" and w = "[]" and vResult = "[]",
      OF _ refl]
  by (simp add: sample_entity sample_texts db_query_def values_of_def key_fields_def rows_fit_def valid_keys_def
      sample_answer_def named_cell_def)

text \<open>C28. The columns are looked up by name for the first row only. For every later row the column
  indices noted then give the same record as the lookup by name would, and the same number of
  slots.\<close>

theorem AddReturnRecord_by_name:
  assumes "record_ok dbg (s_cols rs) fs" "length (slots (s_cols rs) 0 fs) \<le> 256" "s_cols rs' = s_cols rs"
  shows "\<exists>first arr n record arr'.
    AddFirstReturnRecord dbg haslog ops rs 0 fs (replicate 256 0) 0 = Inr (first, arr, n) \<and>
    AddReturnRecord ops rs' first arr 0 = Inr (record, n) \<and>
    AddFirstReturnRecord dbg haslog ops rs' 0 first (replicate 256 0) 0 = Inr (record, arr', n)"
proof -
  let ?first = "load ops (s_cols rs) (s_row rs) fs"
  have "AddReturnRecord ops rs' ?first (overwrite 0 (slots (s_cols rs) 0 fs) (replicate 256 0)) 0 =
      Inr (load ops (s_cols rs) (s_row rs') ?first, length (slots (s_cols rs) 0 fs))"
    using AddReturnRecord_load [of dbg rs' ?first 0 0 _ ops] assms holds_slots_first [OF assms(2)]
    by (simp add: holds_slots_def)
  then show ?thesis
    using assms AddFirstReturnRecord_load [of dbg rs fs 0 0 "replicate 256 0" haslog ops]
      AddFirstReturnRecord_load [of dbg rs' ?first 0 0 "replicate 256 0" haslog ops] by simp
qed

definition sample_rows :: "int list \<Rightarrow> int list list \<Rightarrow> int rset" where
  "sample_rows r rows = \<lparr>s_cols = [(''a'', 3)], s_rows = rows, s_row = r, s_more = [], s_opened = True, s_broken = False\<rparr>"

lemma AddReturnRecord_by_name_witness:
  "\<exists>first arr n record arr'.
    AddFirstReturnRecord False True sample_ops (sample_rows [1] []) 0 [int_field ''a'' 0] (replicate 256 0) 0 = Inr (first, arr, n) \<and>
    AddReturnRecord sample_ops (sample_rows [2] []) first arr 0 = Inr (record, n) \<and>
    AddFirstReturnRecord False True sample_ops (sample_rows [2] []) 0 first (replicate 256 0) 0 = Inr (record, arr', n)"
  by (rule AddReturnRecord_by_name) (simp_all add: sample_rows_def)

text \<open>C29. The column indices are kept in an array of 256. The first row of a record that fits its
  columns is read without a fault exactly if the record has at most 256 singular fields, those of
  submessages included; otherwise the store behind the array is reached.\<close>

theorem AddFirstReturnRecord_slots:
  assumes "record_ok dbg (s_cols rs) fs"
  shows "AddFirstReturnRecord dbg haslog ops rs 0 fs (replicate 256 0) 0 =
    (if length (slots (s_cols rs) 0 fs) \<le> 256
     then Inr (load ops (s_cols rs) (s_row rs) fs, overwrite 0 (slots (s_cols rs) 0 fs) (replicate 256 0),
           length (slots (s_cols rs) 0 fs))
     else Inl Write_Out_Of_Bounds)"
  using AddFirstReturnRecord_load [of dbg rs fs 0 0 "replicate 256 0" haslog ops] assms
    AddFirstReturnRecord_full [of dbg rs fs 0 "replicate 256 0" 0 haslog ops] by simp

lemma sample_many: "record_ok False [(''a'', 3)] (replicate n (int_field ''a'' 0))"
  "length (slots [(''a'', 3)] i (replicate n (int_field ''a'' 0))) = n"
  by (induction n arbitrary: i) simp_all

lemma AddFirstReturnRecord_slots_witness:
  "AddFirstReturnRecord False True sample_ops (sample_rows [1] []) 0 (replicate 257 (int_field ''a'' 0)) (replicate 256 0) 0 =
    Inl Write_Out_Of_Bounds"
  by (subst AddFirstReturnRecord_slots) (simp_all add: sample_rows_def sample_many)


section \<open>Writing entities that go wrong\<close>


text \<open>C31. A set field of type \<open>string\<close> is bound through a temporary that is gone when the statement
  is executed: \<open>EInsert\<close> on such an entity ends with the load through that pointer, whatever the
  server would have answered.\<close>

theorem EInsert_string_dangles:
  assumes "call_ok (l_env L) entity tbl sql" "sql = insert_text tbl ks (set_names entity ks)"
    "keys_in_order entity ks" "ZdbStatement_Open (l_env L) w0 = Some w" "e_prepare (l_env L) sql w = (Some n, w')"
    "fd \<in> set (leaves entity)" "fld_type fd = TYPE_STRING"
  shows "EInsert L d entity tbl ks w0 = Some (Inl Dangling_Pointer)"
proof -
  let ?fds = "key_fields entity ks @ set_fields entity ks"
  have "list_ex dangling (values_of ?fds)"
    using dangling_values [of entity ?fds] fields_of_leaves [of entity ks] assms(1,6,7)
    by (auto simp: call_ok_def key_fields_def set_fields_def)
  then show ?thesis
    using ParseInsert_sends [OF assms(1) [unfolded assms(2)] assms(3), of w n w' d] assms(2,4,5)
    by (auto simp: EInsert_def with_connection_def exec_update_def Exec_def Let_def)
qed

lemma EInsert_string_dangles_witness:
  "EInsert (sample_lib sample_answer) sample_driver
     [int_field ''id'' 7, Field ''name'' TYPE_STRING False True (Scalar (Str_Val ''bob''))] ''player'' [''id''] [] =
    Some (Inl Dangling_Pointer)"
  by (rule EInsert_string_dangles [OF _ refl,
        where fd = "Field ''name'' TYPE_STRING False True (Scalar (Str_Val ''bob''))" and w = "[]" and n = 2 and w' = "[]"])
    (simp_all add: sample_entity sample_texts bindable_def)

end
