(* ===== verification/Pb_Importer.thy ===== *)
theory Pb_Importer
  imports Db_Engine
begin

text \<open>
  \<open>src/src/db/ProtobufImporter.h\<close> and \<open>src/src/db/ProtobufImporter.cpp\<close>: the list of files that
  \<open>ImportDynamicPath\<close> reads line by line, and \<open>GetEntityProto\<close>, which keeps one message for every
  type name and clears it before it is used again.
\<close>

section \<open>The list of files\<close>

text \<open>\<open>fgets\<close> with room for \<open>n\<close> characters: up to and with the end of the line.\<close>

fun fgets :: "nat \<Rightarrow> string \<Rightarrow> string \<times> string" where
  "fgets 0 s = ([], s)"
| "fgets (Suc n) [] = ([], [])"
| "fgets (Suc n) (c # s) =
     (if c = CHR 0x0A then ([c], s) else case fgets n s of (l, r) \<Rightarrow> (c # l, r))"

lemma fgets_shorter: "fgets (Suc n) s = (l, r) \<Longrightarrow> s \<noteq> [] \<Longrightarrow> length r < length s"
proof -
  have le: "fgets n s = (l, r) \<Longrightarrow> length r \<le> length s" for n s l r
    by (induction n s arbitrary: l r rule: fgets.induct) (auto split: if_splits prod.splits intro: le_SucI)
  show "fgets (Suc n) s = (l, r) \<Longrightarrow> s \<noteq> [] \<Longrightarrow> length r < length s"
    by (cases s) (auto split: if_splits prod.splits dest: le simp: less_Suc_eq_le)
qed

text \<open>
  The loop that removes the end of the line: \<open>n\<close> is \<open>nIndex\<close> before it is decreased, the result
  \<open>nIndex\<close> behind the loop and the line.
\<close>

fun trim_line :: "nat \<Rightarrow> string \<Rightarrow> int \<times> string" where
  "trim_line 0 chLine = (-1, chLine)"
| "trim_line (Suc 0) chLine = (0, chLine)"
| "trim_line (Suc (Suc n)) chLine =
     (if chLine ! Suc n \<noteq> CHR 0x0D \<and> chLine ! Suc n \<noteq> CHR 0x0A then (int (Suc n), chLine)
      else trim_line (Suc n) (take (Suc n) chLine))"

text \<open>The names of the files that are imported.\<close>

function import_lines :: "string \<Rightarrow> string list" where
  "import_lines s =
     (if s = [] then []
      else let (chLine, s) = fgets 511 s;
               chLine = c_str chLine;
               (nIndex, chLine) = trim_line (length chLine) chLine
           in (if nIndex > 0 then [chLine] else []) @ import_lines s)"
  by pat_completeness auto
termination
  by (relation "measure length")
    (auto simp: numeral_eq_Suc dest!: fgets_shorter [OF sym] split: prod.splits)

declare import_lines.simps [simp del]

definition find_last_of :: "char \<Rightarrow> string \<Rightarrow> nat option" where
  "find_last_of c s =
     (if c \<in> set s then Some (length s - 1 - length (takeWhile (\<lambda>d. d \<noteq> c) (rev s))) else None)"

text \<open>
  The directory that is mapped and the files that are imported. A list that cannot be opened ends
  in an exception.
\<close>

definition ImportDynamicPath :: "(string \<Rightarrow> string option) \<Rightarrow> string \<Rightarrow> (string \<times> string list) res" where
  "ImportDynamicPath fopen strDynamicPath =
     (let dir = (case find_last_of CHR ''/'' strDynamicPath of
                   Some found \<Rightarrow> take found strDynamicPath
                 | None \<Rightarrow> ''./'')
      in case fopen strDynamicPath of
           None \<Rightarrow> Inl Uncaught_Exception
         | Some content \<Rightarrow> Inr (dir, import_lines content))"

text \<open>
  The import of a file into the pool of the importer; the loop over the lines ignores the answer.
\<close>

definition ImportMessageTypeFromProtoFile :: "(string \<Rightarrow> 'p \<Rightarrow> bool \<times> 'p) \<Rightarrow> string \<Rightarrow> 'p \<Rightarrow> int \<times> 'p" where
  "ImportMessageTypeFromProtoFile Import proto_filename pool =
     (case Import proto_filename pool of (file_desc, pool) \<Rightarrow> (if \<not> file_desc then -1 else 0, pool))"

definition import_files :: "(string \<Rightarrow> 'p \<Rightarrow> bool \<times> 'p) \<Rightarrow> string list \<Rightarrow> 'p \<Rightarrow> 'p" where
  "import_files Import = fold (\<lambda>chLine pool. snd (ImportMessageTypeFromProtoFile Import chLine pool))"

text \<open>The prototype of a type, by its descriptor in the pool.\<close>

definition LookupPrototype :: "(string \<Rightarrow> 'd option) \<Rightarrow> ('d \<Rightarrow> 'm option) \<Rightarrow> string \<Rightarrow> 'm option" where
  "LookupPrototype FindDescriptor FindPrototype strTypeName =
     (case FindDescriptor strTypeName of None \<Rightarrow> None | Some descriptor \<Rightarrow> FindPrototype descriptor)"

text \<open>
  The parsing of a single file. The result is the code, the descriptor and the number of files left
  open: the early return behind a parse error does not close the file.
\<close>

definition GetMessageTypeFromProtoFile ::
  "(string \<Rightarrow> string option) \<Rightarrow> (string \<Rightarrow> 'd \<Rightarrow> bool \<times> 'd) \<Rightarrow> ('d \<Rightarrow> bool) \<Rightarrow> (string \<Rightarrow> 'd \<Rightarrow> 'd) \<Rightarrow>
    string \<Rightarrow> 'd \<Rightarrow> int \<times> 'd \<times> nat" where
  "GetMessageTypeFromProtoFile fopen Parse has_name set_name proto_filename out_desc_proto =
     (case fopen proto_filename of
        None \<Rightarrow> (-1, out_desc_proto, 0)
      | Some content \<Rightarrow>
          case Parse content out_desc_proto of
            (False, out_desc_proto) \<Rightarrow> (-2, out_desc_proto, 1)
          | (True, out_desc_proto) \<Rightarrow>
              (0, if has_name out_desc_proto then out_desc_proto else set_name proto_filename out_desc_proto, 0))"

section \<open>The messages of the types\<close>

type_synonym 'f proto_cache = "string \<rightharpoonup> 'f pb_message"

definition GetEntityProto ::
  "('w, 'f, 'c) lib \<Rightarrow> string \<Rightarrow> 'f proto_cache \<Rightarrow> 'f pb_message option \<times> 'f proto_cache" where
  "GetEntityProto L strEntityName cache =
     (case cache strEntityName of
        Some pProto \<Rightarrow>
          let pProto = l_clear L pProto in (Some pProto, cache(strEntityName \<mapsto> pProto))
      | None \<Rightarrow>
          case l_lookup L strEntityName of
            Some prototype \<Rightarrow> (Some prototype, cache(strEntityName \<mapsto> prototype))
          | None \<Rightarrow> (None, cache))"

text \<open>
  Messages of one type: the same fields, whatever their values. \<open>protobuf_ok\<close> states what protobuf
  documents: clearing gives the message \<open>New\<close> gives, and parsing does not change the type and
  stores values of the types of the fields only.
\<close>

fun same_field :: "'f pb_field \<Rightarrow> 'f pb_field \<Rightarrow> bool" and same_value :: "'f pb_value \<Rightarrow> 'f pb_value \<Rightarrow> bool" where
  "same_field (Field n t r h v) fd \<longleftrightarrow>
     n = fld_name fd \<and> t = fld_type fd \<and> r = fld_repeated fd \<and> same_value v (fld_value fd)"
| "same_value (Scalar x) v \<longleftrightarrow> (\<exists>y. v = Scalar y)"
| "same_value (Submessage fs) v \<longleftrightarrow> (case v of Submessage gs \<Rightarrow> list_all2 same_field fs gs | Scalar _ \<Rightarrow> False)"

abbreviation same_type :: "'f pb_message \<Rightarrow> 'f pb_message \<Rightarrow> bool" where
  "same_type \<equiv> list_all2 same_field"

definition protobuf_ok :: "('w, 'f, 'c) lib \<Rightarrow> bool" where
  "protobuf_ok L \<longleftrightarrow>
     (\<forall>name p m. l_lookup L name = Some p \<longrightarrow> message_ok p \<and> (same_type p m \<longrightarrow> l_clear L m = p)) \<and>
     (\<forall>p s. message_ok p \<longrightarrow>
       same_type p (snd (l_parse L p s)) \<and> message_ok (snd (l_parse L p s)) \<and>
       same_type p (snd (l_parse_full L p s)) \<and> message_ok (snd (l_parse_full L p s)))"

text \<open>Every message that is kept has the type of its name.\<close>

definition cache_ok :: "('w, 'f, 'c) lib \<Rightarrow> 'f proto_cache \<Rightarrow> bool" where
  "cache_ok L cache \<longleftrightarrow> (\<forall>name m. cache name = Some m \<longrightarrow> (\<exists>p. l_lookup L name = Some p \<and> same_type p m))"

lemma same_type_refl [simp]: "same_type fs fs"
  by (induction fs rule: message_induct) simp_all

lemma same_type_Field:
  "same_type (Field n t r h (Submessage sub) # fs) gs \<longleftrightarrow>
    (\<exists>h' sub' gs'. gs = Field n t r h' (Submessage sub') # gs' \<and> same_type sub sub' \<and> same_type fs gs')"
  "same_type (Field n t r h (Scalar x) # fs) gs \<longleftrightarrow>
    (\<exists>h' y gs'. gs = Field n t r h' (Scalar y) # gs' \<and> same_type fs gs')"
proof -
  have 1: "same_field (Field n t r h (Submessage sub)) g \<longleftrightarrow> (\<exists>h' sub'. g = Field n t r h' (Submessage sub') \<and> same_type sub sub')"
    for g by (cases g) (auto split: pb_value.splits)
  have 2: "same_field (Field n t r h (Scalar x)) g \<longleftrightarrow> (\<exists>h' y. g = Field n t r h' (Scalar y))"
    for g by (cases g) auto
  show "same_type (Field n t r h (Submessage sub) # fs) gs \<longleftrightarrow>
    (\<exists>h' sub' gs'. gs = Field n t r h' (Submessage sub') # gs' \<and> same_type sub sub' \<and> same_type fs gs')"
    unfolding list_all2_Cons1 1 by blast
  show "same_type (Field n t r h (Scalar x) # fs) gs \<longleftrightarrow>
    (\<exists>h' y gs'. gs = Field n t r h' (Scalar y) # gs' \<and> same_type fs gs')"
    unfolding list_all2_Cons1 2 by blast
qed

lemma same_type_trans: "same_type fs gs \<Longrightarrow> same_type gs hs \<Longrightarrow> same_type fs hs"
proof (induction fs arbitrary: gs hs rule: message_induct)
  case (Sub n t r h sub fs)
  then show ?case unfolding same_type_Field by (auto simp only: same_type_Field) blast
next
  case (Leaf n t r h x fs)
  then show ?case unfolding same_type_Field by (auto simp only: same_type_Field) blast
qed simp

lemma GetEntityProto_fresh:
  assumes "protobuf_ok L" "cache_ok L cache"
  shows "fst (GetEntityProto L name cache) = l_lookup L name" "cache_ok L (snd (GetEntityProto L name cache))"
proof -
  have "cache name = Some m \<Longrightarrow> l_lookup L name = Some (l_clear L m)" for m
    using assms unfolding protobuf_ok_def cache_ok_def by metis
  then show "fst (GetEntityProto L name cache) = l_lookup L name" "cache_ok L (snd (GetEntityProto L name cache))"
    using assms(2) by (auto simp: GetEntityProto_def cache_ok_def Let_def split: option.splits)
qed

lemma cache_ok_update:
  "cache_ok L cache \<Longrightarrow> l_lookup L name = Some p \<Longrightarrow> same_type p m \<Longrightarrow> cache_ok L (cache(name \<mapsto> m))"
  by (auto simp: cache_ok_def)

section \<open>Lemmas on the list of files\<close>

lemma fgets_line:
  "CHR 0x0A \<notin> set l \<Longrightarrow> length l < n \<Longrightarrow> fgets n (l @ CHR 0x0A # r) = (l @ [CHR 0x0A], r)"
proof (induction l arbitrary: n)
  case Nil
  then show ?case by (cases n) auto
next
  case (Cons c l)
  then show ?case by (cases n) auto
qed

text \<open>The characters of the end of a line are removed, as long as two characters are left.\<close>

lemma trim_line_end:
  assumes "list_all (\<lambda>c. c = CHR 0x0D \<or> c = CHR 0x0A) eol" "1 < length s"
    "last s \<noteq> CHR 0x0D" "last s \<noteq> CHR 0x0A"
  shows "trim_line (length (s @ eol)) (s @ eol) = (int (length s) - 1, s)"
  using assms(1)
proof (induction eol rule: rev_induct)
  case Nil
  obtain n where n: "length s = Suc (Suc n)" using assms(2) by (cases "length s" rule: nat.exhaust; cases "length s - 1") auto
  then have "s ! Suc n = last s" by (subst last_conv_nth) auto
  then show ?case using assms(3,4) n by simp
next
  case (snoc c eol)
  have c: "c = CHR 0x0D \<or> c = CHR 0x0A" and eol: "list_all (\<lambda>c. c = CHR 0x0D \<or> c = CHR 0x0A) eol"
    using snoc.prems by simp_all
  obtain n where n: "length (s @ eol) = Suc n" using assms(2) by (cases "length (s @ eol)") auto
  have "trim_line (length (s @ eol @ [c])) (s @ eol @ [c]) = trim_line (Suc n) (take (Suc n) (s @ eol @ [c]))"
  proof -
    have "(s @ eol @ [c]) ! Suc n = c" "length (s @ eol @ [c]) = Suc (Suc n)"
      using n nth_append_length [of "s @ eol" c "[]"] by simp_all
    then show ?thesis using c by (simp only: trim_line.simps) auto
  qed
  moreover have "take (Suc n) (s @ eol @ [c]) = s @ eol" using n by simp
  ultimately show ?case using snoc.IH [OF eol] n by simp
qed

text \<open>
  A name of two characters or more that has no control characters, followed by one of the two ends
  of a line.
\<close>

definition file_name_ok :: "string \<Rightarrow> bool" where
  "file_name_ok s \<longleftrightarrow> 1 < length s \<and> length s < 500 \<and> list_all (\<lambda>c. c \<noteq> NUL \<and> c \<noteq> CHR 0x0D \<and> c \<noteq> CHR 0x0A) s"

definition end_of_line :: "string \<Rightarrow> bool" where
  "end_of_line e \<longleftrightarrow> e = [CHR 0x0A] \<or> e = [CHR 0x0D, CHR 0x0A]"

lemma import_one:
  assumes "file_name_ok s" "end_of_line e"
  shows "import_lines (s @ e @ r) = s # import_lines r"
proof -
  obtain l where l: "s @ e = l @ [CHR 0x0A]" "CHR 0x0A \<notin> set l" "length l < 511"
  proof (cases "e = [CHR 0x0A]")
    case True
    then show ?thesis using assms(1) by (intro that [of s]) (auto simp: file_name_ok_def list_all_iff)
  next
    case False
    then show ?thesis
      using assms by (intro that [of "s @ [CHR 0x0D]"]) (auto simp: file_name_ok_def list_all_iff end_of_line_def)
  qed
  have "NUL \<notin> set s" using assms(1) by (auto simp: file_name_ok_def list_all_iff)
  moreover have "NUL \<notin> set e" using assms(2) by (auto simp: end_of_line_def)
  ultimately have "NUL \<notin> set (s @ e)" by simp
  then have "c_str (s @ e) = s @ e" unfolding c_str_def takeWhile_eq_all_conv by blast
  moreover have "trim_line (length (s @ e)) (s @ e) = (int (length s) - 1, s)"
  proof (rule trim_line_end)
    have "last s \<in> set s" using assms by (intro last_in_set) (auto simp: file_name_ok_def)
    then show "last s \<noteq> CHR 0x0D" "last s \<noteq> CHR 0x0A"
      using assms(1) by (auto simp: file_name_ok_def list_all_iff)
    show "1 < length s" using assms(1) by (simp add: file_name_ok_def)
    show "list_all (\<lambda>c. c = CHR 0x0D \<or> c = CHR 0x0A) e" using assms(2) by (auto simp: end_of_line_def)
  qed
  moreover have "fgets 511 (s @ e @ r) = (s @ e, r)"
    using fgets_line [of l 511 r] l by (simp only: append_assoc [symmetric]) simp
  ultimately show ?thesis
    using assms(1) by (subst import_lines.simps) (auto simp: file_name_ok_def Let_def)
qed

lemma import_names:
  "list_all (\<lambda>(s, e). file_name_ok s \<and> end_of_line e) lines \<Longrightarrow>
    import_lines (concat (map (\<lambda>(s, e). s @ e) lines)) = map fst lines"
  by (induction lines) (auto simp: import_one import_lines.simps [of "[]"])

end
