(* ===== verification/Proc_Properties.thy ===== *)
theory Proc_Properties
  imports Db_Properties Pb_Importer
begin

text \<open>
  Stored procedures: the CALL text the engine prepares, the values it binds, and the records a query
  adds to the message; and the list of message files the importer reads.
\<close>

section \<open>The call\<close>















section \<open>The records of a query\<close>









section \<open>The list of message files\<close>

lemma find_last_slash: "CHR ''/'' \<notin> set fname \<Longrightarrow> find_last_of CHR ''/'' (dir @ CHR ''/'' # fname) = Some (length dir)"
proof -
  assume fname: "CHR ''/'' \<notin> set fname"
  have "takeWhile (\<lambda>d. d \<noteq> CHR ''/'') (rev fname @ CHR ''/'' # rev dir) = rev fname"
    using fname by (subst takeWhile_append2) auto
  then show ?thesis by (simp add: find_last_of_def)
qed

text \<open>C38. The importer maps the directory of \<open>protos.def\<close> and imports the files named in it: every line
  that is a name of two to 499 characters, ended by a line feed with or without a carriage return
  before it, gives this name, in the order of the lines.\<close>

theorem ImportDynamicPath_names:
  assumes "CHR ''/'' \<notin> set fname" "list_all (\<lambda>(name, eol). file_name_ok name \<and> end_of_line eol) lines"
    "fopen (dir @ CHR ''/'' # fname) = Some (concat (map (\<lambda>(name, eol). name @ eol) lines))"
  shows "ImportDynamicPath fopen (dir @ CHR ''/'' # fname) = Inr (dir, map fst lines)"
  using import_names [OF assms(2)] find_last_slash [OF assms(1)] assms(3) by (simp add: ImportDynamicPath_def)

lemma ImportDynamicPath_names_witness:
  "ImportDynamicPath (\<lambda>path. if path = ''dynamic_pb/protos.def'' then Some (''a.proto'' @ [CHR 0x0D, CHR 0x0A] @ ''b.proto'' @ [CHR 0x0A]) else None)
     ''dynamic_pb/protos.def'' = Inr (''dynamic_pb'', [''a.proto'', ''b.proto''])"
  using ImportDynamicPath_names [of "''protos.def''" "[(''a.proto'', [CHR 0x0D, CHR 0x0A]), (''b.proto'', [CHR 0x0A])]"
      "\<lambda>path. if path = ''dynamic_pb/protos.def'' then Some (''a.proto'' @ [CHR 0x0D, CHR 0x0A] @ ''b.proto'' @ [CHR 0x0A]) else None"
      "''dynamic_pb''"]
  by (simp add: file_name_ok_def end_of_line_def)

end
