(* ===== verification/Db_Stub.thy ===== *)
theory Db_Stub
  imports Pb_Importer
begin

text \<open>
  \<open>src/src/db/ProtobufDbStub.cpp\<close>: the stub of one worker thread, made of an engine and an importer.
  Every operation is repeated until the engine reports success, as long as the engine is open; the
  operations on texts parse them into the message that is kept for the type.

  The outer option is None when the repetition does not end. Between two attempts the thread sleeps;
  the state of the world moves on with the attempts.
\<close>

section \<open>The stub\<close>

record 'f stub =
  st_engine :: engine
  st_cache :: "'f proto_cache"

definition stub_Open ::
  "('w, 'f, 'c) lib \<Rightarrow> bool \<Rightarrow> string \<Rightarrow> char list \<Rightarrow> char list \<Rightarrow> char list \<Rightarrow> 'w \<Rightarrow> ('f stub \<times> 'w) res option" where
  "stub_Open L pLog dbServerId dbUid dbPwd dbName w =
     (case OnInit pLog dbServerId dbUid dbPwd dbName 1 of
        Inl f \<Rightarrow> Some (Inl f)
      | Inr en \<Rightarrow>
          map_option (\<lambda>r. bindR r (\<lambda>(en, w). Inr (\<lparr>st_engine = en, st_cache = Map.empty\<rparr>, w)))
            (engine_Open (l_env L) en w))"

definition stub_Close :: "'f stub \<Rightarrow> 'f stub" where
  "stub_Close st = st\<lparr>st_engine := engine_Close (st_engine st)\<rparr>"

section \<open>Repetition\<close>

text \<open>\<open>while (IsOpened() && !op())\<close>, with an operation that answers whether it succeeded.\<close>

partial_function (option) retry_loop :: "('s \<Rightarrow> (bool \<times> 's) res option) \<Rightarrow> 's \<Rightarrow> 's res option" where
  "retry_loop op s =
     Option.bind (op s) (\<lambda>r.
       if isl r then Some (Inl (projl r))
       else let (ok, s) = projr r in if ok then Some (Inr s) else retry_loop op s)"

definition while_open :: "'f stub \<Rightarrow> ('s \<Rightarrow> (bool \<times> 's) res option) \<Rightarrow> 's \<Rightarrow> 's res option" where
  "while_open st op s = (if en_opened (st_engine st) then retry_loop op s else Some (Inr s))"

abbreviation st_driver :: "'f stub \<Rightarrow> driver" where
  "st_driver st \<equiv> en_driver (st_engine st)"

section \<open>Operations on messages\<close>

text \<open>\<open>Descriptor::name()\<close>: the name of a type without the packages it is in.\<close>

definition descriptor_name :: "string \<Rightarrow> string" where
  "descriptor_name type_name = rev (takeWhile (\<lambda>c. c \<noteq> CHR ''.'') (rev type_name))"

definition stub_EntityAdd ::
  "('w, 'f, 'c) lib \<Rightarrow> 'f stub \<Rightarrow> 'f pb_message \<Rightarrow> string \<Rightarrow> string list \<Rightarrow> 'w \<Rightarrow> 'w res option" where
  "stub_EntityAdd L st entity sTableName vKey =
     while_open st (EInsert L (st_driver st) entity sTableName vKey)"

definition stub_EntitySave ::
  "('w, 'f, 'c) lib \<Rightarrow> 'f stub \<Rightarrow> 'f pb_message \<Rightarrow> string \<Rightarrow> string list \<Rightarrow> 'w \<Rightarrow> 'w res option" where
  "stub_EntitySave L st entity sTableName vKey =
     while_open st (EUpdate L (st_driver st) entity sTableName vKey True)"

definition stub_EntityDelete ::
  "('w, 'f, 'c) lib \<Rightarrow> 'f stub \<Rightarrow> 'f pb_message \<Rightarrow> string \<Rightarrow> string list \<Rightarrow> 'w \<Rightarrow> 'w res option" where
  "stub_EntityDelete L st entity sTableName vKey =
     while_open st (EDelete L (st_driver st) entity sTableName vKey)"

definition stub_StoredProcUpdate ::
  "('w, 'f, 'c) lib \<Rightarrow> 'f stub \<Rightarrow> string \<Rightarrow> 'f pb_message \<Rightarrow> 'w \<Rightarrow> 'w res option" where
  "stub_StoredProcUpdate L st type_name storedProc =
     while_open st (SpUpdate L (st_driver st) (descriptor_name type_name) storedProc)"

definition stub_EntityLoad ::
  "('w, 'f, 'c) lib \<Rightarrow> 'f stub \<Rightarrow> string \<Rightarrow> string list \<Rightarrow> string list \<times> 'f pb_message \<times> 'w \<Rightarrow>
    (string list \<times> 'f pb_message \<times> 'w) res option" where
  "stub_EntityLoad L st sTableName vKey = while_open st (ESelect L (st_driver st) sTableName vKey)"

definition stub_StoredProcQuery ::
  "('w, 'f, 'c) lib \<Rightarrow> 'f stub \<Rightarrow> string \<Rightarrow> 'f pb_message \<Rightarrow> (string \<times> 'f pb_message list) list \<times> 'w \<Rightarrow>
    ((string \<times> 'f pb_message list) list \<times> 'w) res option" where
  "stub_StoredProcQuery L st type_name storedProc =
     while_open st (SpQuery L (st_driver st) (descriptor_name type_name) storedProc)"

section \<open>Operations on texts\<close>

text \<open>
  The message for the type is looked up and the text parsed into it; without a message, or with a
  text that does not parse, nothing is done. \<open>act\<close> is the operation on the message, with the
  message it leaves. \<open>strict\<close> is \<open>ParseFromString\<close>, which the debug build uses for procedures.
\<close>

definition with_proto ::
  "('w, 'f, 'c) lib \<Rightarrow> bool \<Rightarrow> 'f stub \<Rightarrow> string \<Rightarrow> string \<Rightarrow> 's \<Rightarrow>
    ('f stub \<Rightarrow> 'f pb_message \<Rightarrow> ('s \<times> 'f pb_message) res option) \<Rightarrow> ('s \<times> 'f stub) res option" where
  "with_proto L strict st strName strText s act =
     (let (pProto, cache) = GetEntityProto L strName (st_cache st);
          st = st\<lparr>st_cache := cache\<rparr>
      in case pProto of
           None \<Rightarrow> Some (Inr (s, st))
         | Some pProto \<Rightarrow>
             let (ok, pProto) = (if strict then l_parse_full L else l_parse L) pProto strText
             in if \<not> ok then Some (Inr (s, st\<lparr>st_cache := cache(strName \<mapsto> pProto)\<rparr>))
                else map_option (\<lambda>r. bindR r (\<lambda>(s, pProto). Inr (s, st\<lparr>st_cache := cache(strName \<mapsto> pProto)\<rparr>)))
                       (act st pProto))"

text \<open>The operation leaves the message as it is.\<close>

definition keep :: "'f pb_message \<Rightarrow> 's res option \<Rightarrow> ('s \<times> 'f pb_message) res option" where
  "keep m r = map_option (\<lambda>r. bindR r (\<lambda>s. Inr (s, m))) r"

definition EntityLoadString ::
  "('w, 'f, 'c) lib \<Rightarrow> 'f stub \<Rightarrow> string \<Rightarrow> string \<Rightarrow> string \<Rightarrow> string list \<Rightarrow> string list \<times> 'w \<Rightarrow>
    ((string list \<times> 'w) \<times> 'f stub) res option" where
  "EntityLoadString L st strEntityName strEntity sTableName vKey vw =
     with_proto L False st strEntityName strEntity vw (\<lambda>st m.
       map_option (\<lambda>r. bindR r (\<lambda>(vResult, m, w). Inr ((vResult, w), m)))
         (stub_EntityLoad L st sTableName vKey (fst vw, m, snd vw)))"

definition EntityAddString ::
  "('w, 'f, 'c) lib \<Rightarrow> 'f stub \<Rightarrow> string \<Rightarrow> string \<Rightarrow> string \<Rightarrow> string list \<Rightarrow> 'w \<Rightarrow> ('w \<times> 'f stub) res option" where
  "EntityAddString L st strEntityName strEntity sTableName vKey w =
     with_proto L False st strEntityName strEntity w (\<lambda>st m. keep m (stub_EntityAdd L st m sTableName vKey w))"

definition EntitySaveString ::
  "('w, 'f, 'c) lib \<Rightarrow> 'f stub \<Rightarrow> string \<Rightarrow> string \<Rightarrow> string \<Rightarrow> string list \<Rightarrow> 'w \<Rightarrow> ('w \<times> 'f stub) res option" where
  "EntitySaveString L st strEntityName strEntity sTableName vKey w =
     with_proto L False st strEntityName strEntity w (\<lambda>st m. keep m (stub_EntitySave L st m sTableName vKey w))"

definition EntityDeleteString ::
  "('w, 'f, 'c) lib \<Rightarrow> 'f stub \<Rightarrow> string \<Rightarrow> string \<Rightarrow> string \<Rightarrow> string list \<Rightarrow> 'w \<Rightarrow> ('w \<times> 'f stub) res option" where
  "EntityDeleteString L st strEntityName strEntity sTableName vKey w =
     with_proto L False st strEntityName strEntity w (\<lambda>st m. keep m (stub_EntityDelete L st m sTableName vKey w))"

text \<open>The result of a query is the message with the records that were added.\<close>

definition StoredProcQueryString ::
  "('w, 'f, 'c) lib \<Rightarrow> 'f stub \<Rightarrow> string \<Rightarrow> string \<Rightarrow> string \<times> 'w \<Rightarrow> ((string \<times> 'w) \<times> 'f stub) res option" where
  "StoredProcQueryString L st strProcName strStoredProc sw =
     with_proto L (l_debug L) st strProcName strStoredProc sw (\<lambda>st m.
       map_option (\<lambda>r. bindR r (\<lambda>(records, w). Inr ((l_serialize_sp L m records, w), m)))
         (stub_StoredProcQuery L st strProcName m ([], snd sw)))"

definition StoredProcUpdateString ::
  "('w, 'f, 'c) lib \<Rightarrow> 'f stub \<Rightarrow> string \<Rightarrow> string \<Rightarrow> 'w \<Rightarrow> ('w \<times> 'f stub) res option" where
  "StoredProcUpdateString L st strProcName strStoredProc w =
     with_proto L (l_debug L) st strProcName strStoredProc w (\<lambda>st m.
       keep m (stub_StoredProcUpdate L st strProcName m w))"

section \<open>When a repetition ends\<close>

text \<open>An operation without faults, as a function: whether it succeeds, and the next state.\<close>

definition attempts :: "('s \<Rightarrow> bool \<times> 's) \<Rightarrow> nat \<Rightarrow> 's \<Rightarrow> bool \<times> 's" where
  "attempts f n s = f (((snd \<circ> f) ^^ n) s)"

lemma attempts_Suc: "attempts f (Suc n) s = attempts f n (snd (f s))"
  by (simp add: attempts_def funpow_swap1)

lemma attempts_0: "attempts f 0 s = f s"
  by (simp add: attempts_def)

text \<open>An operation that does not fault on the states of a set it stays in.\<close>

definition faultless_on :: "('s \<Rightarrow> bool) \<Rightarrow> ('s \<Rightarrow> (bool \<times> 's) res option) \<Rightarrow> ('s \<Rightarrow> bool \<times> 's) \<Rightarrow> bool" where
  "faultless_on Q op f \<longleftrightarrow> (\<forall>s. Q s \<longrightarrow> op s = Some (Inr (f s)) \<and> Q (snd (f s)))"

lemma faultless_onD: "faultless_on Q op f \<Longrightarrow> Q s \<Longrightarrow> op s = Some (Inr (f s)) \<and> Q (snd (f s))"
  by (simp add: faultless_on_def)

lemma retry_loop_succeeds:
  assumes "faultless_on Q op f" "Q s" "fst (attempts f n s)" "\<And>i. i < n \<Longrightarrow> \<not> fst (attempts f i s)"
  shows "retry_loop op s = Some (Inr (snd (attempts f n s)))"
  using assms(2-4)
proof (induction n arbitrary: s)
  case 0
  then show ?case
    using faultless_onD [OF assms(1) 0(1)] by (subst retry_loop.simps) (cases "f s", simp add: attempts_0)
next
  case (Suc n)
  note s = faultless_onD [OF assms(1) Suc.prems(1)]
  have "\<not> fst (f s)" using Suc.prems(3) [of 0] by (simp add: attempts_0)
  moreover have "retry_loop op (snd (f s)) = Some (Inr (snd (attempts f n (snd (f s)))))"
  proof (rule Suc.IH)
    show "Q (snd (f s))" using s by simp
    show "fst (attempts f n (snd (f s)))" using Suc.prems(2) by (simp add: attempts_Suc)
    show "\<not> fst (attempts f i (snd (f s)))" if "i < n" for i
      using Suc.prems(3) [of "Suc i"] that by (simp add: attempts_Suc)
  qed
  ultimately show ?case using s by (subst retry_loop.simps) (cases "f s", simp add: attempts_Suc)
qed

lemma retry_loop_fails:
  assumes "faultless_on Q op f" "Q s" "\<And>n. \<not> fst (attempts f n s)"
  shows "retry_loop op s = None"
proof -
  have "faultless_on Q op f \<longrightarrow> Q s \<longrightarrow> (\<exists>n. fst (attempts f n s))" if "retry_loop op s = Some y" for y
    using that
  proof (rule retry_loop.raw_induct
      [where P = "\<lambda>op s y. faultless_on Q op f \<longrightarrow> Q s \<longrightarrow> (\<exists>n. fst (attempts f n s))", rotated], intro impI)
    fix loop op s and y :: "'a res"
    assume IH: "\<And>op s y. loop op s = Some y \<Longrightarrow> faultless_on Q op f \<longrightarrow> Q s \<longrightarrow> (\<exists>n. fst (attempts f n s))"
      and step: "Option.bind (op s) (\<lambda>r. if isl r then Some (Inl (projl r))
        else let (ok, s) = projr r in if ok then Some (Inr s) else loop op s) = Some y"
      and op: "faultless_on Q op f" "Q s"
    show "\<exists>n. fst (attempts f n s)"
    proof (cases "fst (f s)")
      case True
      then show ?thesis by (metis attempts_0)
    next
      case False
      then have "loop op (snd (f s)) = Some y" using step faultless_onD [OF op] by (cases "f s") simp
      then show ?thesis using IH op(1) faultless_onD [OF op] attempts_Suc by metis
    qed
  qed
  then show ?thesis using assms by (cases "retry_loop op s") auto
qed

lemma retry_loop_cases_on:
  assumes "faultless_on Q op f" "Q s"
  shows "retry_loop op s =
    (if \<exists>n. fst (attempts f n s) then Some (Inr (snd (attempts f (LEAST n. fst (attempts f n s)) s))) else None)"
proof (cases "\<exists>n. fst (attempts f n s)")
  case True
  then have "fst (attempts f (LEAST n. fst (attempts f n s)) s)" by (rule LeastI_ex)
  then have "retry_loop op s = Some (Inr (snd (attempts f (LEAST n. fst (attempts f n s)) s)))"
    by (rule retry_loop_succeeds [OF assms]) (rule not_less_Least)
  then show ?thesis using True by simp
qed (use retry_loop_fails [OF assms] in simp)

lemma retry_loop_cases:
  assumes "\<And>s. op s = Some (Inr (f s))"
  shows "retry_loop op s =
    (if \<exists>n. fst (attempts f n s) then Some (Inr (snd (attempts f (LEAST n. fst (attempts f n s)) s))) else None)"
  by (rule retry_loop_cases_on [where Q = "\<lambda>_. True"]) (simp_all add: faultless_on_def assms)

section \<open>The cache\<close>

text \<open>The operation by name does not depend on the messages that are kept, and keeps them well-typed.\<close>

lemma with_proto_transparent:
  assumes "protobuf_ok L" "cache_ok L (st_cache st)"
    and "\<And>c m. act (st\<lparr>st_cache := c\<rparr>) m = act st m"
  shows "map_option (map_sum id fst) (with_proto L strict st name text s act) =
    map_option (map_sum id fst) (with_proto L strict (st\<lparr>st_cache := Map.empty\<rparr>) name text s act)"
proof -
  have "fst (GetEntityProto L name (st_cache st)) = fst (GetEntityProto L name Map.empty)"
    using GetEntityProto_fresh(1) [OF assms(1)] assms(2) by (simp add: cache_ok_def)
  moreover have "map_option (map_sum id fst) (map_option (\<lambda>r. bindR r (\<lambda>(s, m). Inr (s, g m))) x) =
      map_option (map_sum id fst) (map_option (\<lambda>r. bindR r (\<lambda>(s, m). Inr (s, h m))) x)" for g h x
    by (cases x) (auto simp: bindR_def split: sum.splits prod.splits)
  ultimately show ?thesis
    using assms(3) by (auto simp: with_proto_def Let_def split: option.splits prod.splits)
qed

lemma with_proto_cache:
  assumes "protobuf_ok L" "cache_ok L (st_cache st)" "with_proto L strict st name text s act = Some (Inr (s', st'))"
    and "\<And>st m s' m'. message_ok m \<Longrightarrow> act st m = Some (Inr (s', m')) \<Longrightarrow> same_type m m'"
  shows "cache_ok L (st_cache st')" "st_engine st' = st_engine st"
proof -
  obtain p cache where g: "GetEntityProto L name (st_cache st) = (p, cache)" by fastforce
  have fresh: "p = l_lookup L name" "cache_ok L cache" using GetEntityProto_fresh [OF assms(1,2), of name] g by simp_all
  have "cache_ok L (st_cache st') \<and> st_engine st' = st_engine st"
  proof (cases p)
    case None
    then show ?thesis using assms(3) g fresh(2) by (auto simp: with_proto_def)
  next
    case (Some m0)
    let ?parse = "(if strict then l_parse_full L else l_parse L) m0 text"
    obtain ok m where m: "?parse = (ok, m)" by fastforce
    have "same_type m0 (snd ?parse)" "message_ok (snd ?parse)"
      using assms(1) Some fresh(1) by (simp_all add: protobuf_ok_def)
    then have ty: "same_type m0 m" "message_ok m" using m by simp_all
    have look: "l_lookup L name = Some m0" using Some fresh(1) by simp
    show ?thesis
    proof (cases ok)
      case False
      then show ?thesis
        using assms(3) g Some m cache_ok_update [OF fresh(2) look ty(1)] by (auto simp: with_proto_def Let_def)
    next
      case True
      then obtain m' where m': "act (st\<lparr>st_cache := cache\<rparr>) m = Some (Inr (s', m'))" "st' = st\<lparr>st_cache := cache(name \<mapsto> m')\<rparr>"
        using assms(3) g Some m by (auto simp: with_proto_def Let_def bindR_Inr_iff)
      then show ?thesis
        using cache_ok_update [OF fresh(2) look] same_type_trans [OF ty(1) assms(4) [OF ty(2) m'(1)]] by simp
    qed
  qed
  then show "cache_ok L (st_cache st')" "st_engine st' = st_engine st" by simp_all
qed

lemma keep_type: "keep m r = Some (Inr (s, m')) \<Longrightarrow> m' = m"
  by (auto simp: keep_def bindR_Inr_iff)

end
