(* ===== verification/Camel_Queue.thy ===== *)
theory Camel_Queue
  imports Prelude "HOL-Library.Multiset"
begin

text \<open>
  \<open>src/src/base/CamelConcurrentQueue.cpp\<close> and \<open>src/src/PbStubTrunkQueue.cpp\<close>: the queue of functions
  that the worker threads fill and the main thread runs.

  The queue of moodycamel keeps the elements of one producer in order. Which producer an element is
  taken from is the parameter \<open>pick\<close>, of which \<open>pick_ok\<close> states what the queue documents:
  \<open>try_dequeue\<close> fails only when every producer's part is empty.
\<close>

section \<open>The queue\<close>

record 'a camel =
  q_close :: bool
  q_callbacks :: "nat \<Rightarrow> 'a list"

definition camel_start :: "'a camel" where
  "camel_start = \<lparr>q_close = False, q_callbacks = (\<lambda>_. [])\<rparr>"

definition camel_Add :: "nat \<Rightarrow> 'a \<Rightarrow> 'a camel \<Rightarrow> bool \<times> 'a camel" where
  "camel_Add p workCb q =
     (if q_close q then (False, q)
      else (True, q\<lparr>q_callbacks := (q_callbacks q)(p := q_callbacks q p @ [workCb])\<rparr>))"

definition camel_Close :: "'a camel \<Rightarrow> 'a camel" where
  "camel_Close q = q\<lparr>q_close := True\<rparr>"

definition dequeue :: "nat \<Rightarrow> 'a camel \<Rightarrow> 'a camel" where
  "dequeue p q = q\<lparr>q_callbacks := (q_callbacks q)(p := tl (q_callbacks q p))\<rparr>"

text \<open>
  \<open>RunOnce\<close>: a function that was taken runs with the queue in any state, and may add to it or close
  it; \<open>call\<close> is what it does.
\<close>

partial_function (option) camel_RunOnce ::
  "('s \<Rightarrow> (nat \<Rightarrow> 'a list) \<Rightarrow> nat option) \<Rightarrow> ('a \<Rightarrow> 'a camel \<times> 's \<Rightarrow> 'a camel \<times> 's) \<Rightarrow> 'a camel \<times> 's \<Rightarrow> ('a camel \<times> 's) option" where
  "camel_RunOnce pick call qs =
     (let q = fst qs; found = pick (snd qs) (q_callbacks q); p = the found
      in if \<not> q_close q \<and> found \<noteq> None
         then camel_RunOnce pick call (call (hd (q_callbacks q p)) (dequeue p q, snd qs))
         else Some qs)"

declare camel_RunOnce.simps [code]

definition pick_ok :: "nat \<Rightarrow> ('s \<Rightarrow> (nat \<Rightarrow> 'a list) \<Rightarrow> nat option) \<Rightarrow> bool" where
  "pick_ok n pick \<longleftrightarrow>
     (\<forall>s qs. case pick s qs of None \<Rightarrow> \<forall>p<n. qs p = [] | Some p \<Rightarrow> p < n \<and> qs p \<noteq> [])"

lemma pick_okD:
  assumes "pick_ok n pick"
  shows "pick s qs = None \<Longrightarrow> p < n \<Longrightarrow> qs p = []" "pick s qs = Some p \<Longrightarrow> p < n \<and> qs p \<noteq> []"
proof -
  have c: "case pick s qs of None \<Rightarrow> \<forall>p<n. qs p = [] | Some p \<Rightarrow> p < n \<and> qs p \<noteq> []"
    using assms unfolding pick_ok_def by blast
  show "qs p = []" if "pick s qs = None" "p < n" using c that by simp
  show "p < n \<and> qs p \<noteq> []" if "pick s qs = Some p" using c that by simp
qed

section \<open>Elements by producer\<close>

text \<open>The elements of one producer in a sequence of elements with their producers.\<close>

definition of_producer :: "nat \<Rightarrow> (nat \<times> 'a) list \<Rightarrow> 'a list" where
  "of_producer p l = map snd (filter (\<lambda>qc. fst qc = p) l)"

lemma of_producer_simps [simp]:
  "of_producer p [] = []"
  "of_producer p (l @ l') = of_producer p l @ of_producer p l'"
  "of_producer p ((q, c) # l) = (if p = q then c # of_producer p l else of_producer p l)"
  by (auto simp: of_producer_def)

lemma of_producer_map_Pair [simp]: "of_producer p (map (Pair q) l) = (if p = q then l else [])"
  by (cases "p = q"; induction l) simp_all

lemma count_of_producer: "count (mset (of_producer p l)) c = count (mset l) (p, c)"
  by (induction l) (auto simp: of_producer_def)

lemma of_producer_prefix:
  assumes "\<And>p. \<exists>r. of_producer p l = of_producer p l' @ r"
  shows "mset l' \<subseteq># mset l"
proof (rule mset_subset_eqI)
  fix pc :: "nat \<times> 'a"
  obtain p c where pc: "pc = (p, c)" by (cases pc)
  obtain r where "of_producer p l = of_producer p l' @ r" using assms by blast
  then have "count (mset (of_producer p l')) c \<le> count (mset (of_producer p l)) c" by simp
  then show "count (mset l') pc \<le> count (mset l) pc" by (simp add: count_of_producer pc)
qed

section \<open>Running the functions\<close>

definition pending :: "nat \<Rightarrow> 'a camel \<Rightarrow> nat" where
  "pending n q = sum_list (map (\<lambda>p. length (q_callbacks q p)) [0..<n])"

lemma pending_dequeue:
  assumes "p < n" "q_callbacks q p \<noteq> []"
  shows "pending n q = Suc (pending n (dequeue p q))"
proof -
  have "sum_list (map (\<lambda>j. length ((f(p := tl (f p))) j)) js) + (if p \<in> set js then 1 else 0) =
      sum_list (map (\<lambda>j. length (f j)) js)" if "distinct js" "f p \<noteq> []" for js and f :: "nat \<Rightarrow> 'a list"
    using that by (induction js) auto
  from this [of "[0..<n]" "q_callbacks q"] show ?thesis using assms by (simp add: pending_def dequeue_def)
qed

lemma camel_RunOnce_fold:
  assumes "pick_ok n pick" "\<And>cb q s. call cb (q, s) = (q, eff cb s)" "\<not> q_close q"
  shows "\<exists>l. camel_RunOnce pick call (q, s) = Some (q\<lparr>q_callbacks := \<lambda>p. if p < n then [] else q_callbacks q p\<rparr>, fold eff (map snd l) s) \<and>
    (\<forall>p. of_producer p l = (if p < n then q_callbacks q p else []))"
  using assms(3)
proof (induction "pending n q" arbitrary: q s rule: less_induct)
  case less
  show ?case
  proof (cases "pick s (q_callbacks q)")
    case None
    then have empty: "\<forall>p<n. q_callbacks q p = []" using pick_okD(1) [OF assms(1)] by blast
    then have "(\<lambda>p. if p < n then [] else q_callbacks q p) = q_callbacks q" by auto
    with None empty show ?thesis by (intro exI [of _ "[]"]) (simp add: camel_RunOnce.simps Let_def)
  next
    case (Some p)
    then have p: "p < n" "q_callbacks q p \<noteq> []" using pick_okD(2) [OF assms(1) Some] by simp_all
    let ?q = "dequeue p q" and ?cb = "hd (q_callbacks q p)"
    have "\<not> q_close ?q" "pending n ?q < pending n q"
      using less.prems p by (simp_all add: pending_dequeue) (simp add: dequeue_def)
    from less.hyps [OF this(2,1), of "eff ?cb s"]
    obtain l where l: "camel_RunOnce pick call (?q, eff ?cb s) =
        Some (?q\<lparr>q_callbacks := \<lambda>j. if j < n then [] else q_callbacks ?q j\<rparr>, fold eff (map snd l) (eff ?cb s))"
      "\<And>j. of_producer j l = (if j < n then q_callbacks ?q j else [])"
      by blast
    have rest: "(\<lambda>j. if j < n then [] else q_callbacks ?q j) = (\<lambda>j. if j < n then [] else q_callbacks q j)"
      using p by (auto simp: dequeue_def)
    have "?q\<lparr>q_callbacks := \<lambda>j. if j < n then [] else q_callbacks ?q j\<rparr> = q\<lparr>q_callbacks := \<lambda>j. if j < n then [] else q_callbacks q j\<rparr>"
      unfolding rest by (simp add: dequeue_def)
    moreover have "camel_RunOnce pick call (q, s) = camel_RunOnce pick call (?q, eff ?cb s)"
      using Some less.prems by (subst camel_RunOnce.simps) (simp add: Let_def assms(2))
    moreover have "of_producer j ((p, ?cb) # l) = (if j < n then q_callbacks q j else [])" for j
      using p by (simp add: l(2) dequeue_def)
    ultimately show ?thesis using l(1) by (intro exI [of _ "(p, ?cb) # l"]) simp
  qed
qed

section \<open>The trunk queue\<close>

text \<open>
  A reply of a worker with the client's function for it, bound together into the function the main
  thread runs. The two overloads of \<open>Add\<close> differ in the type of the reply.
\<close>

datatype reply = Load_Reply "string list" | Query_Reply string

definition trunk_Add_load :: "nat \<Rightarrow> 'k \<Rightarrow> string list \<Rightarrow> ('k \<times> reply) camel \<Rightarrow> ('k \<times> reply) camel" where
  "trunk_Add_load i onResponse vResponse q = snd (camel_Add i (onResponse, Load_Reply vResponse) q)"

definition trunk_Add_query :: "nat \<Rightarrow> 'k \<Rightarrow> string \<Rightarrow> ('k \<times> reply) camel \<Rightarrow> ('k \<times> reply) camel" where
  "trunk_Add_query i onResponse strResponse q = snd (camel_Add i (onResponse, Query_Reply strResponse) q)"

end
