(* ===== verification/Exec_Queue.thy ===== *)
theory Exec_Queue
  imports Db_Stub Camel_Queue
begin

text \<open>
  \<open>src/src/PbStubExecQueue.cpp\<close> with the commands of \<open>src/src/base/IDbService.h\<close>: the queue between
  the threads of the program and the worker threads, each of which owns a stub.

  The queue is that of moodycamel, used as it documents: the elements of one producer come out in
  the order they went in, elements of different producers in any order; a timed wait answers False
  when it found nothing. The state has a list for every producing thread. Every operation that other
  threads can observe is one step; the steps of the threads interleave in any order. The fields
  \<open>x_posted\<close>, \<open>x_taken\<close>, \<open>x_executed\<close> and \<open>x_sent\<close> are history: no step depends on them.
\<close>

section \<open>Commands\<close>

datatype db_cmd_type =
  DB_CMD_TYPE_E_LOAD_STRING | DB_CMD_TYPE_E_ADD_STRING | DB_CMD_TYPE_E_SAVE_STRING | DB_CMD_TYPE_E_DELETE_STRING
| DB_CMD_TYPE_E_LOAD | DB_CMD_TYPE_E_ADD | DB_CMD_TYPE_E_SAVE | DB_CMD_TYPE_E_DELETE
| DB_CMD_TYPE_SP_QUERY_STRING | DB_CMD_TYPE_SP_UPDATE_STRING | DB_CMD_TYPE_SP_QUERY | DB_CMD_TYPE_SP_UPDATE

text \<open>
  The functions a command carries: none, one of \<open>CDbService\<close> that hands the reply and the client's function (if it
  has one) to the trunk queue, or one that stores the reply in a variable of the waiting caller.
\<close>

datatype 'k reply_cb = Null_Cb | Trunk_Cb "'k option" | Caller_Cb nat

text \<open>
  \<open>c_pbmsg\<close> is a pointer to a message of the caller, who waits meanwhile: its type name and its
  fields. \<open>c_dispose\<close> is the promise of the caller, by the number of the call.
\<close>

record ('f, 'k) cmd =
  c_type :: db_cmd_type
  c_typename :: string
  c_request :: string
  c_tablename :: string
  c_key_list :: "string list"
  c_pbmsg :: "(string \<times> 'f pb_message) option"
  c_load_cb :: "'k reply_cb"
  c_query_cb :: "'k reply_cb"
  c_dispose :: "nat option"

section \<open>The state\<close>

text \<open>A worker: before the test of \<open>_done\<close>, waiting for a command, executing one, or behind the loop.\<close>

datatype ('f, 'k) worker = Checking "'f stub" | Polling "'f stub" | Busy "'f stub" "('f, 'k) cmd" | Gone

record ('w, 'f, 'k) exec =
  x_done :: bool
  x_queue :: "nat \<Rightarrow> ('f, 'k) cmd list"
  x_worker :: "nat \<Rightarrow> ('f, 'k) worker"
  x_world :: 'w
  x_trunk :: "('k \<times> reply) camel"
  x_results :: "nat \<rightharpoonup> reply"
  x_disposed :: "nat list"
  x_next :: nat
  x_posted :: "(nat \<times> ('f, 'k) cmd) list"
  x_taken :: "(nat \<times> ('f, 'k) cmd) list"
  x_executed :: "('f, 'k) cmd list"
  x_sent :: "(nat \<times> 'k \<times> reply) list"

definition start_state :: "(nat \<Rightarrow> 'f stub) \<Rightarrow> nat \<Rightarrow> 'w \<Rightarrow> ('w, 'f, 'k) exec" where
  "start_state stubs consumerNum w =
     \<lparr>x_done = False, x_queue = (\<lambda>_. []),
      x_worker = (\<lambda>i. if i < consumerNum then Checking (stubs i) else Gone),
      x_world = w, x_trunk = camel_start, x_results = Map.empty, x_disposed = [], x_next = 0,
      x_posted = [], x_taken = [], x_executed = [], x_sent = []\<rparr>"

section \<open>Calls of the clients\<close>

text \<open>What a call answers: a synchronous one that was queued waits for the promise of its number.\<close>

datatype answer = Refused | Queued | Waits nat

text \<open>The common part: after the test of \<open>_done\<close> the command is queued by the thread \<open>p\<close>.\<close>

definition enqueue_cmd :: "nat \<Rightarrow> ('f, 'k) cmd \<Rightarrow> ('w, 'f, 'k) exec \<Rightarrow> ('w, 'f, 'k) exec" where
  "enqueue_cmd p cmd x =
     x\<lparr>x_queue := (x_queue x)(p := x_queue x p @ [cmd]), x_posted := x_posted x @ [(p, cmd)]\<rparr>"

definition add_cmd :: "nat \<Rightarrow> ('f, 'k) cmd \<Rightarrow> ('w, 'f, 'k) exec \<Rightarrow> answer \<times> ('w, 'f, 'k) exec" where
  "add_cmd p cmd x = (if x_done x then (Refused, x) else (Queued, enqueue_cmd p cmd x))"

definition synchronize_cmd :: "nat \<Rightarrow> (nat \<Rightarrow> ('f, 'k) cmd) \<Rightarrow> ('w, 'f, 'k) exec \<Rightarrow> answer \<times> ('w, 'f, 'k) exec" where
  "synchronize_cmd p cmd x =
     (if x_done x then (Refused, x)
      else let prms = x_next x in (Waits prms, enqueue_cmd p (cmd prms) (x\<lparr>x_next := Suc prms\<rparr>)))"

definition AddEntityLoadString where
  "AddEntityLoadString ename entity cb sTableName vKey p =
     add_cmd p \<lparr>c_type = DB_CMD_TYPE_E_LOAD_STRING, c_typename = ename, c_request = entity, c_tablename = sTableName,
       c_key_list = vKey, c_pbmsg = None, c_load_cb = cb, c_query_cb = Null_Cb, c_dispose = None\<rparr>"

definition AddEntityAddString where
  "AddEntityAddString ename entity sTableName vKey p =
     add_cmd p \<lparr>c_type = DB_CMD_TYPE_E_ADD_STRING, c_typename = ename, c_request = entity, c_tablename = sTableName,
       c_key_list = vKey, c_pbmsg = None, c_load_cb = Null_Cb, c_query_cb = Null_Cb, c_dispose = None\<rparr>"

definition AddEntitySaveString where
  "AddEntitySaveString ename entity sTableName vKey p =
     add_cmd p \<lparr>c_type = DB_CMD_TYPE_E_SAVE_STRING, c_typename = ename, c_request = entity, c_tablename = sTableName,
       c_key_list = vKey, c_pbmsg = None, c_load_cb = Null_Cb, c_query_cb = Null_Cb, c_dispose = None\<rparr>"

definition AddEntityDeleteString where
  "AddEntityDeleteString ename entity sTableName vKey p =
     add_cmd p \<lparr>c_type = DB_CMD_TYPE_E_DELETE_STRING, c_typename = ename, c_request = entity, c_tablename = sTableName,
       c_key_list = vKey, c_pbmsg = None, c_load_cb = Null_Cb, c_query_cb = Null_Cb, c_dispose = None\<rparr>"

definition SynchronizeEntityLoad where
  "SynchronizeEntityLoad entity sTableName vKey p =
     synchronize_cmd p (\<lambda>prms. \<lparr>c_type = DB_CMD_TYPE_E_LOAD, c_typename = [], c_request = [], c_tablename = sTableName,
       c_key_list = vKey, c_pbmsg = Some entity, c_load_cb = Caller_Cb prms, c_query_cb = Null_Cb, c_dispose = Some prms\<rparr>)"

definition SynchronizeEntityAdd where
  "SynchronizeEntityAdd entity sTableName vKey p =
     synchronize_cmd p (\<lambda>prms. \<lparr>c_type = DB_CMD_TYPE_E_ADD, c_typename = [], c_request = [], c_tablename = sTableName,
       c_key_list = vKey, c_pbmsg = Some entity, c_load_cb = Null_Cb, c_query_cb = Null_Cb, c_dispose = Some prms\<rparr>)"

definition SynchronizeEntitySave where
  "SynchronizeEntitySave entity sTableName vKey p =
     synchronize_cmd p (\<lambda>prms. \<lparr>c_type = DB_CMD_TYPE_E_SAVE, c_typename = [], c_request = [], c_tablename = sTableName,
       c_key_list = vKey, c_pbmsg = Some entity, c_load_cb = Null_Cb, c_query_cb = Null_Cb, c_dispose = Some prms\<rparr>)"

definition SynchronizeEntityDelete where
  "SynchronizeEntityDelete entity sTableName vKey p =
     synchronize_cmd p (\<lambda>prms. \<lparr>c_type = DB_CMD_TYPE_E_DELETE, c_typename = [], c_request = [], c_tablename = sTableName,
       c_key_list = vKey, c_pbmsg = Some entity, c_load_cb = Null_Cb, c_query_cb = Null_Cb, c_dispose = Some prms\<rparr>)"

definition AddStoredProcQueryString where
  "AddStoredProcQueryString spname storedProc cb p =
     add_cmd p \<lparr>c_type = DB_CMD_TYPE_SP_QUERY_STRING, c_typename = spname, c_request = storedProc, c_tablename = [],
       c_key_list = [], c_pbmsg = None, c_load_cb = Null_Cb, c_query_cb = cb, c_dispose = None\<rparr>"

definition AddStoredProcUpdateString where
  "AddStoredProcUpdateString spname storedProc p =
     add_cmd p \<lparr>c_type = DB_CMD_TYPE_SP_UPDATE_STRING, c_typename = spname, c_request = storedProc, c_tablename = [],
       c_key_list = [], c_pbmsg = None, c_load_cb = Null_Cb, c_query_cb = Null_Cb, c_dispose = None\<rparr>"

definition SynchronizeStoredProcQuery where
  "SynchronizeStoredProcQuery storedProc p =
     synchronize_cmd p (\<lambda>prms. \<lparr>c_type = DB_CMD_TYPE_SP_QUERY, c_typename = [], c_request = [], c_tablename = [],
       c_key_list = [], c_pbmsg = Some storedProc, c_load_cb = Null_Cb, c_query_cb = Caller_Cb prms, c_dispose = Some prms\<rparr>)"

definition SynchronizeStoredProcUpdate where
  "SynchronizeStoredProcUpdate storedProc p =
     synchronize_cmd p (\<lambda>prms. \<lparr>c_type = DB_CMD_TYPE_SP_UPDATE, c_typename = [], c_request = [], c_tablename = [],
       c_key_list = [], c_pbmsg = Some storedProc, c_load_cb = Null_Cb, c_query_cb = Null_Cb, c_dispose = Some prms\<rparr>)"

text \<open>\<open>Finish\<close> sets \<open>_done\<close>, then waits until every worker is gone.\<close>

definition Finish :: "('w, 'f, 'k) exec \<Rightarrow> ('w, 'f, 'k) exec" where
  "Finish x = x\<lparr>x_done := True\<rparr>"

definition all_joined :: "nat \<Rightarrow> ('w, 'f, 'k) exec \<Rightarrow> bool" where
  "all_joined consumerNum x \<longleftrightarrow> list_all (\<lambda>i. x_worker x i = Gone) [0..<consumerNum]"

section \<open>The workers\<close>

text \<open>
  The \<open>switch\<close> of \<open>Run\<close>: what a command does with the stub and the database, and the reply for its
  function. The type and the fields of a message come through the pointer.
\<close>

definition the_msg :: "('f, 'k) cmd \<Rightarrow> (string \<times> 'f pb_message) res" where
  "the_msg cmd = (case c_pbmsg cmd of None \<Rightarrow> Inl Null_Dereference | Some tm \<Rightarrow> Inr tm)"

definition ret_stub :: "('w \<times> 'f stub) res option \<Rightarrow> (reply option \<times> 'w \<times> 'f stub) res option" where
  "ret_stub = map_option (\<lambda>r. bindR r (\<lambda>(w, st). Inr (None, w, st)))"

definition ret_world :: "'f stub \<Rightarrow> 'w res option \<Rightarrow> (reply option \<times> 'w \<times> 'f stub) res option" where
  "ret_world st = map_option (\<lambda>r. bindR r (\<lambda>w. Inr (None, w, st)))"

definition ret_reply :: "('a \<Rightarrow> reply) \<Rightarrow> (('a \<times> 'w) \<times> 'f stub) res option \<Rightarrow> (reply option \<times> 'w \<times> 'f stub) res option" where
  "ret_reply f = map_option (\<lambda>r. bindR r (\<lambda>((v, w), st). Inr (Some (f v), w, st)))"

definition exec_cmd ::
  "('w, 'f, 'c) lib \<Rightarrow> 'f stub \<Rightarrow> ('f, 'k) cmd \<Rightarrow> 'w \<Rightarrow> (reply option \<times> 'w \<times> 'f stub) res option" where
  "exec_cmd L st cmd w =
     (let ty = c_typename cmd; rq = c_request cmd; tbl = c_tablename cmd; ks = c_key_list cmd;
          on_msg = (\<lambda>f. case the_msg cmd of Inl e \<Rightarrow> Some (Inl e) | Inr (name, m) \<Rightarrow> f name m)
      in case c_type cmd of
           DB_CMD_TYPE_E_LOAD_STRING \<Rightarrow> ret_reply Load_Reply (EntityLoadString L st ty rq tbl ks ([], w))
         | DB_CMD_TYPE_E_ADD_STRING \<Rightarrow> ret_stub (EntityAddString L st ty rq tbl ks w)
         | DB_CMD_TYPE_E_SAVE_STRING \<Rightarrow> ret_stub (EntitySaveString L st ty rq tbl ks w)
         | DB_CMD_TYPE_E_DELETE_STRING \<Rightarrow> ret_stub (EntityDeleteString L st ty rq tbl ks w)
         | DB_CMD_TYPE_E_LOAD \<Rightarrow> on_msg (\<lambda>name m.
             ret_reply Load_Reply (EntityLoadString L st name (l_serialize_partial L m) tbl ks ([], w)))
         | DB_CMD_TYPE_E_ADD \<Rightarrow> on_msg (\<lambda>name m. ret_world st (stub_EntityAdd L st m tbl ks w))
         | DB_CMD_TYPE_E_SAVE \<Rightarrow> on_msg (\<lambda>name m. ret_world st (stub_EntitySave L st m tbl ks w))
         | DB_CMD_TYPE_E_DELETE \<Rightarrow> on_msg (\<lambda>name m. ret_world st (stub_EntityDelete L st m tbl ks w))
         | DB_CMD_TYPE_SP_QUERY_STRING \<Rightarrow> ret_reply Query_Reply (StoredProcQueryString L st ty rq ([], w))
         | DB_CMD_TYPE_SP_UPDATE_STRING \<Rightarrow> ret_stub (StoredProcUpdateString L st ty rq w)
         | DB_CMD_TYPE_SP_QUERY \<Rightarrow> on_msg (\<lambda>name m.
             ret_reply Query_Reply (StoredProcQueryString L st name (l_serialize_partial L m) ([], w)))
         | DB_CMD_TYPE_SP_UPDATE \<Rightarrow> on_msg (\<lambda>name m. ret_world st (stub_StoredProcUpdate L st name m w)))"

text \<open>
  The function of the command is called with the reply. That of \<open>CDbService\<close> adds the reply and the
  client's function to the trunk queue; the worker is the producer there.
\<close>

definition call_back :: "nat \<Rightarrow> 'k reply_cb \<Rightarrow> reply \<Rightarrow> ('w, 'f, 'k) exec \<Rightarrow> ('w, 'f, 'k) exec" where
  "call_back i cb r x =
     (case cb of
        Null_Cb \<Rightarrow> x
      | Trunk_Cb None \<Rightarrow> x
      | Trunk_Cb (Some onResponse) \<Rightarrow>
          x\<lparr>x_trunk := (case r of
                Load_Reply vResponse \<Rightarrow> trunk_Add_load i onResponse vResponse (x_trunk x)
              | Query_Reply strResponse \<Rightarrow> trunk_Add_query i onResponse strResponse (x_trunk x)),
            x_sent := x_sent x @ [(i, onResponse, r)]\<rparr>
      | Caller_Cb prms \<Rightarrow> x\<lparr>x_results := (x_results x)(prms \<mapsto> r)\<rparr>)"

definition reply_to :: "nat \<Rightarrow> ('f, 'k) cmd \<Rightarrow> reply option \<Rightarrow> ('w, 'f, 'k) exec \<Rightarrow> ('w, 'f, 'k) exec" where
  "reply_to i cmd r x =
     (case r of
        None \<Rightarrow> x
      | Some (Load_Reply v) \<Rightarrow> call_back i (c_load_cb cmd) (Load_Reply v) x
      | Some (Query_Reply s) \<Rightarrow> call_back i (c_query_cb cmd) (Query_Reply s) x)"

definition dispose :: "('f, 'k) cmd \<Rightarrow> ('w, 'f, 'k) exec \<Rightarrow> ('w, 'f, 'k) exec" where
  "dispose cmd x = (case c_dispose cmd of None \<Rightarrow> x | Some prms \<Rightarrow> x\<lparr>x_disposed := x_disposed x @ [prms]\<rparr>)"

text \<open>The loop of \<open>Run\<close>, one step for every access to what the threads share.\<close>

definition check_done :: "nat \<Rightarrow> 'f stub \<Rightarrow> ('w, 'f, 'k) exec \<Rightarrow> ('w, 'f, 'k) exec" where
  "check_done i st x = x\<lparr>x_worker := (x_worker x)(i := if x_done x then Gone else Polling st)\<rparr>"

definition wait_dequeue :: "nat \<Rightarrow> 'f stub \<Rightarrow> nat \<Rightarrow> ('f, 'k) cmd \<Rightarrow> ('w, 'f, 'k) exec \<Rightarrow> ('w, 'f, 'k) exec" where
  "wait_dequeue i st p cmd x =
     x\<lparr>x_queue := (x_queue x)(p := tl (x_queue x p)), x_taken := x_taken x @ [(p, cmd)],
       x_worker := (x_worker x)(i := Busy st cmd)\<rparr>"

definition wait_timeout :: "nat \<Rightarrow> 'f stub \<Rightarrow> ('w, 'f, 'k) exec \<Rightarrow> ('w, 'f, 'k) exec" where
  "wait_timeout i st x = x\<lparr>x_worker := (x_worker x)(i := Checking st)\<rparr>"

definition run_cmd ::
  "nat \<Rightarrow> ('f, 'k) cmd \<Rightarrow> reply option \<times> 'w \<times> 'f stub \<Rightarrow> ('w, 'f, 'k) exec \<Rightarrow> ('w, 'f, 'k) exec" where
  "run_cmd i cmd out x =
     (case out of
        (r, w, st) \<Rightarrow>
          dispose cmd (reply_to i cmd r
            (x\<lparr>x_world := w, x_worker := (x_worker x)(i := Checking st), x_executed := x_executed x @ [cmd]\<rparr>)))"

section \<open>Steps of the system\<close>

text \<open>The calls a client can make, with their arguments.\<close>

datatype ('f, 'k) request =
  Entity_Load_String string string "'k option" string "string list"
| Entity_Add_String string string string "string list"
| Entity_Save_String string string string "string list"
| Entity_Delete_String string string string "string list"
| Entity_Load "string \<times> 'f pb_message" string "string list"
| Entity_Add "string \<times> 'f pb_message" string "string list"
| Entity_Save "string \<times> 'f pb_message" string "string list"
| Entity_Delete "string \<times> 'f pb_message" string "string list"
| Stored_Proc_Query_String string string "'k option"
| Stored_Proc_Update_String string string
| Stored_Proc_Query "string \<times> 'f pb_message"
| Stored_Proc_Update "string \<times> 'f pb_message"

fun client_call :: "('f, 'k) request \<Rightarrow> nat \<Rightarrow> ('w, 'f, 'k) exec \<Rightarrow> answer \<times> ('w, 'f, 'k) exec" where
  "client_call (Entity_Load_String n m cb t ks) p x = AddEntityLoadString n m (Trunk_Cb cb) t ks p x"
| "client_call (Entity_Add_String n m t ks) p x = AddEntityAddString n m t ks p x"
| "client_call (Entity_Save_String n m t ks) p x = AddEntitySaveString n m t ks p x"
| "client_call (Entity_Delete_String n m t ks) p x = AddEntityDeleteString n m t ks p x"
| "client_call (Entity_Load e t ks) p x = SynchronizeEntityLoad e t ks p x"
| "client_call (Entity_Add e t ks) p x = SynchronizeEntityAdd e t ks p x"
| "client_call (Entity_Save e t ks) p x = SynchronizeEntitySave e t ks p x"
| "client_call (Entity_Delete e t ks) p x = SynchronizeEntityDelete e t ks p x"
| "client_call (Stored_Proc_Query_String n m cb) p x = AddStoredProcQueryString n m (Trunk_Cb cb) p x"
| "client_call (Stored_Proc_Update_String n m) p x = AddStoredProcUpdateString n m p x"
| "client_call (Stored_Proc_Query e) p x = SynchronizeStoredProcQuery e p x"
| "client_call (Stored_Proc_Update e) p x = SynchronizeStoredProcUpdate e p x"

text \<open>
  A worker that is busy with a command that faults or does not return makes no step. The wait ends
  without a command only when there is none. The execution of a command is one step: the accesses
  of two workers to the database within their commands are not interleaved.
\<close>

inductive worker_step :: "('w, 'f, 'c) lib \<Rightarrow> ('w, 'f, 'k) exec \<Rightarrow> ('w, 'f, 'k) exec \<Rightarrow> bool" for L where
  Check: "x_worker x i = Checking st \<Longrightarrow> worker_step L x (check_done i st x)"
| Take: "x_worker x i = Polling st \<Longrightarrow> x_queue x p = cmd # q \<Longrightarrow> worker_step L x (wait_dequeue i st p cmd x)"
| Timeout: "x_worker x i = Polling st \<Longrightarrow> \<forall>p. x_queue x p = [] \<Longrightarrow> worker_step L x (wait_timeout i st x)"
| Execute: "x_worker x i = Busy st cmd \<Longrightarrow> exec_cmd L st cmd (x_world x) = Some (Inr out) \<Longrightarrow>
    worker_step L x (run_cmd i cmd out x)"

inductive exec_step :: "('w, 'f, 'c) lib \<Rightarrow> ('w, 'f, 'k) exec \<Rightarrow> ('w, 'f, 'k) exec \<Rightarrow> bool" for L where
  Call: "exec_step L x (snd (client_call rq p x))"
| Finish: "exec_step L x (Finish x)"
| Work: "worker_step L x x' \<Longrightarrow> exec_step L x x'"

definition reachable :: "('w, 'f, 'c) lib \<Rightarrow> (nat \<Rightarrow> 'f stub) \<Rightarrow> nat \<Rightarrow> 'w \<Rightarrow> ('w, 'f, 'k) exec \<Rightarrow> bool" where
  "reachable L stubs consumerNum w = (exec_step L)\<^sup>*\<^sup>* (start_state stubs consumerNum w)"

end
