(* ===== verification/Db_Service.thy ===== *)
theory Db_Service
  imports Exec_Queue
begin

text \<open>
  \<open>src/src/DbService.cpp\<close>: the interface of the plugin. The synchronous operations go through the
  queue and wait; the asynchronous ones serialize the message first. Replies for asynchronous
  operations wait in the trunk queue until the main thread calls \<open>RunOnce\<close>.

  An entity is given as its type name and its fields.
\<close>

section \<open>Table names\<close>

definition TABLE_NAME_SIZE :: nat where
  "TABLE_NAME_SIZE = 1024"

text \<open>\<open>*p++ = c\<close>, with the characters stored so far.\<close>

definition store_name :: "char \<Rightarrow> string \<Rightarrow> string res" where
  "store_name c out = (if length out < TABLE_NAME_SIZE then Inr (out @ [c]) else Inl Write_Out_Of_Bounds)"

text \<open>The bound of the loop is on the characters read, not on those stored.\<close>

fun table_loop :: "nat \<Rightarrow> string \<Rightarrow> string \<Rightarrow> string res" where
  "table_loop i [] out = Inr out"
| "table_loop i (c # s) out =
     (if i < TABLE_NAME_SIZE - 1 then
        bindR (ctypeR isupper c) (\<lambda>upper.
        bindR (if upper then
                 bindR (if i > 0 then store_name CHR ''_'' out else Inr out) (\<lambda>out.
                 bindR (ctypeR tolower c) (\<lambda>l. store_name l out))
               else store_name c out) (\<lambda>out.
        table_loop (Suc i) s out))
      else Inr out)"

definition convert_entity_to_table :: "string \<Rightarrow> string res" where
  "convert_entity_to_table sEntityName = table_loop 0 sEntityName []"

definition table_of :: "string \<Rightarrow> string \<Rightarrow> string res" where
  "table_of sTableName type_name =
     (if sTableName = [] then convert_entity_to_table (descriptor_name type_name) else Inr sTableName)"

section \<open>The service\<close>

text \<open>\<open>sv_run\<close> is history: the replies whose functions the main thread has run, with the workers.\<close>

record ('w, 'f, 'k) service =
  sv_shutdown :: bool
  sv_exec :: "('w, 'f, 'k) exec"
  sv_run :: "(nat \<times> 'k \<times> reply) list"

definition consumers :: "int \<Rightarrow> nat" where
  "consumers poolSize = nat (min 4 (max 1 poolSize))"

definition DbService :: "int \<Rightarrow> 'f stub \<Rightarrow> 'w \<Rightarrow> ('w, 'f, 'k) service" where
  "DbService poolSize st w =
     \<lparr>sv_shutdown = False, sv_exec = start_state (\<lambda>_. st) (consumers poolSize) w, sv_run = []\<rparr>"

definition on_exec ::
  "(('w, 'f, 'k) exec \<Rightarrow> answer \<times> ('w, 'f, 'k) exec) \<Rightarrow> ('w, 'f, 'k) service \<Rightarrow> answer \<times> ('w, 'f, 'k) service" where
  "on_exec f s = (case f (sv_exec s) of (a, x) \<Rightarrow> (a, s\<lparr>sv_exec := x\<rparr>))"

definition service_EntityLoad where
  "service_EntityLoad entity sTableName vKey p s =
     bindR (table_of sTableName (fst entity)) (\<lambda>strTableName.
     Inr (on_exec (SynchronizeEntityLoad entity strTableName vKey p) s))"

definition service_EntityAdd where
  "service_EntityAdd entity sTableName vKey p s =
     bindR (table_of sTableName (fst entity)) (\<lambda>strTableName.
     Inr (on_exec (SynchronizeEntityAdd entity strTableName vKey p) s))"

definition service_EntitySave where
  "service_EntitySave entity sTableName vKey p s =
     bindR (table_of sTableName (fst entity)) (\<lambda>strTableName.
     Inr (on_exec (SynchronizeEntitySave entity strTableName vKey p) s))"

definition service_EntityDelete where
  "service_EntityDelete entity sTableName vKey p s =
     bindR (table_of sTableName (fst entity)) (\<lambda>strTableName.
     Inr (on_exec (SynchronizeEntityDelete entity strTableName vKey p) s))"

definition service_EntityLoadAsync where
  "service_EntityLoadAsync L entity cb sTableName vKey p s =
     (let strEntity = l_serialize_partial L (snd entity)
      in bindR (table_of sTableName (fst entity)) (\<lambda>strTableName.
         Inr (on_exec (AddEntityLoadString (fst entity) strEntity (Trunk_Cb cb) strTableName vKey p) s)))"

definition service_EntityAddAsync where
  "service_EntityAddAsync L entity sTableName vKey p s =
     (let strEntity = l_serialize_partial L (snd entity)
      in bindR (table_of sTableName (fst entity)) (\<lambda>strTableName.
         Inr (on_exec (AddEntityAddString (fst entity) strEntity strTableName vKey p) s)))"

definition service_EntitySaveAsync where
  "service_EntitySaveAsync L entity sTableName vKey p s =
     (let strEntity = l_serialize_partial L (snd entity)
      in bindR (table_of sTableName (fst entity)) (\<lambda>strTableName.
         Inr (on_exec (AddEntitySaveString (fst entity) strEntity strTableName vKey p) s)))"

definition service_EntityDeleteAsync where
  "service_EntityDeleteAsync L entity sTableName vKey p s =
     (let strEntity = l_serialize_partial L (snd entity)
      in bindR (table_of sTableName (fst entity)) (\<lambda>strTableName.
         Inr (on_exec (AddEntityDeleteString (fst entity) strEntity strTableName vKey p) s)))"

text \<open>
  A query ends by parsing the response into the message of the caller, also when the call was
  refused and the response is empty.
\<close>

definition service_StoredProcQuery where
  "service_StoredProcQuery storedProc p s = on_exec (SynchronizeStoredProcQuery storedProc p) s"

definition StoredProcQuery_result :: "('w, 'f, 'c) lib \<Rightarrow> 'f pb_message \<Rightarrow> answer \<Rightarrow> ('w, 'f, 'k) service \<Rightarrow> 'f pb_message" where
  "StoredProcQuery_result L storedProc a s =
     (let strResponse = (case a of
            Waits prms \<Rightarrow> (case x_results (sv_exec s) prms of Some (Query_Reply r) \<Rightarrow> r | _ \<Rightarrow> [])
          | _ \<Rightarrow> [])
      in snd (l_parse L storedProc strResponse))"

definition service_StoredProcUpdate where
  "service_StoredProcUpdate storedProc p s = on_exec (SynchronizeStoredProcUpdate storedProc p) s"

definition service_StoredProcQueryAsync where
  "service_StoredProcQueryAsync L storedProc cb p s =
     on_exec (AddStoredProcQueryString (fst storedProc) (l_serialize L (snd storedProc)) (Trunk_Cb cb) p) s"

definition service_StoredProcUpdateAsync where
  "service_StoredProcUpdateAsync L storedProc p s =
     on_exec (AddStoredProcUpdateString (fst storedProc) (l_serialize L (snd storedProc)) p) s"

text \<open>
  One round of the loop of \<open>RunOnce\<close> takes a reply of the worker \<open>i\<close>; what the client's function
  then does are calls of the service, steps of their own.
\<close>

definition run_callback :: "nat \<Rightarrow> ('w, 'f, 'k) service \<Rightarrow> ('w, 'f, 'k) service" where
  "run_callback i s =
     (let x = sv_exec s; q = x_trunk x
      in s\<lparr>sv_exec := x\<lparr>x_trunk := dequeue i q\<rparr>, sv_run := sv_run s @ [(i, hd (q_callbacks q i))]\<rparr>)"

text \<open>\<open>Shutdown\<close>: the first part up to waiting for the workers, the second when they are gone.\<close>

definition begin_Shutdown :: "('w, 'f, 'k) service \<Rightarrow> ('w, 'f, 'k) service" where
  "begin_Shutdown s =
     (if \<not> sv_shutdown s then s\<lparr>sv_shutdown := True, sv_exec := Finish (sv_exec s)\<rparr> else s)"

definition end_Shutdown :: "('w, 'f, 'k) service \<Rightarrow> ('w, 'f, 'k) service" where
  "end_Shutdown s = s\<lparr>sv_exec := (sv_exec s)\<lparr>x_trunk := camel_Close (x_trunk (sv_exec s))\<rparr>\<rparr>"

section \<open>Steps of the service\<close>

datatype ('f, 'k) operation =
  EntityLoad "string \<times> 'f pb_message" string "string list"
| EntityAdd "string \<times> 'f pb_message" string "string list"
| EntitySave "string \<times> 'f pb_message" string "string list"
| EntityDelete "string \<times> 'f pb_message" string "string list"
| EntityLoadAsync "string \<times> 'f pb_message" "'k option" string "string list"
| EntityAddAsync "string \<times> 'f pb_message" string "string list"
| EntitySaveAsync "string \<times> 'f pb_message" string "string list"
| EntityDeleteAsync "string \<times> 'f pb_message" string "string list"
| StoredProcQuery "string \<times> 'f pb_message"
| StoredProcUpdate "string \<times> 'f pb_message"
| StoredProcQueryAsync "string \<times> 'f pb_message" "'k option"
| StoredProcUpdateAsync "string \<times> 'f pb_message"

fun service_call ::
  "('w, 'f, 'c) lib \<Rightarrow> ('f, 'k) operation \<Rightarrow> nat \<Rightarrow> ('w, 'f, 'k) service \<Rightarrow> (answer \<times> ('w, 'f, 'k) service) res" where
  "service_call L (EntityLoad e t ks) p s = service_EntityLoad e t ks p s"
| "service_call L (EntityAdd e t ks) p s = service_EntityAdd e t ks p s"
| "service_call L (EntitySave e t ks) p s = service_EntitySave e t ks p s"
| "service_call L (EntityDelete e t ks) p s = service_EntityDelete e t ks p s"
| "service_call L (EntityLoadAsync e cb t ks) p s = service_EntityLoadAsync L e cb t ks p s"
| "service_call L (EntityAddAsync e t ks) p s = service_EntityAddAsync L e t ks p s"
| "service_call L (EntitySaveAsync e t ks) p s = service_EntitySaveAsync L e t ks p s"
| "service_call L (EntityDeleteAsync e t ks) p s = service_EntityDeleteAsync L e t ks p s"
| "service_call L (StoredProcQuery e) p s = Inr (service_StoredProcQuery e p s)"
| "service_call L (StoredProcUpdate e) p s = Inr (service_StoredProcUpdate e p s)"
| "service_call L (StoredProcQueryAsync e cb) p s = Inr (service_StoredProcQueryAsync L e cb p s)"
| "service_call L (StoredProcUpdateAsync e) p s = Inr (service_StoredProcUpdateAsync L e p s)"

inductive service_step :: "('w, 'f, 'c) lib \<Rightarrow> nat \<Rightarrow> ('w, 'f, 'k) service \<Rightarrow> ('w, 'f, 'k) service \<Rightarrow> bool" for L n where
  Call: "service_call L op p s = Inr (a, s') \<Longrightarrow> service_step L n s s'"
| Work: "worker_step L (sv_exec s) x \<Longrightarrow> service_step L n s (s\<lparr>sv_exec := x\<rparr>)"
| RunOnce: "\<not> q_close (x_trunk (sv_exec s)) \<Longrightarrow> q_callbacks (x_trunk (sv_exec s)) i \<noteq> [] \<Longrightarrow>
    service_step L n s (run_callback i s)"
| Begin_Shutdown: "service_step L n s (begin_Shutdown s)"
| End_Shutdown: "sv_shutdown s \<Longrightarrow> all_joined n (sv_exec s) \<Longrightarrow> service_step L n s (end_Shutdown s)"

definition service_reachable :: "('w, 'f, 'c) lib \<Rightarrow> int \<Rightarrow> 'f stub \<Rightarrow> 'w \<Rightarrow> ('w, 'f, 'k) service \<Rightarrow> bool" where
  "service_reachable L poolSize st w =
     (service_step L (consumers poolSize))\<^sup>*\<^sup>* (DbService poolSize st w)"

end
