(* ===== verification/Exec_Invariants.thy ===== *)
theory Exec_Invariants
  imports Exec_Queue
begin

text \<open>
  What holds in every state the queue and its workers can reach. The locale \<open>invariant_system\<close> is
  the rule of induction over the steps; it is interpreted on the steps of the queue with the
  invariant \<open>exec_inv\<close>.
\<close>

section \<open>Invariants of a system of steps\<close>

locale invariant_system =
  fixes step :: "'s \<Rightarrow> 's \<Rightarrow> bool" and init :: "'s" and inv :: "'s \<Rightarrow> bool"
  assumes init_inv: "inv init"
    and step_inv: "inv s \<Longrightarrow> step s s' \<Longrightarrow> inv s'"
begin

lemma steps_inv: "step\<^sup>*\<^sup>* s s' \<Longrightarrow> inv s \<Longrightarrow> inv s'"
  by (induction rule: rtranclp_induct) (auto intro: step_inv)

lemma reachable_inv: "step\<^sup>*\<^sup>* init s \<Longrightarrow> inv s"
  using steps_inv init_inv by blast

end

section \<open>Where the commands are\<close>

text \<open>The commands workers are busy with; the promises of commands.\<close>

definition busy_with :: "('f, 'k) worker \<Rightarrow> ('f, 'k) cmd list" where
  "busy_with wk = (case wk of Busy st cmd \<Rightarrow> [cmd] | _ \<Rightarrow> [])"

definition busy_cmds :: "nat \<Rightarrow> ('w, 'f, 'k) exec \<Rightarrow> ('f, 'k) cmd list" where
  "busy_cmds n x = concat (map (\<lambda>i. busy_with (x_worker x i)) [0..<n])"

definition promises :: "('f, 'k) cmd list \<Rightarrow> nat list" where
  "promises cmds = concat (map (\<lambda>c. case c_dispose c of None \<Rightarrow> [] | Some t \<Rightarrow> [t]) cmds)"

lemma busy_with_simps [simp]:
  "busy_with (Busy st cmd) = [cmd]" "busy_with (Checking st) = []" "busy_with (Polling st) = []" "busy_with Gone = []"
  by (simp_all add: busy_with_def)

lemma promises_simps [simp]:
  "promises [] = []" "promises (cs @ cs') = promises cs @ promises cs'"
  "promises (c # cs) = (case c_dispose c of None \<Rightarrow> [] | Some t \<Rightarrow> [t]) @ promises cs"
  by (simp_all add: promises_def)

lemma mset_of_producers: "(\<And>p. of_producer p l = of_producer p l') \<Longrightarrow> mset l = mset l'"
  by (rule multiset_eqI) (metis count_of_producer prod.collapse)

lemma busy_other:
  "i \<notin> set js \<Longrightarrow>
    concat (map (\<lambda>j. busy_with (if j = i then wk else f j)) js) = concat (map (\<lambda>j. busy_with (f j)) js)"
  by (induction js) auto

lemma busy_cmds_update:
  assumes "i < n" "busy_with (x_worker x i) = old"
  shows "mset (busy_cmds n (x\<lparr>x_worker := (x_worker x)(i := wk)\<rparr>)) + mset old = mset (busy_cmds n x) + mset (busy_with wk)"
proof -
  have "[0..<n] = [0..<i] @ i # [Suc i..<n]" 
    using assms(1) upt_add_eq_append [of 0 i "n - i"] upt_conv_Cons [of i n] by simp
  then show ?thesis using assms(2) by (simp add: busy_cmds_def busy_other)
qed

text \<open>The commands the calls build: what is waited for, and where the reply goes.\<close>

definition cmd_ok :: "('f, 'k) cmd \<Rightarrow> bool" where
  "cmd_ok c \<longleftrightarrow>
     (c_dispose c \<noteq> None \<longleftrightarrow> c_type c \<in> {DB_CMD_TYPE_E_LOAD, DB_CMD_TYPE_E_ADD, DB_CMD_TYPE_E_SAVE, DB_CMD_TYPE_E_DELETE,
        DB_CMD_TYPE_SP_QUERY, DB_CMD_TYPE_SP_UPDATE}) \<and>
     (c_dispose c \<noteq> None \<longleftrightarrow> c_pbmsg c \<noteq> None) \<and>
     (c_type c = DB_CMD_TYPE_E_LOAD \<longrightarrow> c_load_cb c = Caller_Cb (the (c_dispose c))) \<and>
     (c_type c = DB_CMD_TYPE_SP_QUERY \<longrightarrow> c_query_cb c = Caller_Cb (the (c_dispose c))) \<and>
     (c_dispose c = None \<longrightarrow> (\<forall>t. c_load_cb c \<noteq> Caller_Cb t \<and> c_query_cb c \<noteq> Caller_Cb t))"

text \<open>The replies a waiting caller gets.\<close>

definition replied :: "(nat \<rightharpoonup> reply) \<Rightarrow> ('f, 'k) cmd \<Rightarrow> bool" where
  "replied results c \<longleftrightarrow>
     (c_type c = DB_CMD_TYPE_E_LOAD \<longrightarrow> (\<exists>v. results (the (c_dispose c)) = Some (Load_Reply v))) \<and>
     (c_type c = DB_CMD_TYPE_SP_QUERY \<longrightarrow> (\<exists>s. results (the (c_dispose c)) = Some (Query_Reply s)))"

definition exec_inv :: "nat \<Rightarrow> ('w, 'f, 'k) exec \<Rightarrow> bool" where
  "exec_inv n x \<longleftrightarrow>
     (\<forall>p. of_producer p (x_posted x) = of_producer p (x_taken x) @ x_queue x p) \<and>
     mset (map snd (x_taken x)) = mset (x_executed x) + mset (busy_cmds n x) \<and>
     promises (map snd (x_posted x)) = [0..<x_next x] \<and>
     x_disposed x = promises (x_executed x) \<and>
     list_all cmd_ok (map snd (x_posted x)) \<and>
     (\<forall>i. i \<ge> n \<longrightarrow> x_worker x i = Gone) \<and>
     (\<not> x_done x \<longrightarrow> (\<forall>i. i < n \<longrightarrow> x_worker x i \<noteq> Gone))"

section \<open>The invariant is kept\<close>

text \<open>A call either changes nothing or queues one command that is well-formed.\<close>

definition queued_one :: "nat \<Rightarrow> ('w, 'f, 'k) exec \<Rightarrow> ('w, 'f, 'k) exec \<Rightarrow> bool" where
  "queued_one p x x' \<longleftrightarrow>
     (\<exists>cmd. cmd_ok cmd \<and>
       ((c_dispose cmd = None \<and> x' = enqueue_cmd p cmd x) \<or>
        (c_dispose cmd = Some (x_next x) \<and> x' = enqueue_cmd p cmd (x\<lparr>x_next := Suc (x_next x)\<rparr>))))"

lemmas call_defs = add_cmd_def synchronize_cmd_def AddEntityLoadString_def AddEntityAddString_def
  AddEntitySaveString_def AddEntityDeleteString_def SynchronizeEntityLoad_def SynchronizeEntityAdd_def
  SynchronizeEntitySave_def SynchronizeEntityDelete_def AddStoredProcQueryString_def
  AddStoredProcUpdateString_def SynchronizeStoredProcQuery_def SynchronizeStoredProcUpdate_def

lemma client_call_cases:
  "if x_done x then client_call rq p x = (Refused, x)
   else queued_one p x (snd (client_call rq p x)) \<and>
     fst (client_call rq p x) \<in> {Queued, Waits (x_next x)}"
  by (cases rq) (auto simp: call_defs queued_one_def cmd_ok_def Let_def intro!: exI)

lemma enqueue_inv:
  assumes "exec_inv n x" "queued_one p x x'"
  shows "exec_inv n x'"
  using assms by (auto simp: exec_inv_def queued_one_def enqueue_cmd_def busy_cmds_def)

lemma check_inv:
  assumes "exec_inv n x" "x_worker x i = Checking st"
  shows "exec_inv n (check_done i st x)"
proof -
  have "i < n" using assms by (auto simp: exec_inv_def not_le [symmetric])
  then show ?thesis
    using assms busy_cmds_update [of i n x "[]" "if x_done x then Gone else Polling st"]
    by (auto simp: exec_inv_def check_done_def)
qed

lemma timeout_inv:
  assumes "exec_inv n x" "x_worker x i = Polling st"
  shows "exec_inv n (wait_timeout i st x)"
proof -
  have "i < n" using assms by (auto simp: exec_inv_def not_le [symmetric])
  then show ?thesis
    using assms busy_cmds_update [of i n x "[]" "Checking st"]
    by (auto simp: exec_inv_def wait_timeout_def)
qed

lemma take_inv:
  assumes "exec_inv n x" "x_worker x i = Polling st" "x_queue x p = cmd # q"
  shows "exec_inv n (wait_dequeue i st p cmd x)"
proof -
  let ?x = "x\<lparr>x_worker := (x_worker x)(i := Busy st cmd)\<rparr>"
  have "i < n" using assms by (auto simp: exec_inv_def not_le [symmetric])
  then have "mset (busy_cmds n ?x) = mset (busy_cmds n x) + {#cmd#}"
    using busy_cmds_update [of i n x "[]" "Busy st cmd"] assms(2) by simp
  moreover have "busy_cmds n (wait_dequeue i st p cmd x) = busy_cmds n ?x"
    by (simp add: busy_cmds_def wait_dequeue_def)
  ultimately show ?thesis
    using assms \<open>i < n\<close> by (auto simp: exec_inv_def wait_dequeue_def)
qed

lemma reply_to_keeps [simp]:
  "x_done (reply_to i cmd r x) = x_done x" "x_queue (reply_to i cmd r x) = x_queue x"
  "x_worker (reply_to i cmd r x) = x_worker x" "x_world (reply_to i cmd r x) = x_world x"
  "x_disposed (reply_to i cmd r x) = x_disposed x" "x_next (reply_to i cmd r x) = x_next x"
  "x_posted (reply_to i cmd r x) = x_posted x" "x_taken (reply_to i cmd r x) = x_taken x"
  "x_executed (reply_to i cmd r x) = x_executed x"
  by (auto simp: reply_to_def call_back_def split: option.splits reply.splits reply_cb.splits)

lemma dispose_keeps [simp]:
  "x_done (dispose cmd x) = x_done x" "x_queue (dispose cmd x) = x_queue x" "x_worker (dispose cmd x) = x_worker x"
  "x_world (dispose cmd x) = x_world x" "x_next (dispose cmd x) = x_next x" "x_posted (dispose cmd x) = x_posted x"
  "x_taken (dispose cmd x) = x_taken x" "x_executed (dispose cmd x) = x_executed x"
  "x_results (dispose cmd x) = x_results x" "x_sent (dispose cmd x) = x_sent x" "x_trunk (dispose cmd x) = x_trunk x"
  "x_disposed (dispose cmd x) = x_disposed x @ promises [cmd]"
  by (auto simp: dispose_def split: option.splits)

lemma run_cmd_fields [simp]:
  "x_done (run_cmd i cmd (r, w, st) x) = x_done x" "x_queue (run_cmd i cmd (r, w, st) x) = x_queue x"
  "x_worker (run_cmd i cmd (r, w, st) x) = (x_worker x)(i := Checking st)"
  "x_world (run_cmd i cmd (r, w, st) x) = w" "x_next (run_cmd i cmd (r, w, st) x) = x_next x"
  "x_posted (run_cmd i cmd (r, w, st) x) = x_posted x" "x_taken (run_cmd i cmd (r, w, st) x) = x_taken x"
  "x_executed (run_cmd i cmd (r, w, st) x) = x_executed x @ [cmd]"
  "x_disposed (run_cmd i cmd (r, w, st) x) = x_disposed x @ promises [cmd]"
  by (simp_all add: run_cmd_def)

lemma run_inv:
  assumes "exec_inv n x" "x_worker x i = Busy st cmd"
  shows "exec_inv n (run_cmd i cmd out x)"
proof -
  obtain r w st' where out: "out = (r, w, st')" by (cases out)
  let ?x = "x\<lparr>x_worker := (x_worker x)(i := Checking st')\<rparr>"
  have "i < n" using assms by (auto simp: exec_inv_def not_le [symmetric])
  then have "mset (busy_cmds n ?x) + {#cmd#} = mset (busy_cmds n x)"
    using busy_cmds_update [of i n x "[cmd]" "Checking st'"] assms(2) by simp
  moreover have "busy_cmds n (run_cmd i cmd out x) = busy_cmds n ?x"
    by (simp add: busy_cmds_def out)
  ultimately show ?thesis
    using assms \<open>i < n\<close> unfolding exec_inv_def out by (auto simp: ac_simps)
qed

lemma worker_step_inv: "worker_step L x x' \<Longrightarrow> exec_inv n x \<Longrightarrow> exec_inv n x'"
  by (induction rule: worker_step.induct) (auto intro: check_inv take_inv timeout_inv run_inv)

lemma call_inv: "exec_inv n x \<Longrightarrow> exec_inv n (snd (client_call rq p x))"
  using client_call_cases [of x rq p] enqueue_inv by (auto split: if_splits)

lemma exec_step_inv: "exec_step L x x' \<Longrightarrow> exec_inv n x \<Longrightarrow> exec_inv n x'"
  by (induction rule: exec_step.induct) (auto intro: worker_step_inv call_inv, simp add: exec_inv_def Finish_def busy_cmds_def)

lemma start_inv: "exec_inv n (start_state stubs n w)"
  by (auto simp: exec_inv_def start_state_def busy_cmds_def concat_eq_Nil_conv)

interpretation workers: invariant_system "exec_step L" "start_state stubs n w" "exec_inv n"
  for L :: "('w, 'f, 'c) lib" and stubs :: "nat \<Rightarrow> 'f stub" and n :: nat and w :: 'w
  by unfold_locales (auto intro: start_inv exec_step_inv)

lemmas reachable_exec_inv = workers.reachable_inv [folded reachable_def]

section \<open>Every command once\<close>

lemma mset_promises: "mset (promises cs) = sum_mset (image_mset (\<lambda>c. mset (case c_dispose c of None \<Rightarrow> [] | Some t \<Rightarrow> [t])) (mset cs))"
  by (induction cs) simp_all

lemma promises_mono: "mset cs \<subseteq># mset ds \<Longrightarrow> mset (promises cs) \<subseteq># mset (promises ds)"
  unfolding mset_promises mset_subset_eq_exists_conv by (metis image_mset_union sum_mset.union)

lemma taken_posted: "exec_inv n x \<Longrightarrow> mset (x_taken x) \<subseteq># mset (x_posted x)"
  by (rule of_producer_prefix) (simp add: exec_inv_def)

lemma executed_taken: "exec_inv n x \<Longrightarrow> mset (x_executed x) \<subseteq># mset (map snd (x_taken x))"
  by (simp add: exec_inv_def)

lemma promises_once:
  assumes "exec_inv n x"
  shows "distinct (promises (map snd (x_taken x)))" "distinct (x_disposed x)" "set (x_disposed x) \<subseteq> {..<x_next x}"
proof -
  have posted: "mset (promises (map snd (x_taken x))) \<subseteq># mset [0..<x_next x]"
    using promises_mono [of "map snd (x_taken x)" "map snd (x_posted x)"] image_mset_subseteq_mono [OF taken_posted [OF assms], of snd]
      assms by (simp add: exec_inv_def)
  have "mset (x_disposed x) \<subseteq># mset (promises (map snd (x_taken x)))"
    using promises_mono [OF executed_taken [OF assms]] assms by (simp add: exec_inv_def)
  then have disposed: "mset (x_disposed x) \<subseteq># mset [0..<x_next x]" using posted by (rule subset_mset.order_trans)
  have sub: "distinct l \<and> set l \<subseteq> {..<k}" if le: "mset l \<subseteq># mset [0..<k]" for l k
  proof -
    obtain M where M: "mset [0..<k] = mset l + M" using le unfolding mset_subset_eq_exists_conv by blast
    obtain m where m: "mset m = M" using ex_mset [of M] by blast
    have lm: "mset [0..<k] = mset (l @ m)" by (simp only: M m mset_append)
    have "distinct (l @ m)" using mset_eq_imp_distinct_iff [OF lm] distinct_upt by blast
    moreover have "set (l @ m) = {..<k}" using mset_eq_setD [OF lm, symmetric] by (simp only: set_upt atLeast0LessThan)
    ultimately show ?thesis by auto
  qed
  show "distinct (promises (map snd (x_taken x)))" "distinct (x_disposed x)" "set (x_disposed x) \<subseteq> {..<x_next x}"
    using sub [OF posted] sub [OF disposed] by simp_all
qed

end
