(* ===== verification/Stub_Properties.thy ===== *)
theory Stub_Properties
  imports Db_Stub Db_Properties
begin

text \<open>
  The properties of the stub: the type of the messages it keeps, the independence from its cache,
  and when its repeated operations return.
\<close>

section \<open>The type of a record that is filled\<close>

lemma set_value_type:
  assumes "set_value x fd = Inr fd'" "field_ok fd"
  shows "same_field fd fd'" "field_ok fd'"
proof -
  obtain n t r h v where fd: "fd = Field n t r h v" by (cases fd)
  have refl: "same_field fd fd" using same_type_refl [of "[fd]"] by simp
  have "same_field fd fd' \<and> field_ok fd'"
  proof (cases x)
    case None
    then show ?thesis using assms refl by simp
  next
    case (Some y)
    then have "cpp_type_ok t y" "fd' = Field n t r True (Scalar y)"
      using assms(1) fd by (auto simp: set_value_def set_scalar_def split: if_splits)
    moreover have "\<exists>z. v = Scalar z"
      using assms(2) fd \<open>cpp_type_ok t y\<close> by (cases v; cases y) auto
    ultimately show ?thesis using fd by auto
  qed
  then show "same_field fd fd'" "field_ok fd'" by simp_all
qed

lemma AddFirstReturnRecord_type:
  "AddFirstReturnRecord dbg lg ops rs i fs arr n = Inr (fs', out) \<Longrightarrow> message_ok fs \<Longrightarrow> same_type fs fs' \<and> message_ok fs'"
proof (induction "message_size fs" arbitrary: fs fs' i arr n out rule: less_induct)
  case less
  show ?case
  proof (cases fs)
    case (Cons fd gs)
    obtain name t r h v where fd: "fd = Field name t r h v" by (cases fd)
    have refl: "same_field fd fd" using same_type_refl [of "[fd]"] by simp
    have IH: "\<And>i arr n hs out. AddFirstReturnRecord dbg lg ops rs i gs arr n = Inr (hs, out) \<Longrightarrow> same_type gs hs \<and> message_ok hs"
      using less.hyps [of gs] less.prems(2) Cons fd by simp
    consider "r" | "\<not> r" "t = TYPE_MESSAGE" | "\<not> r" "t \<noteq> TYPE_MESSAGE" by blast
    then show ?thesis
    proof cases
      case 1
      then show ?thesis using less.prems Cons fd IH refl by (auto simp: bindR_Inr_iff)
    next
      case 2
      then obtain sub where v: "v = Submessage sub" using less.prems(1) Cons fd by (cases v) auto
      have "\<And>i arr n hs out. AddFirstReturnRecord dbg lg ops rs i sub arr n = Inr (hs, out) \<Longrightarrow> same_type sub hs \<and> message_ok hs"
        using less.hyps [of sub] less.prems(2) Cons fd v by simp
      then show ?thesis using less.prems Cons fd v 2 IH by (fastforce simp: bindR_Inr_iff)
    next
      case 3
      then show ?thesis
        using less.prems Cons fd IH set_value_type [of _ "Field name t r h v"]
        by (fastforce simp: bindR_Inr_iff simp del: same_field.simps field_ok.simps)
    qed
  qed (use less.prems in simp)
qed

lemma AddReturnRecord_type:
  "AddReturnRecord ops rs fs arr n = Inr (fs', out) \<Longrightarrow> message_ok fs \<Longrightarrow> same_type fs fs' \<and> message_ok fs'"
proof (induction "message_size fs" arbitrary: fs fs' n out rule: less_induct)
  case less
  show ?case
  proof (cases fs)
    case (Cons fd gs)
    obtain name t r h v where fd: "fd = Field name t r h v" by (cases fd)
    have refl: "same_field fd fd" using same_type_refl [of "[fd]"] by simp
    have IH: "\<And>n hs out. AddReturnRecord ops rs gs arr n = Inr (hs, out) \<Longrightarrow> same_type gs hs \<and> message_ok hs"
      using less.hyps [of gs] less.prems(2) Cons fd by simp
    consider "r" | "\<not> r" "t = TYPE_MESSAGE" | "\<not> r" "t \<noteq> TYPE_MESSAGE" by blast
    then show ?thesis
    proof cases
      case 1
      then show ?thesis using less.prems Cons fd IH refl by (auto simp: bindR_Inr_iff)
    next
      case 2
      then obtain sub where v: "v = Submessage sub" using less.prems(1) Cons fd by (cases v) auto
      have "\<And>n hs out. AddReturnRecord ops rs sub arr n = Inr (hs, out) \<Longrightarrow> same_type sub hs \<and> message_ok hs"
        using less.hyps [of sub] less.prems(2) Cons fd v by simp
      then show ?thesis using less.prems Cons fd v 2 IH by (fastforce simp: bindR_Inr_iff)
    next
      case 3
      then show ?thesis
        using less.prems Cons fd IH set_value_type [of _ "Field name t r h v"]
        by (fastforce simp: bindR_Inr_iff simp del: same_field.simps field_ok.simps)
    qed
  qed (use less.prems in simp)
qed

lemma entity_rows_type:
  "entity_rows ops ser rs fs arr v = Inr (v', fs', rs') \<Longrightarrow> message_ok fs \<Longrightarrow> same_type fs fs' \<and> message_ok fs'"
proof (induction "length (s_rows rs)" arbitrary: rs fs v rule: less_induct)
  case less
  show ?case
  proof (cases "MoveNext rs")
    case (Inr b)
    obtain found rs1 where b: "b = (found, rs1)" by (cases b)
    show ?thesis
    proof (cases found)
      case True
      then obtain gs n where gs: "AddReturnRecord ops rs1 fs arr 0 = Inr (gs, n)"
          "entity_rows ops ser rs1 gs arr (v @ [ser gs]) = Inr (v', fs', rs')"
        using less.prems(1) Inr b by (subst (asm) entity_rows.simps) (auto simp: bindR_Inr_iff)
      have "same_type fs gs" "message_ok gs" using AddReturnRecord_type [OF gs(1) less.prems(2)] by simp_all
      moreover have "length (s_rows rs1) < length (s_rows rs)" using Inr b True MoveNext_rows by simp
      ultimately show ?thesis using less.hyps [of rs1 gs] gs(2) same_type_trans by blast
    next
      case False
      then show ?thesis using less by (subst (asm) entity_rows.simps) (simp add: Inr b)
    qed
  qed (use less.prems in \<open>subst (asm) entity_rows.simps, simp\<close>)
qed

lemma ParseEntityResult_type:
  assumes "ParseEntityResult dbg lg ops ser rs v fs = Inr (v', fs', rs')" "message_ok fs"
  shows "same_type fs fs' \<and> message_ok fs'"
proof (cases "MoveNext rs")
  case (Inr b)
  obtain found rs1 where b: "b = (found, rs1)" by (cases b)
  show ?thesis
  proof (cases found)
    case True
    then obtain gs arr n v1 where gs: "AddFirstReturnRecord dbg lg ops rs1 0 fs (replicate 256 0) 0 = Inr (gs, arr, n)"
        "entity_rows ops ser rs1 gs arr v1 = Inr (v', fs', rs')"
      using assms(1) Inr b by (auto simp: ParseEntityResult_def bindR_Inr_iff Let_def)
    have "same_type fs gs" "message_ok gs" using AddFirstReturnRecord_type [OF gs(1) assms(2)] by simp_all
    then show ?thesis using entity_rows_type [OF gs(2)] same_type_trans by blast
  next
    case False
    then have "entity_rows ops ser rs1 fs (replicate 256 0) v = Inr (v', fs', rs')"
      using assms(1) Inr b by (simp add: ParseEntityResult_def Let_def)
    then show ?thesis by (rule entity_rows_type [OF _ assms(2)])
  qed
qed (use assms(1) in \<open>simp add: ParseEntityResult_def Let_def\<close>)

lemma ESelect_type_lemma:
  assumes "ESelect L d tbl ks (v, entity, w) = Some (Inr (ok, v', entity', w'))" "message_ok entity"
  shows "same_type entity entity' \<and> message_ok entity'"
proof -
  consider "entity' = entity" | rs rs' where
      "ParseEntityResult (l_debug L) (d_log d) (l_ops L) (l_serialize L) rs v entity = Inr (v', entity', rs')"
    using assms(1) by (auto simp: ESelect_def with_connection_def Let_def bindR_Inr_iff split: if_splits option.splits)
  then show ?thesis using assms(2) ParseEntityResult_type by cases simp_all
qed



section \<open>The cache of messages\<close>

lemma retry_loop_invariant:
  assumes "\<And>s ok s'. op s = Some (Inr (ok, s')) \<Longrightarrow> P s \<Longrightarrow> P s'" "retry_loop op s = Some (Inr s')" "P s"
  shows "P s'"
proof -
  have "(\<forall>s ok s'. op s = Some (Inr (ok, s')) \<longrightarrow> P s \<longrightarrow> P s') \<longrightarrow> P s \<longrightarrow> isl y \<or> P (projr y)"
    if "retry_loop op s = Some y" for y
    using that
  proof (rule retry_loop.raw_induct
      [where P = "\<lambda>op s y. (\<forall>s ok s'. op s = Some (Inr (ok, s')) \<longrightarrow> P s \<longrightarrow> P s') \<longrightarrow> P s \<longrightarrow> isl y \<or> P (projr y)", rotated],
      intro impI)
    fix loop op s and y :: "'a res"
    assume IH: "\<And>op s y. loop op s = Some y \<Longrightarrow>
        (\<forall>s ok s'. op s = Some (Inr (ok, s')) \<longrightarrow> P s \<longrightarrow> P s') \<longrightarrow> P s \<longrightarrow> isl y \<or> P (projr y)"
      and step: "Option.bind (op s) (\<lambda>r. if isl r then Some (Inl (projl r))
        else let (ok, s) = projr r in if ok then Some (Inr s) else loop op s) = Some y"
      and op: "\<forall>s ok s'. op s = Some (Inr (ok, s')) \<longrightarrow> P s \<longrightarrow> P s'" "P s"
    obtain r where r: "op s = Some r" using step by (cases "op s") auto
    show "isl y \<or> P (projr y)"
    proof (cases r)
      case (Inr b)
      then show ?thesis using step r op IH by (cases b) (auto split: if_splits)
    qed (use step r in auto)
  qed
  then show ?thesis using assms by fastforce
qed

lemma stub_EntityLoad_type:
  assumes "stub_EntityLoad L st tbl ks (v, m, w) = Some (Inr (v', m', w'))" "message_ok m"
  shows "same_type m m'"
proof (cases "en_opened (st_engine st)")
  case True
  have "same_type m (fst (snd (v', m', w'))) \<and> message_ok (fst (snd (v', m', w')))"
  proof (rule retry_loop_invariant [where op = "ESelect L (st_driver st) tbl ks" and s = "(v, m, w)"])
    show "same_type m (fst (snd s')) \<and> message_ok (fst (snd s'))"
      if "ESelect L (st_driver st) tbl ks s = Some (Inr (ok, s'))" "same_type m (fst (snd s)) \<and> message_ok (fst (snd s))"
      for s ok s'
      using that ESelect_type_lemma [of L "st_driver st" tbl ks "fst s" "fst (snd s)" "snd (snd s)" ok] same_type_trans
      by (cases s'; cases s; fastforce)
  qed (use assms True in \<open>simp_all add: stub_EntityLoad_def while_open_def\<close>)
  then show ?thesis by simp
next
  case False
  then show ?thesis using assms(1) by (simp add: stub_EntityLoad_def while_open_def)
qed

text \<open>Every operation on texts keeps the cache well-typed and the engine as it is.\<close>

definition stub_kept :: "('w, 'f, 'c) lib \<Rightarrow> 'f stub \<Rightarrow> 'f stub \<Rightarrow> bool" where
  "stub_kept L st st' \<longleftrightarrow> cache_ok L (st_cache st') \<and> st_engine st' = st_engine st"

lemma string_operations_keep:
  assumes "protobuf_ok L" "cache_ok L (st_cache st)"
  shows "EntityLoadString L st n t tbl ks vw = Some (Inr (r, st')) \<Longrightarrow> stub_kept L st st'"
    "EntityAddString L st n t tbl ks w = Some (Inr (w', st')) \<Longrightarrow> stub_kept L st st'"
    "EntitySaveString L st n t tbl ks w = Some (Inr (w', st')) \<Longrightarrow> stub_kept L st st'"
    "EntityDeleteString L st n t tbl ks w = Some (Inr (w', st')) \<Longrightarrow> stub_kept L st st'"
    "StoredProcQueryString L st n t sw = Some (Inr (q, st')) \<Longrightarrow> stub_kept L st st'"
    "StoredProcUpdateString L st n t w = Some (Inr (w', st')) \<Longrightarrow> stub_kept L st st'"
  unfolding stub_kept_def EntityLoadString_def EntityAddString_def EntitySaveString_def EntityDeleteString_def
    StoredProcQueryString_def StoredProcUpdateString_def
  by (rule conjI; erule with_proto_cache [OF assms];
      auto simp: bindR_Inr_iff dest: stub_EntityLoad_type keep_type)+

definition fill :: "string \<Rightarrow> rat pb_field \<Rightarrow> rat pb_field" where
  "fill s fd =
     (case fd of
        Field n TYPE_INT32 r h (Scalar x) \<Rightarrow> Field n TYPE_INT32 r True (Scalar (Int32 (of_nat (length s))))
      | fd \<Rightarrow> fd)"

definition player_proto :: "rat pb_message" where
  "player_proto = [Field ''id'' TYPE_INT32 False False (Scalar (Int32 0)), Field ''hp'' TYPE_INT32 False False (Scalar (Int32 0))]"

definition player_lib :: "((string \<times> rat bound option list) list, rat, int) lib" where
  "player_lib = (sample_lib sample_answer)
     \<lparr>l_lookup := (\<lambda>n. if n = ''Player'' then Some player_proto else None), l_clear := (\<lambda>_. player_proto),
      l_parse := (\<lambda>p s. (True, map (fill s) p)), l_parse_full := (\<lambda>p s. (True, map (fill s) p))\<rparr>"

lemma player_lib_ok: "protobuf_ok player_lib"
proof -
  have "same_field fd (fill s fd) \<and> (field_ok fd \<longrightarrow> field_ok (fill s fd))" for fd s
    using same_type_refl [of "[fd]"]
    by (cases fd) (auto simp: fill_def split: pb_type.splits pb_value.splits)
  then have "same_type p (map (fill s) p)" "message_ok p \<Longrightarrow> message_ok (map (fill s) p)" for p s
    by (induction p) simp_all
  then show ?thesis by (simp add: protobuf_ok_def player_lib_def player_proto_def)
qed

text \<open>C9. The stub keeps one message for every type name and uses it again for every text of the
  type. As long as the kept messages have the types of their names, which \<open>EntityLoadString\<close> keeps,
  its result is the same as that of a stub that has not kept any message.\<close>

theorem EntityLoadString_cache:
  assumes "protobuf_ok L" "cache_ok L (st_cache st)"
  shows "map_option (map_sum id fst) (EntityLoadString L st strEntityName strEntity sTableName vKey vw) =
      map_option (map_sum id fst) (EntityLoadString L (st\<lparr>st_cache := Map.empty\<rparr>) strEntityName strEntity sTableName vKey vw) \<and>
    (\<forall>vw' st'. EntityLoadString L st strEntityName strEntity sTableName vKey vw = Some (Inr (vw', st')) \<longrightarrow>
      cache_ok L (st_cache st') \<and> st_engine st' = st_engine st)"
proof (rule conjI)
  show "map_option (map_sum id fst) (EntityLoadString L st strEntityName strEntity sTableName vKey vw) =
      map_option (map_sum id fst) (EntityLoadString L (st\<lparr>st_cache := Map.empty\<rparr>) strEntityName strEntity sTableName vKey vw)"
    unfolding EntityLoadString_def
    by (rule with_proto_transparent [OF assms]) (simp add: stub_EntityLoad_def while_open_def)
qed (use string_operations_keep(1) [OF assms] in \<open>simp add: stub_kept_def\<close>)

lemma EntityLoadString_cache_witness:
  "map_option (map_sum id fst) (EntityLoadString player_lib
     \<lparr>st_engine = \<lparr>en_driver = sample_driver, en_opened = True\<rparr>, st_cache = [''Player'' \<mapsto> [int_field ''id'' 5, int_field ''hp'' 6]]\<rparr>
     ''Player'' ''xy'' ''player'' [''id''] ([], [])) =
   map_option (map_sum id fst) (EntityLoadString player_lib
     \<lparr>st_engine = \<lparr>en_driver = sample_driver, en_opened = True\<rparr>, st_cache = Map.empty\<rparr>
     ''Player'' ''xy'' ''player'' [''id''] ([], []))"
  using EntityLoadString_cache [OF player_lib_ok, of "\<lparr>st_engine = \<lparr>en_driver = sample_driver, en_opened = True\<rparr>,
      st_cache = [''Player'' \<mapsto> [int_field ''id'' 5, int_field ''hp'' 6]]\<rparr>" "''Player''" "''xy''" "''player''" "[''id'']" "([], [])"]
  by (simp add: cache_ok_def player_lib_def player_proto_def int_field_def)

section \<open>Repeated operations\<close>

text \<open>C26. \<open>EntitySave\<close> on an open engine, over an entity the INSERT can be built for: it returns
  exactly if one of the attempts succeeds, and then after the first one that does, having executed
  the same statement with the same values at every attempt. If the database refuses every attempt,
  for example because the table does not exist, it does not return.\<close>

theorem EntitySave_retries:
  assumes "call_ok (l_env L) entity tbl sql" "sql = insert_text tbl ks (set_names entity ks)"
    "keys_in_order entity ks" "no_strings entity" "d_log (st_driver st)" "en_opened (st_engine st)"
    "\<And>w. ZdbStatement_Open (l_env L) w = Some (conn w)"
    "attempt = (\<lambda>w. db_update (l_env L) sql (values_of (key_fields entity ks @ set_fields entity ks)) (conn w))"
  shows "stub_EntitySave L st entity tbl ks w =
    (if \<exists>n. fst (attempts attempt n w) then Some (Inr (snd (attempts attempt (LEAST n. fst (attempts attempt n w)) w)))
     else None)"
proof -
  have "EUpdate L (st_driver st) entity tbl ks True w = Some (Inr (attempt w))" for w
    using insert_runs [OF assms(1) [unfolded assms(2)] assms(3-5), of "conn w"] assms(2,7,8)
    by (simp add: EUpdate_def ParseUpdate_insert with_connection_def db_update_def Let_def)
  then show ?thesis
    using retry_loop_cases [of "EUpdate L (st_driver st) entity tbl ks True" attempt w] assms(6)
    by (simp add: stub_EntitySave_def while_open_def)
qed

text \<open>A server that refuses the next \<open>w\<close> executions.\<close>

definition flaky_lib :: "(nat, rat, int) lib" where
  "flaky_lib =
     \<lparr>l_env = \<lparr>e_fops = exact_fops, e_scratch = replicate 32 NUL, e_raw = replicate 4096 NUL,
        e_url_new = (\<lambda>_. True), e_pool_start = (\<lambda>_ _ w. (True, w)), e_get_connection = (\<lambda>w. (True, w)), e_close = id,
        e_prepare = (\<lambda>t w. (Some (markers None t), w)),
        e_execute = (\<lambda>t vs w. if w = 0 then (Some [], w) else (None, w - 1)), e_broken = (\<lambda>_. False)\<rparr>,
      l_debug = False, l_ops = sample_ops, l_serialize = (\<lambda>_. []), l_serialize_partial = (\<lambda>_. []), l_serialize_sp = (\<lambda>_ _. []),
      l_lookup = (\<lambda>_. None), l_clear = id, l_parse = (\<lambda>p _. (False, p)), l_parse_full = (\<lambda>p _. (False, p))\<rparr>"

lemma flaky_attempts:
  "attempts (\<lambda>w. if w = 0 then (True, w) else (False, w - 1)) n w = (if w \<le> n then (True, 0) else (False, w - Suc n))"
  by (induction n arbitrary: w) (auto simp: attempts_Suc attempts_0)

lemma EntitySave_retries_witness:
  "stub_EntitySave flaky_lib \<lparr>st_engine = \<lparr>en_driver = sample_driver, en_opened = True\<rparr>, st_cache = Map.empty\<rparr>
     [int_field ''id'' 7, int_field ''hp'' 30] ''player'' [''id''] 5 = Some (Inr 0)"
proof -
  let ?entity = "[int_field ''id'' 7, int_field ''hp'' 30]"
  have open_flaky: "ZdbStatement_Open (l_env flaky_lib) w = Some w" for w
    by (subst ZdbStatement_Open.simps) (simp add: flaky_lib_def)
  have attempt: "(\<lambda>w. if w = 0 then (True, w) else (False, w - 1)) = (\<lambda>w. db_update (l_env flaky_lib)
      (insert_text ''player'' [''id''] (set_names ?entity [''id'']))
      (values_of (key_fields ?entity [''id''] @ set_fields ?entity [''id''])) w)"
    by (auto simp: db_update_eval flaky_lib_def)
  have ok: "call_ok (l_env flaky_lib) ?entity ''player'' (insert_text ''player'' [''id''] (set_names ?entity [''id'']))"
    by (simp add: sample_entity sample_texts flaky_lib_def env_ok_def server_counts_def)
  have least: "(LEAST n. 5 \<le> n) = (5::nat)" by (rule Least_equality) simp_all
  show ?thesis
    by (subst EntitySave_retries [OF ok refl _ _ _ _ open_flaky attempt])
      (auto simp: sample_entity sample_driver_def flaky_attempts least)
qed

end
