(* ===== verification/Exec_Serial.thy ===== *)
theory Exec_Serial
  imports Exec_Invariants Stub_Properties
begin

text \<open>
  What the queue and its workers promise: the database, the replies and the woken callers are those
  of a server that executes the commands one after the other with a stub that keeps nothing.
\<close>

section \<open>The serial server\<close>

record ('w, 'k) db =
  db_world :: 'w
  db_replies :: "('k \<times> reply) list"
  db_results :: "nat \<rightharpoonup> reply"
  db_woken :: "nat list"

definition reply_cb_of :: "('f, 'k) cmd \<Rightarrow> reply option \<Rightarrow> 'k reply_cb" where
  "reply_cb_of cmd r =
     (case r of None \<Rightarrow> Null_Cb | Some (Load_Reply _) \<Rightarrow> c_load_cb cmd | Some (Query_Reply _) \<Rightarrow> c_query_cb cmd)"

definition serve :: "('w, 'f, 'c) lib \<Rightarrow> 'f stub \<Rightarrow> ('f, 'k) cmd \<Rightarrow> ('w, 'k) db \<Rightarrow> ('w, 'k) db option" where
  "serve L st cmd d =
     (case exec_cmd L st cmd (db_world d) of
        Some (Inr (r, w, _)) \<Rightarrow>
          Some \<lparr>db_world = w,
            db_replies = db_replies d @ (case reply_cb_of cmd r of Trunk_Cb (Some k) \<Rightarrow> [(k, the r)] | _ \<Rightarrow> []),
            db_results = (case reply_cb_of cmd r of Caller_Cb t \<Rightarrow> (db_results d)(t := r) | _ \<Rightarrow> db_results d),
            db_woken = db_woken d @ promises [cmd]\<rparr>
      | _ \<Rightarrow> None)"

fun serve_all :: "('w, 'f, 'c) lib \<Rightarrow> 'f stub \<Rightarrow> ('f, 'k) cmd list \<Rightarrow> ('w, 'k) db \<Rightarrow> ('w, 'k) db option" where
  "serve_all L st [] d = Some d"
| "serve_all L st (c # cs) d = Option.bind (serve L st c d) (serve_all L st cs)"

lemma serve_all_append:
  "serve_all L st (cs @ cs') d = Option.bind (serve_all L st cs d) (serve_all L st cs')"
  by (induction cs arbitrary: d) (simp_all split: Option.bind_splits)

definition start_db :: "'w \<Rightarrow> ('w, 'k) db" where
  "start_db w = \<lparr>db_world = w, db_replies = [], db_results = Map.empty, db_woken = []\<rparr>"

text \<open>What of the state of the queue the server accounts for.\<close>

definition db_of :: "('w, 'f, 'k) exec \<Rightarrow> ('w, 'k) db" where
  "db_of x = \<lparr>db_world = x_world x, db_replies = map snd (x_sent x), db_results = x_results x, db_woken = x_disposed x\<rparr>"

section \<open>A command does not depend on the messages a stub keeps\<close>

definition outcome :: "(reply option \<times> 'w \<times> 'f stub) res option \<Rightarrow> (reply option \<times> 'w) res option" where
  "outcome = map_option (map_sum id (\<lambda>(r, w, st). (r, w)))"

lemma outcome_ret:
  "outcome (ret_stub p) = map_option (map_sum id (\<lambda>w. (None, w))) (map_option (map_sum id fst) p)"
  "outcome (ret_world st v) = map_option (map_sum id (\<lambda>w. (None, w))) v"
  "outcome (ret_reply f q) = map_option (map_sum id (\<lambda>(v, w). (Some (f v), w))) (map_option (map_sum id fst) q)"
  by (auto simp: outcome_def ret_stub_def ret_world_def ret_reply_def option.map_comp bindR_def
      intro!: option.map_cong0 split: sum.splits)

lemma string_operations_fresh:
  assumes "protobuf_ok L" "cache_ok L (st_cache st)"
  shows "map_option (map_sum id fst) (EntityLoadString L st n t tbl ks vw) =
      map_option (map_sum id fst) (EntityLoadString L (st\<lparr>st_cache := Map.empty\<rparr>) n t tbl ks vw)"
    "map_option (map_sum id fst) (EntityAddString L st n t tbl ks w) =
      map_option (map_sum id fst) (EntityAddString L (st\<lparr>st_cache := Map.empty\<rparr>) n t tbl ks w)"
    "map_option (map_sum id fst) (EntitySaveString L st n t tbl ks w) =
      map_option (map_sum id fst) (EntitySaveString L (st\<lparr>st_cache := Map.empty\<rparr>) n t tbl ks w)"
    "map_option (map_sum id fst) (EntityDeleteString L st n t tbl ks w) =
      map_option (map_sum id fst) (EntityDeleteString L (st\<lparr>st_cache := Map.empty\<rparr>) n t tbl ks w)"
    "map_option (map_sum id fst) (StoredProcQueryString L st n t sw) =
      map_option (map_sum id fst) (StoredProcQueryString L (st\<lparr>st_cache := Map.empty\<rparr>) n t sw)"
    "map_option (map_sum id fst) (StoredProcUpdateString L st n t w) =
      map_option (map_sum id fst) (StoredProcUpdateString L (st\<lparr>st_cache := Map.empty\<rparr>) n t w)"
  unfolding EntityLoadString_def EntityAddString_def EntitySaveString_def EntityDeleteString_def
    StoredProcQueryString_def StoredProcUpdateString_def
  by (rule with_proto_transparent [OF assms],
      simp add: stub_EntityLoad_def stub_EntityAdd_def stub_EntitySave_def stub_EntityDelete_def
        stub_StoredProcQuery_def stub_StoredProcUpdate_def while_open_def)+

lemma stub_operations_fresh:
  "stub_EntityAdd L (st\<lparr>st_cache := c\<rparr>) = stub_EntityAdd L st"
  "stub_EntitySave L (st\<lparr>st_cache := c\<rparr>) = stub_EntitySave L st"
  "stub_EntityDelete L (st\<lparr>st_cache := c\<rparr>) = stub_EntityDelete L st"
  "stub_StoredProcUpdate L (st\<lparr>st_cache := c\<rparr>) = stub_StoredProcUpdate L st"
  by (intro ext; simp add: stub_EntityAdd_def stub_EntitySave_def stub_EntityDelete_def stub_StoredProcUpdate_def while_open_def)+

lemma exec_cmd_fresh:
  assumes "protobuf_ok L" "cache_ok L (st_cache st)"
  shows "outcome (exec_cmd L st cmd w) = outcome (exec_cmd L (st\<lparr>st_cache := Map.empty\<rparr>) cmd w)"
  by (cases "c_type cmd")
     (simp_all add: exec_cmd_def Let_def outcome_ret stub_operations_fresh string_operations_fresh [OF assms]
       split: sum.splits prod.splits)

lemma exec_cmd_keeps:
  assumes "protobuf_ok L" "cache_ok L (st_cache st)" "exec_cmd L st cmd w = Some (Inr (r, w', st'))"
  shows "stub_kept L st st'"
  using assms(3) string_operations_keep [OF assms(1,2)] assms(2)
  by (cases "c_type cmd")
     (auto simp: exec_cmd_def Let_def ret_stub_def ret_world_def ret_reply_def bindR_Inr_iff stub_kept_def the_msg_def
       split: option.splits sum.splits prod.splits)

text \<open>The reply a command has, by its type.\<close>

lemma exec_cmd_reply:
  assumes "exec_cmd L st cmd w = Some (Inr (r, w', st'))"
  shows "c_type cmd \<in> {DB_CMD_TYPE_E_LOAD, DB_CMD_TYPE_E_LOAD_STRING} \<Longrightarrow> \<exists>v. r = Some (Load_Reply v)"
    "c_type cmd \<in> {DB_CMD_TYPE_SP_QUERY, DB_CMD_TYPE_SP_QUERY_STRING} \<Longrightarrow> \<exists>s. r = Some (Query_Reply s)"
    "c_type cmd \<notin> {DB_CMD_TYPE_E_LOAD, DB_CMD_TYPE_E_LOAD_STRING, DB_CMD_TYPE_SP_QUERY, DB_CMD_TYPE_SP_QUERY_STRING} \<Longrightarrow>
      r = None"
  using assms
  by (cases "c_type cmd"; auto simp: exec_cmd_def Let_def ret_reply_def ret_world_def ret_stub_def bindR_Inr_iff
      split: sum.splits prod.splits)+

lemma reply_to_caller:
  assumes "exec_cmd L st cmd w = Some (Inr (r, w', st'))" "cmd_ok cmd" "reply_cb_of cmd r = Caller_Cb t"
  shows "c_dispose cmd = Some t"
proof -
  have "c_dispose cmd \<noteq> None" using assms(2,3) by (auto simp: cmd_ok_def reply_cb_of_def split: option.splits reply.splits)
  then have "c_type cmd = DB_CMD_TYPE_E_LOAD \<or> c_type cmd = DB_CMD_TYPE_SP_QUERY"
    using exec_cmd_reply(3) [OF assms(1)] assms(2,3) by (auto simp: cmd_ok_def reply_cb_of_def)
  then have "reply_cb_of cmd r = Caller_Cb (the (c_dispose cmd))"
    using exec_cmd_reply(1,2) [OF assms(1)] assms(2) by (auto simp: cmd_ok_def reply_cb_of_def)
  then show ?thesis using \<open>c_dispose cmd \<noteq> None\<close> assms(3) by auto
qed

section \<open>The workers implement the serial server\<close>

text \<open>The stub of a worker differs from the first one only in the messages it keeps.\<close>

fun stub_of :: "('f, 'k) worker \<Rightarrow> 'f stub option" where
  "stub_of (Checking st) = Some st" | "stub_of (Polling st) = Some st" | "stub_of (Busy st cmd) = Some st"
| "stub_of Gone = None"

definition stubs_like :: "('w, 'f, 'c) lib \<Rightarrow> 'f stub \<Rightarrow> ('w, 'f, 'k) exec \<Rightarrow> bool" where
  "stubs_like L st x \<longleftrightarrow> (\<forall>i st'. stub_of (x_worker x i) = Some st' \<longrightarrow> stub_kept L st st')"

definition serial_inv :: "('w, 'f, 'c) lib \<Rightarrow> 'f stub \<Rightarrow> nat \<Rightarrow> 'w \<Rightarrow> ('w, 'f, 'k) exec \<Rightarrow> bool" where
  "serial_inv L st n w x \<longleftrightarrow>
     exec_inv n x \<and> stubs_like L st x \<and> serve_all L st (x_executed x) (start_db w) = Some (db_of x) \<and>
     (n = 1 \<longrightarrow> map snd (x_taken x) = x_executed x @ busy_with (x_worker x 0))"

lemma stubs_like_update:
  "stubs_like L st x \<Longrightarrow> x_worker x' = (x_worker x)(i := wk) \<Longrightarrow>
    (\<And>st'. stub_of wk = Some st' \<Longrightarrow> stub_kept L st st') \<Longrightarrow> stubs_like L st x'"
  unfolding stubs_like_def by (metis fun_upd_apply)

lemma serial_invD:
  assumes "serial_inv L st n w x"
  shows "exec_inv n x" "stubs_like L st x" "serve_all L st (x_executed x) (start_db w) = Some (db_of x)"
    "n = 1 \<Longrightarrow> map snd (x_taken x) = x_executed x @ busy_with (x_worker x 0)"
  using assms by (simp_all add: serial_inv_def)

lemma worker_stub_kept: "serial_inv L st n w x \<Longrightarrow> stub_of (x_worker x i) = Some s \<Longrightarrow> stub_kept L st s"
  by (simp add: serial_inv_def stubs_like_def)

lemma worker_index: "serial_inv L st n w x \<Longrightarrow> n = 1 \<Longrightarrow> x_worker x i \<noteq> Gone \<Longrightarrow> i = 0"
  by (cases "i < n") (auto simp: serial_inv_def exec_inv_def not_less)

lemma stub_kept_trans: "stub_kept L st st' \<Longrightarrow> stub_kept L st' st'' \<Longrightarrow> stub_kept L st st''"
  by (simp add: stub_kept_def)

lemma stub_kept_fresh: "stub_kept L st st' \<Longrightarrow> st_cache st = Map.empty \<Longrightarrow> st'\<lparr>st_cache := Map.empty\<rparr> = st"
  by (simp add: stub_kept_def)

lemma reply_to_db:
  "map snd (x_sent (reply_to i cmd r x)) =
     map snd (x_sent x) @ (case reply_cb_of cmd r of Trunk_Cb (Some k) \<Rightarrow> [(k, the r)] | _ \<Rightarrow> [])"
  "x_results (reply_to i cmd r x) =
     (case reply_cb_of cmd r of Caller_Cb t \<Rightarrow> (x_results x)(t := r) | _ \<Rightarrow> x_results x)"
  by (auto simp: reply_to_def call_back_def reply_cb_of_def split: option.splits reply.splits reply_cb.splits)

lemma run_cmd_db:
  assumes "exec_cmd L st cmd (x_world x) = Some (Inr (r, w, st'))"
  shows "serve L st cmd (db_of x) = Some (db_of (run_cmd i cmd (r, w, st'') x))"
  using assms by (cases "reply_cb_of cmd r") (simp_all add: serve_def db_of_def run_cmd_def reply_to_db)

lemma run_serial:
  assumes "protobuf_ok L" "st_cache st = Map.empty" "serial_inv L st n w x" "x_worker x i = Busy st' cmd"
    "exec_cmd L st' cmd (x_world x) = Some (Inr out)"
  shows "serial_inv L st n w (run_cmd i cmd out x)"
proof -
  obtain r w' st'' where out: "out = (r, w', st'')" by (cases out)
  note inv = serial_invD [OF assms(3)]
  have kept: "stub_kept L st st'" using worker_stub_kept [OF assms(3), of i] assms(4) by simp
  then have "outcome (exec_cmd L st' cmd (x_world x)) = outcome (exec_cmd L st cmd (x_world x))"
    using exec_cmd_fresh [OF assms(1), of st'] stub_kept_fresh [OF kept assms(2)] by (simp add: stub_kept_def)
  then obtain s where "exec_cmd L st cmd (x_world x) = Some (Inr (r, w', s))"
    using assms(5) unfolding outcome_def out
    by (cases "exec_cmd L st cmd (x_world x)"; cases "the (exec_cmd L st cmd (x_world x))") auto
  then have db: "serve L st cmd (db_of x) = Some (db_of (run_cmd i cmd out x))" unfolding out by (rule run_cmd_db)
  have "stub_kept L st' st''" using exec_cmd_keeps [OF assms(1) _ assms(5) [unfolded out]] kept by (simp add: stub_kept_def)
  then have "stubs_like L st (run_cmd i cmd out x)"
    using stub_kept_trans [OF kept] by (intro stubs_like_update [OF inv(2), of _ i "Checking st''"]) (simp_all add: out)
  moreover have "map snd (x_taken (run_cmd i cmd out x)) = x_executed (run_cmd i cmd out x) @ busy_with (x_worker (run_cmd i cmd out x) 0)"
    if "n = 1"
    using worker_index [OF assms(3) that, of i] assms(4) inv(4) [OF that] by (simp add: out)
  moreover have "serve_all L st (x_executed (run_cmd i cmd out x)) (start_db w) = Some (db_of (run_cmd i cmd out x))"
    using db by (simp add: out serve_all_append inv(3))
  ultimately show ?thesis using run_inv [OF inv(1) assms(4)] unfolding serial_inv_def by blast
qed

lemma db_of_call [simp]: "db_of (snd (client_call rq p x)) = db_of x"
  by (cases rq) (auto simp: call_defs db_of_def enqueue_cmd_def Let_def)

lemma call_keeps [simp]:
  "x_worker (snd (client_call rq p x)) = x_worker x" "x_taken (snd (client_call rq p x)) = x_taken x"
  "x_executed (snd (client_call rq p x)) = x_executed x"
  by (cases rq; auto simp: call_defs enqueue_cmd_def Let_def)+

lemma serial_inv_keep:
  assumes "serial_inv L st n w x" "exec_inv n x'" "stubs_like L st x'" "db_of x' = db_of x" "x_executed x' = x_executed x"
    "n = 1 \<Longrightarrow> map snd (x_taken x') = x_executed x @ busy_with (x_worker x' 0)"
  shows "serial_inv L st n w x'"
  using assms unfolding serial_inv_def by simp

lemma check_serial:
  assumes "serial_inv L st n w x" "x_worker x i = Checking s"
  shows "serial_inv L st n w (check_done i s x)"
proof (rule serial_inv_keep [OF assms(1)])
  show "exec_inv n (check_done i s x)" using check_inv [OF serial_invD(1) [OF assms(1)] assms(2)] .
  have "stub_kept L st s" using worker_stub_kept [OF assms(1), of i] assms(2) by simp
  then show "stubs_like L st (check_done i s x)"
    by (intro stubs_like_update [OF serial_invD(2) [OF assms(1)], of _ i "if x_done x then Gone else Polling s"]) (simp_all add: check_done_def split: if_splits)
  show "map snd (x_taken (check_done i s x)) = x_executed x @ busy_with (x_worker (check_done i s x) 0)" if "n = 1"
    using assms(2) worker_index [OF assms(1) that, of i] serial_invD(4) [OF assms(1) that] by (simp add: check_done_def)
qed (simp_all add: db_of_def check_done_def)

lemma take_serial:
  assumes "serial_inv L st n w x" "x_worker x i = Polling s" "x_queue x p = cmd # q"
  shows "serial_inv L st n w (wait_dequeue i s p cmd x)"
proof (rule serial_inv_keep [OF assms(1)])
  show "exec_inv n (wait_dequeue i s p cmd x)" using take_inv [OF serial_invD(1) [OF assms(1)] assms(2,3)] .
  have "stub_kept L st s" using worker_stub_kept [OF assms(1), of i] assms(2) by simp
  then show "stubs_like L st (wait_dequeue i s p cmd x)"
    by (intro stubs_like_update [OF serial_invD(2) [OF assms(1)], of _ i "Busy s cmd"]) (simp_all add: wait_dequeue_def split: if_splits)
  show "map snd (x_taken (wait_dequeue i s p cmd x)) = x_executed x @ busy_with (x_worker (wait_dequeue i s p cmd x) 0)" if "n = 1"
    using assms(2) worker_index [OF assms(1) that, of i] serial_invD(4) [OF assms(1) that] by (simp add: wait_dequeue_def)
qed (simp_all add: db_of_def wait_dequeue_def)

lemma timeout_serial:
  assumes "serial_inv L st n w x" "x_worker x i = Polling s"
  shows "serial_inv L st n w (wait_timeout i s x)"
proof (rule serial_inv_keep [OF assms(1)])
  show "exec_inv n (wait_timeout i s x)" using timeout_inv [OF serial_invD(1) [OF assms(1)] assms(2)] .
  have "stub_kept L st s" using worker_stub_kept [OF assms(1), of i] assms(2) by simp
  then show "stubs_like L st (wait_timeout i s x)"
    by (intro stubs_like_update [OF serial_invD(2) [OF assms(1)], of _ i "Checking s"]) (simp_all add: wait_timeout_def split: if_splits)
  show "map snd (x_taken (wait_timeout i s x)) = x_executed x @ busy_with (x_worker (wait_timeout i s x) 0)" if "n = 1"
    using assms(2) worker_index [OF assms(1) that, of i] serial_invD(4) [OF assms(1) that] by (simp add: wait_timeout_def)
qed (simp_all add: db_of_def wait_timeout_def)

lemma worker_step_serial:
  assumes "protobuf_ok L" "st_cache st = Map.empty"
  shows "worker_step L x x' \<Longrightarrow> serial_inv L st n w x \<Longrightarrow> serial_inv L st n w x'"
  by (induction rule: worker_step.induct) (auto intro: check_serial take_serial timeout_serial run_serial [OF assms])

lemma exec_step_serial:
  assumes "protobuf_ok L" "st_cache st = Map.empty"
  shows "exec_step L x x' \<Longrightarrow> serial_inv L st n w x \<Longrightarrow> serial_inv L st n w x'"
proof (induction rule: exec_step.induct)
  case (Call x rq p)
  then show ?case using call_inv [of n x rq p] by (auto simp: serial_inv_def stubs_like_def)
next
  case (Finish x)
  then show ?case by (auto simp: serial_inv_def stubs_like_def Finish_def exec_inv_def busy_cmds_def db_of_def)
qed (use worker_step_serial [OF assms] in auto)

lemma start_serial:
  assumes "st_cache st = Map.empty"
  shows "serial_inv L st n w (start_state (\<lambda>_. st) n w)"
  using start_inv [of n "\<lambda>_. st" w] assms
  by (auto simp: serial_inv_def stubs_like_def start_state_def db_of_def start_db_def stub_kept_def cache_ok_def)

interpretation serial: invariant_system "exec_step L" "start_state (\<lambda>_. st) n w"
    "\<lambda>x. protobuf_ok L \<and> st_cache st = Map.empty \<longrightarrow> serial_inv L st n w x"
  for L :: "('w, 'f, 'c) lib" and st :: "'f stub" and n :: nat and w :: 'w
  by unfold_locales (auto intro: start_serial exec_step_serial)

lemma reachable_serial:
  "protobuf_ok L \<Longrightarrow> st_cache st = Map.empty \<Longrightarrow> reachable L (\<lambda>_. st) n w x \<Longrightarrow> serial_inv L st n w x"
  using serial.reachable_inv [of L st n w x] by (simp add: reachable_def)

section \<open>The replies\<close>

definition replied_inv :: "nat \<Rightarrow> ('w, 'f, 'k) exec \<Rightarrow> bool" where
  "replied_inv n x \<longleftrightarrow> exec_inv n x \<and> list_all (replied (x_results x)) (x_executed x)"

lemma taken_cmd_ok:
  assumes "exec_inv n x" "cmd \<in> set (map snd (x_taken x))"
  shows "cmd_ok cmd"
proof -
  have "set (x_taken x) \<subseteq> set (x_posted x)" using set_mset_mono [OF taken_posted [OF assms(1)]] by simp
  then show ?thesis using assms unfolding exec_inv_def list_all_iff by auto
qed

lemma busy_taken:
  assumes "exec_inv n x" "x_worker x i = Busy st cmd"
  shows "cmd \<in> set (map snd (x_taken x))"
proof -
  have "i < n" using assms by (auto simp: exec_inv_def not_le [symmetric])
  then have "cmd \<in> set (busy_cmds n x)" using assms(2) unfolding busy_cmds_def by force
  then have "cmd \<in># mset (map snd (x_taken x))" using assms(1) unfolding exec_inv_def by simp
  then show ?thesis by simp
qed

lemma executed_taken_set: "exec_inv n x \<Longrightarrow> set (x_executed x) \<subseteq> set (map snd (x_taken x))"
  using set_mset_mono [OF executed_taken] by fastforce

lemma replied_other:
  "replied res c \<Longrightarrow> cmd_ok c \<Longrightarrow> c_dispose c \<noteq> Some t \<Longrightarrow> replied (res(t := r)) c"
  by (cases "c_dispose c") (auto simp: replied_def cmd_ok_def)

lemma run_replied:
  assumes "replied_inv n x" "x_worker x i = Busy st cmd" "exec_cmd L st cmd (x_world x) = Some (Inr out)"
  shows "replied_inv n (run_cmd i cmd out x)"
proof -
  obtain r w st' where out: "out = (r, w, st')" by (cases out)
  have inv: "exec_inv n x" using assms(1) by (simp add: replied_inv_def)
  have inv': "exec_inv n (run_cmd i cmd out x)" by (rule run_inv [OF inv assms(2)])
  have ok: "cmd_ok cmd" using taken_cmd_ok [OF inv busy_taken [OF inv assms(2)]] .
  have once: "distinct (promises (x_executed x) @ promises [cmd])"
    using promises_once(2) [OF inv'] inv by (simp add: out exec_inv_def)
  have results: "x_results (run_cmd i cmd out x) =
      (case reply_cb_of cmd r of Caller_Cb t \<Rightarrow> (x_results x)(t := r) | _ \<Rightarrow> x_results x)"
    by (cases "reply_cb_of cmd r") (simp_all add: out run_cmd_def reply_to_db)
  have "replied (x_results (run_cmd i cmd out x)) c" if "c \<in> set (x_executed x)" for c
  proof (cases "\<exists>t. reply_cb_of cmd r = Caller_Cb t")
    case True
    then obtain t where t: "reply_cb_of cmd r = Caller_Cb t" by blast
    then have "c_dispose cmd = Some t" using reply_to_caller [OF _ ok] assms(3) out by simp
    then have "t \<notin> set (promises (x_executed x))" using once by simp
    then have "c_dispose c \<noteq> Some t" using that by (force simp: promises_def)
    moreover have "cmd_ok c" using taken_cmd_ok [OF inv] executed_taken_set [OF inv] that by blast
    moreover have "replied (x_results x) c" using assms(1) that by (simp add: replied_inv_def list_all_iff)
    ultimately show ?thesis by (simp add: results t replied_other)
  next
    case False
    then have "x_results (run_cmd i cmd out x) = x_results x" by (cases "reply_cb_of cmd r") (simp_all add: results)
    then show ?thesis using assms(1) that by (simp add: replied_inv_def list_all_iff)
  qed
  moreover have "replied (x_results (run_cmd i cmd out x)) cmd"
    using exec_cmd_reply(1,2) [OF assms(3) [unfolded out]] ok
    by (auto simp: results replied_def cmd_ok_def reply_cb_of_def)
  ultimately show ?thesis using inv' by (simp add: replied_inv_def list_all_iff out)
qed

lemma call_results [simp]: "x_results (snd (client_call rq p x)) = x_results x"
  by (cases rq; auto simp: call_defs enqueue_cmd_def Let_def)

lemma step_replied: "exec_step L x x' \<Longrightarrow> replied_inv n x \<Longrightarrow> replied_inv n x'"
proof (induction rule: exec_step.induct)
  case (Call x rq p)
  then show ?case using call_inv by (auto simp: replied_inv_def)
next
  case (Finish x)
  then show ?case using exec_step_inv [OF exec_step.Finish] by (auto simp: replied_inv_def) (simp add: Finish_def)
next
  case (Work x x')
  then show ?case
  proof (induction rule: worker_step.induct)
    case (Check x i st)
    then show ?case using check_inv [of n x i st] unfolding replied_inv_def by (simp add: check_done_def)
  next
    case (Take x i st p cmd q)
    then show ?case using take_inv [of n x i st p cmd q] unfolding replied_inv_def by (simp add: wait_dequeue_def)
  next
    case (Timeout x i st)
    then show ?case using timeout_inv [of n x i st] unfolding replied_inv_def by (simp add: wait_timeout_def)
  qed (rule run_replied)
qed

interpretation replies: invariant_system "exec_step L" "start_state stubs n w" "replied_inv n"
  for L :: "('w, 'f, 'c) lib" and stubs :: "nat \<Rightarrow> 'f stub" and n :: nat and w :: 'w
  by unfold_locales (simp add: replied_inv_def start_inv, simp add: start_state_def, rule step_replied)

lemmas reachable_replied = replies.reachable_inv [folded reachable_def]

end
