(* ===== verification/Exec_Liveness.thy ===== *)
theory Exec_Liveness
  imports Exec_Serial
begin

text \<open>
  Progress of the workers: as long as the queue is not finished, there are workers, and every command
  returns, the workers can execute everything that was posted.
\<close>

lemma worker_step_fields:
  "x_worker x i = Checking st \<Longrightarrow> \<not> x_done x \<Longrightarrow> worker_step L x (x\<lparr>x_worker := (x_worker x)(i := Polling st)\<rparr>)"
  using worker_step.Check [of x i st L] by (simp add: check_done_def)

text \<open>Every posted command is executed by the first stub, from every state of the database.\<close>

definition all_return :: "('w, 'f, 'c) lib \<Rightarrow> 'f stub \<Rightarrow> ('w, 'f, 'k) exec \<Rightarrow> bool" where
  "all_return L st x \<longleftrightarrow> (\<forall>cmd \<in> set (map snd (x_posted x)). \<forall>w. \<exists>out. exec_cmd L st cmd w = Some (Inr out))"

lemma busy_executes:
  assumes "protobuf_ok L" "st_cache st = Map.empty" "serial_inv L st n w x" "all_return L st x" "x_worker x i = Busy st' cmd"
  shows "\<exists>out. worker_step L x (run_cmd i cmd out x)"
proof -
  note inv = serial_invD(1) [OF assms(3)]
  have "set (x_taken x) \<subseteq> set (x_posted x)" using set_mset_mono [OF taken_posted [OF inv]] by simp
  then have "cmd \<in> set (map snd (x_posted x))" using busy_taken [OF inv assms(5)] by auto
  then obtain out where fresh: "exec_cmd L st cmd (x_world x) = Some (Inr out)" using assms(4) unfolding all_return_def by blast
  have kept: "stub_kept L st st'" using worker_stub_kept [OF assms(3), of i] assms(5) by simp
  then have "outcome (exec_cmd L st' cmd (x_world x)) = outcome (exec_cmd L st cmd (x_world x))"
    using exec_cmd_fresh [OF assms(1), of st'] stub_kept_fresh [OF kept assms(2)] by (simp add: stub_kept_def)
  then obtain out' where "exec_cmd L st' cmd (x_world x) = Some (Inr out')"
    unfolding outcome_def fresh
    by (cases "exec_cmd L st' cmd (x_world x)"; cases "the (exec_cmd L st' cmd (x_world x))") auto
  then show ?thesis using worker_step.Execute [OF assms(5)] by blast
qed

lemma executed_length:
  assumes "exec_inv n x"
  shows "length (x_executed x) \<le> length (x_taken x)" "length (x_taken x) \<le> length (x_posted x)"
  using size_mset_mono [OF executed_taken [OF assms]] size_mset_mono [OF taken_posted [OF assms]] by simp_all

lemma queue_nonempty:
  assumes "exec_inv n x" "length (x_taken x) < length (x_posted x)"
  shows "\<exists>p cmd q. x_queue x p = cmd # q"
proof (rule ccontr)
  assume "\<not> ?thesis"
  then have "x_queue x p = []" for p by (cases "x_queue x p") auto
  then have "of_producer p (x_posted x) = of_producer p (x_taken x)" for p using assms(1) by (simp add: exec_inv_def)
  then have "mset (x_posted x) = mset (x_taken x)" by (rule mset_of_producers)
  then show False using assms(2) by (metis size_mset less_irrefl)
qed

lemma some_busy:
  assumes "exec_inv n x" "length (x_executed x) < length (x_taken x)"
  shows "\<exists>i st cmd. x_worker x i = Busy st cmd"
proof (rule ccontr)
  assume "\<not> ?thesis"
  then have "busy_with (x_worker x i) = []" for i by (cases "x_worker x i") auto
  then have "busy_cmds n x = []" by (simp add: busy_cmds_def)
  then have "size (mset (map snd (x_taken x))) = size (mset (x_executed x))" using assms(1) by (simp add: exec_inv_def)
  then show False using assms(2) by simp
qed

text \<open>A busy worker, an unfinished command in the queue, and the worker 0 as the one that takes it.\<close>

lemma take_next:
  assumes "exec_inv n x" "\<not> x_done x" "0 < n" "x_worker x 0 \<noteq> Busy s c" "x_queue x p = cmd # q"
    "\<forall>i st c. x_worker x i \<noteq> Busy st c"
  shows "\<exists>x'. (worker_step L)\<^sup>*\<^sup>* x x' \<and> (\<exists>st. x_worker x' 0 = Busy st cmd) \<and> x_posted x' = x_posted x \<and>
    x_executed x' = x_executed x \<and> \<not> x_done x'"
proof -
  have "x_worker x 0 \<noteq> Gone" using assms(1-3) by (simp add: exec_inv_def)
  then consider st where "x_worker x 0 = Polling st" | st where "x_worker x 0 = Checking st"
    using assms(6) by (cases "x_worker x 0") auto
  then obtain st y where y: "(worker_step L)\<^sup>*\<^sup>* x y" "x_worker y 0 = Polling st" "x_queue y p = cmd # q"
    "x_posted y = x_posted x" "x_executed y = x_executed x" "\<not> x_done y"
  proof cases
    case 1
    then show ?thesis using that assms by blast
  next
    case (2 st)
    show ?thesis
      by (rule that [of "x\<lparr>x_worker := (x_worker x)(0 := Polling st)\<rparr>" st])
         (use worker_step_fields [OF 2 assms(2)] assms in \<open>auto intro: r_into_rtranclp\<close>)
  qed
  from worker_step.Take [OF y(2,3), of L] y(1)
  have "(worker_step L)\<^sup>*\<^sup>* x (wait_dequeue 0 st p cmd y)" by simp
  then show ?thesis using y by (intro exI [of _ "wait_dequeue 0 st p cmd y"]) (simp add: wait_dequeue_def)
qed

lemma steps_serial:
  assumes "protobuf_ok L" "st_cache st = Map.empty"
  shows "(worker_step L)\<^sup>*\<^sup>* x x' \<Longrightarrow> serial_inv L st n w x \<Longrightarrow> serial_inv L st n w x'"
  by (induction rule: rtranclp_induct) (auto intro: worker_step_serial [OF assms])

lemma one_more:
  assumes "protobuf_ok L" "st_cache st = Map.empty" "serial_inv L st n w x" "all_return L st x" "\<not> x_done x" "0 < n"
    "length (x_executed x) < length (x_posted x)"
  shows "\<exists>x'. (worker_step L)\<^sup>*\<^sup>* x x' \<and> length (x_executed x') = Suc (length (x_executed x)) \<and>
    x_posted x' = x_posted x \<and> \<not> x_done x'"
proof -
  note inv = serial_invD(1) [OF assms(3)]
  have "\<exists>y. (worker_step L)\<^sup>*\<^sup>* x y \<and> (\<exists>i s c. x_worker y i = Busy s c) \<and> x_posted y = x_posted x \<and>
    x_executed y = x_executed x \<and> \<not> x_done y"
  proof (cases "\<exists>i s c. x_worker x i = Busy s c")
    case True
    then show ?thesis using assms(5) by blast
  next
    case False
    then have "\<not> length (x_executed x) < length (x_taken x)" using some_busy [OF inv] by blast
    then obtain p cmd q where "x_queue x p = cmd # q" using queue_nonempty [OF inv] assms(7) by auto
    then show ?thesis using take_next [OF inv assms(5,6)] False by blast
  qed
  then obtain y i s c where y: "(worker_step L)\<^sup>*\<^sup>* x y" "x_worker y i = Busy s c" "x_posted y = x_posted x"
    "x_executed y = x_executed x" "\<not> x_done y" by blast
  have "all_return L st y" using assms(4) by (simp add: all_return_def y(3))
  then obtain out where "worker_step L y (run_cmd i c out y)"
    using busy_executes [OF assms(1,2) steps_serial [OF assms(1,2) y(1) assms(3)] _ y(2)] by blast
  with y(1) have "(worker_step L)\<^sup>*\<^sup>* x (run_cmd i c out y)" by simp
  moreover obtain r w' s' where "out = (r, w', s')" by (cases out)
  ultimately show ?thesis using y by (intro exI [of _ "run_cmd i c out y"]) simp
qed

lemma all_executed:
  assumes "protobuf_ok L" "st_cache st = Map.empty" "serial_inv L st n w x" "all_return L st x" "\<not> x_done x" "0 < n"
  shows "\<exists>x'. (worker_step L)\<^sup>*\<^sup>* x x' \<and> length (x_executed x') = length (x_posted x') \<and> x_posted x' = x_posted x"
  using assms(3-5)
proof (induction "length (x_posted x) - length (x_executed x)" arbitrary: x rule: less_induct)
  case less
  show ?case
  proof (cases "length (x_executed x) < length (x_posted x)")
    case True
    from one_more [OF assms(1,2) less.prems assms(6) True]
    obtain y where y: "(worker_step L)\<^sup>*\<^sup>* x y" "length (x_executed y) = Suc (length (x_executed x))"
      "x_posted y = x_posted x" "\<not> x_done y" by blast
    have "all_return L st y" using less.prems(2) by (simp add: all_return_def y(3))
    moreover have "length (x_posted y) - length (x_executed y) < length (x_posted x) - length (x_executed x)"
      using y(2,3) True by simp
    ultimately obtain x' where "(worker_step L)\<^sup>*\<^sup>* y x'" "length (x_executed x') = length (x_posted x')" "x_posted x' = x_posted y"
      using less.hyps [of y] steps_serial [OF assms(1,2) y(1) less.prems(1)] y(4) by blast
    with y show ?thesis by (metis rtranclp_trans)
  next
    case False
    then show ?thesis using executed_length [OF serial_invD(1) [OF less.prems(1)]] by (intro exI [of _ x]) auto
  qed
qed

lemma all_disposed:
  assumes "exec_inv n x" "length (x_executed x) = length (x_posted x)"
  shows "set (x_disposed x) = {..<x_next x}"
proof -
  have "mset (x_executed x) \<subseteq># mset (map snd (x_posted x))"
    using executed_taken [OF assms(1)] image_mset_subseteq_mono [OF taken_posted [OF assms(1)], of snd] by simp
  then have "mset (x_executed x) = mset (map snd (x_posted x))"
    using assms(2) by (metis length_map mset_subset_size size_mset subset_mset.le_imp_less_or_eq less_irrefl)
  then have "mset (promises (x_executed x)) = mset (promises (map snd (x_posted x)))" by (simp add: mset_promises)
  then have "set (promises (x_executed x)) = set (promises (map snd (x_posted x)))" by (rule mset_eq_setD)
  then show ?thesis using assms(1) by (simp add: exec_inv_def lessThan_atLeast0)
qed

lemma set_promises: "t \<in> set (promises cs) \<longleftrightarrow> (\<exists>c \<in> set cs. c_dispose c = Some t)"
  by (induction cs) (auto split: option.splits)

lemma promise_of_one:
  "distinct (promises cs) \<Longrightarrow> c \<in> set cs \<Longrightarrow> d \<in> set cs \<Longrightarrow> c_dispose c = Some t \<Longrightarrow> c_dispose d = Some t \<Longrightarrow> c = d"
  by (induction cs) (auto simp: set_promises split: option.splits)

text \<open>A promise that was set is that of an executed command, and of no other.\<close>

lemma disposed_executed:
  assumes "exec_inv n x" "(p, cmd) \<in> set (x_posted x)" "c_dispose cmd = Some t" "t \<in> set (x_disposed x)"
  shows "cmd \<in> set (x_executed x)"
proof -
  have "x_disposed x = promises (x_executed x)" using assms(1) by (simp add: exec_inv_def)
  then obtain c where c: "c \<in> set (x_executed x)" "c_dispose c = Some t" using assms(4) by (auto simp: set_promises)
  have once: "distinct (promises (map snd (x_posted x)))" using assms(1) by (simp add: exec_inv_def)
  have "c \<in> set (map snd (x_posted x))"
    using c(1) executed_taken_set [OF assms(1)] set_mset_mono [OF taken_posted [OF assms(1)]] by auto
  then show ?thesis using promise_of_one [OF once _ _ c(2) assms(3)] assms(2) c(1) by force
qed

end
