(* ===== verification/Exec_Properties.thy ===== *)
theory Exec_Properties
  imports Exec_Liveness
begin

text \<open>
  The properties of the queue and its workers, and the inputs they are applied to.
\<close>

section \<open>A queue with two workers\<close>

definition open_stub :: "rat stub" where
  "open_stub = \<lparr>st_engine = \<lparr>en_driver = sample_driver, en_opened = True\<rparr>, st_cache = Map.empty\<rparr>"

definition sample_call :: "(rat, nat) request" where
  "sample_call = Entity_Load (''Player'', [int_field ''id'' 7]) ''player'' [''id'']"

text \<open>A state reached by one call of the thread 3, the command it posts, and what a worker makes of it.\<close>

definition one_call :: "((string \<times> rat bound option list) list, rat, nat) exec" where
  "one_call = snd (client_call sample_call 3 (start_state (\<lambda>_. open_stub) 2 []))"

definition sample_cmd :: "(rat, nat) cmd" where
  "sample_cmd = \<lparr>c_type = DB_CMD_TYPE_E_LOAD, c_typename = [], c_request = [], c_tablename = ''player'',
     c_key_list = [''id''], c_pbmsg = Some (''Player'', [int_field ''id'' 7]), c_load_cb = Caller_Cb 0,
     c_query_cb = Null_Cb, c_dispose = Some 0\<rparr>"

lemma open_stub_cache [simp]: "st_cache open_stub = Map.empty"
  by (simp add: open_stub_def)

lemma one_call_reachable: "reachable player_lib (\<lambda>_. open_stub) 2 [] one_call"
  unfolding reachable_def one_call_def by (rule r_into_rtranclp) (rule exec_step.Call)

lemma one_call_fields [simp]:
  "x_posted one_call = [(3, sample_cmd)]" "x_next one_call = 1" "\<not> x_done one_call"
  by (simp_all add: one_call_def sample_call_def SynchronizeEntityLoad_def synchronize_cmd_def Let_def
      start_state_def enqueue_cmd_def sample_cmd_def)

lemma player_select:
  "ESelect player_lib sample_driver ''player'' [''id''] ([], [int_field ''id'' 2, int_field ''hp'' 2], w) =
    Some (Inr (True, [''idhp'', ''idhp''], [int_field ''id'' 2, int_field ''hp'' 20],
      w @ [(''SELECT * FROM `player` WHERE `id`=?'', [Some (Bind_Int 2)])]))"
  using ESelect_result [where L = player_lib and entity = "[int_field ''id'' 2, int_field ''hp'' 2]"
      and tbl = "''player''" and ks = "[''id'']" and d = sample_driver and ?w0.0 = w and w = w and vResult = "[]",
      OF _ refl]
  by (simp add: sample_entity sample_texts db_query_def values_of_def key_fields_def rows_fit_def valid_keys_def
      sample_answer_def named_cell_def player_lib_def)

definition sample_out :: "reply option \<times> (string \<times> rat bound option list) list \<times> rat stub" where
  "sample_out = (Some (Load_Reply [''idhp'', ''idhp'']), [(''SELECT * FROM `player` WHERE `id`=?'', [Some (Bind_Int 2)])],
     open_stub\<lparr>st_cache := [''Player'' \<mapsto> [int_field ''id'' 2, int_field ''hp'' 20]]\<rparr>)"

lemma player_load:
  "EntityLoadString player_lib open_stub ''Player'' ''id'' ''player'' [''id''] ([], w) =
    Some (Inr (([''idhp'', ''idhp''], w @ fst (snd sample_out)), snd (snd sample_out)))"
proof -
  have "retry_loop (ESelect player_lib sample_driver ''player'' [''id'']) ([], [int_field ''id'' 2, int_field ''hp'' 2], w) =
    Some (Inr ([''idhp'', ''idhp''], [int_field ''id'' 2, int_field ''hp'' 20],
      w @ [(''SELECT * FROM `player` WHERE `id`=?'', [Some (Bind_Int 2)])]))"
    by (subst retry_loop.simps) (simp add: player_select)
  moreover have "l_lookup player_lib ''Player'' = Some player_proto"
    "l_parse player_lib player_proto ''id'' = (True, [int_field ''id'' 2, int_field ''hp'' 2])"
    by (simp_all add: player_lib_def player_proto_def fill_def int_field_def)
  ultimately show ?thesis
    by (simp add: EntityLoadString_def with_proto_def GetEntityProto_def Let_def
        stub_EntityLoad_def while_open_def sample_out_def open_stub_def)
qed

lemma sample_cmd_runs:
  "exec_cmd player_lib open_stub sample_cmd w = Some (Inr (fst sample_out, w @ fst (snd sample_out), snd (snd sample_out)))"
proof -
  have "l_serialize_partial player_lib [int_field ''id'' 7] = ''id''" by (simp add: player_lib_def sample_lib_def)
  then show ?thesis by (simp add: exec_cmd_def sample_cmd_def the_msg_def ret_reply_def player_load sample_out_def)
qed

text \<open>The first worker takes the command and executes it.\<close>

definition served :: "((string \<times> rat bound option list) list, rat, nat) exec" where
  "served = run_cmd 0 sample_cmd sample_out (wait_dequeue 0 open_stub 3 sample_cmd (check_done 0 open_stub one_call))"

lemma one_call_state [simp]:
  "x_worker one_call 0 = Checking open_stub" "x_queue one_call 3 = [sample_cmd]" "x_world one_call = []"
  by (simp_all add: one_call_def sample_call_def SynchronizeEntityLoad_def synchronize_cmd_def Let_def
      start_state_def enqueue_cmd_def sample_cmd_def)

lemma served_reachable: "reachable player_lib (\<lambda>_. open_stub) 2 [] served"
proof -
  let ?y = "check_done 0 open_stub one_call" and ?z = "wait_dequeue 0 open_stub 3 sample_cmd (check_done 0 open_stub one_call)"
  have "worker_step player_lib one_call ?y" by (rule worker_step.Check) simp
  moreover have "worker_step player_lib ?y ?z" by (rule worker_step.Take [where q = "[]"]) (simp_all add: check_done_def)
  moreover have "worker_step player_lib ?z served"
    unfolding served_def
    by (rule worker_step.Execute [where st = open_stub])
       (simp_all add: check_done_def wait_dequeue_def sample_cmd_runs)
  ultimately show ?thesis
    using one_call_reachable unfolding reachable_def by (meson exec_step.Work rtranclp.rtrancl_into_rtrancl)
qed

lemma served_fields [simp]:
  "x_executed served = [sample_cmd]" "x_disposed served = [0]" "x_posted served = [(3, sample_cmd)]"
  "x_results served 0 = Some (Load_Reply [''idhp'', ''idhp''])" "x_sent served = []" "\<not> x_done served"
  by (simp_all add: served_def sample_out_def run_cmd_def reply_to_def call_back_def check_done_def wait_dequeue_def)
     (simp_all add: sample_cmd_def one_call_def sample_call_def SynchronizeEntityLoad_def synchronize_cmd_def Let_def
      start_state_def enqueue_cmd_def)

section \<open>Every command once, in order\<close>

text \<open>C4. In every reachable state the commands of each producing thread are those that workers have
  taken, in the order of the calls, followed by those that are still queued. Every command taken is
  executed or the one a worker is busy with, none is lost or executed twice. The promises that were
  set are those of the executed commands, each one set once.\<close>

theorem exec_queue_conserves:
  assumes "reachable L stubs consumerNum w x"
  shows "of_producer p (x_posted x) = of_producer p (x_taken x) @ x_queue x p \<and>
    mset (map snd (x_taken x)) = mset (x_executed x) + mset (busy_cmds consumerNum x) \<and>
    x_disposed x = promises (x_executed x) \<and> distinct (x_disposed x)"
  using reachable_exec_inv [OF assms] promises_once [OF reachable_exec_inv [OF assms]]
  by (simp add: exec_inv_def)

lemma exec_queue_conserves_witness:
  "of_producer 3 (x_posted one_call) = of_producer 3 (x_taken one_call) @ x_queue one_call 3 \<and>
    mset (map snd (x_taken one_call)) = mset (x_executed one_call) + mset (busy_cmds 2 one_call) \<and>
    x_disposed one_call = promises (x_executed one_call) \<and> distinct (x_disposed one_call)"
  by (rule exec_queue_conserves [OF one_call_reachable])

section \<open>The serial server\<close>



section \<open>Waiting callers\<close>

text \<open>A caller that waits is woken only when its result is there: if the promise of a posted
  \<open>SynchronizeEntityLoad\<close> was set, its variable holds a list of entities, and if that of a
  \<open>SynchronizeStoredProcQuery\<close> was set, its variable holds a response.\<close>

theorem woken_has_result:
  assumes "reachable L stubs consumerNum w x" "(p, cmd) \<in> set (x_posted x)" "c_dispose cmd = Some prms"
    "prms \<in> set (x_disposed x)"
  shows "(c_type cmd = DB_CMD_TYPE_E_LOAD \<longrightarrow> (\<exists>vResult. x_results x prms = Some (Load_Reply vResult))) \<and>
    (c_type cmd = DB_CMD_TYPE_SP_QUERY \<longrightarrow> (\<exists>strResponse. x_results x prms = Some (Query_Reply strResponse)))"
proof -
  have "cmd \<in> set (x_executed x)"
    using disposed_executed [OF reachable_exec_inv [OF assms(1)]] assms(2-4) by blast
  then have "replied (x_results x) cmd" using reachable_replied [OF assms(1)] by (simp add: replied_inv_def list_all_iff)
  then show ?thesis by (simp add: replied_def assms(3))
qed

lemma woken_has_result_witness: "\<exists>vResult. x_results served 0 = Some (Load_Reply vResult)"
  using woken_has_result [OF served_reachable, of 3 sample_cmd 0] by (simp add: sample_cmd_def)

text \<open>C10. No caller waits for ever as long as the queue is not finished, there is a worker, and the
  posted commands return: from every reachable state the workers can by themselves reach one in which
  every call that was made has been answered.\<close>

theorem callers_can_be_served:
  assumes "protobuf_ok L" "st_cache st = Map.empty" "reachable L (\<lambda>_. st) consumerNum w x" "\<not> x_done x" "0 < consumerNum"
    "\<forall>(p, cmd) \<in> set (x_posted x). \<forall>w. \<exists>out. exec_cmd L st cmd w = Some (Inr out)"
  shows "\<exists>x'. (worker_step L)\<^sup>*\<^sup>* x x' \<and> set (x_disposed x') = {..<x_next x}"
proof -
  have "all_return L st x" using assms(6) by (auto simp: all_return_def)
  then obtain x' where x': "(worker_step L)\<^sup>*\<^sup>* x x'" "length (x_executed x') = length (x_posted x')" "x_posted x' = x_posted x"
    using all_executed [OF assms(1,2) reachable_serial [OF assms(1-3)] _ assms(4,5)] by blast
  have inv: "exec_inv consumerNum x'"
    using steps_serial [OF assms(1,2) x'(1) reachable_serial [OF assms(1-3)]] by (rule serial_invD(1))
  then have "[0..<x_next x'] = [0..<x_next x]"
    using reachable_exec_inv [OF assms(3)] x'(3) by (simp add: exec_inv_def)
  then have "x_next x' = x_next x" by (metis length_upt minus_nat.diff_0)
  then show ?thesis using x'(1) all_disposed [OF inv x'(2)] by auto
qed

lemma callers_can_be_served_witness: "\<exists>x'. (worker_step player_lib)\<^sup>*\<^sup>* one_call x' \<and> set (x_disposed x') = {0}"
  using callers_can_be_served [OF player_lib_ok open_stub_cache one_call_reachable] sample_cmd_runs
  by (auto simp: lessThan_Suc)

end
