(* ===== verification/Service_Properties.thy ===== *)
theory Service_Properties
  imports Db_Service Exec_Properties
begin

text \<open>
  The properties of the service: the names of tables, the replies on the main thread, what is left
  after \<open>Shutdown\<close>, and the loop of \<open>RunOnce\<close>.
\<close>

section \<open>Table names\<close>

definition name_piece :: "char \<Rightarrow> string" where
  "name_piece c = (if isupper c then [CHR ''_'', tolower c] else [c])"

text \<open>The lower case letters of the name, with an underscore before every capital but the first.\<close>

definition snake_case :: "string \<Rightarrow> string" where
  "snake_case s = (case s of [] \<Rightarrow> [] | c # s \<Rightarrow> tolower c # concat (map name_piece s))"

lemma table_step:
  assumes "ascii c" "0 < i" "i < 1023" "length out \<le> 1024"
  shows "table_loop i (c # s) out =
    (if length (out @ name_piece c) \<le> 1024 then table_loop (Suc i) s (out @ name_piece c) else Inl Write_Out_Of_Bounds)"
  using assms by (auto simp: TABLE_NAME_SIZE_def store_name_def name_piece_def)

lemma table_loop_pieces:
  assumes "list_all ascii s" "0 < i" "length out \<le> 1024"
  shows "table_loop i s out =
    (let t = out @ concat (map name_piece (take (1023 - i) s))
     in if length t \<le> 1024 then Inr t else Inl Write_Out_Of_Bounds)"
  using assms
proof (induction s arbitrary: i out)
  case (Cons c s)
  show ?case
  proof (cases "i < 1023")
    case True
    then have "take (1023 - i) (c # s) = c # take (1023 - Suc i) s" by (simp add: take_Cons')
    then show ?thesis
      using Cons.IH [of "Suc i" "out @ name_piece c"] Cons.prems True table_step [of c i out s] by (auto simp: Let_def)
  qed (use Cons.prems in \<open>simp add: TABLE_NAME_SIZE_def Let_def\<close>)
qed (simp add: Let_def)

text \<open>C34. The table of an entity type without a given table name: the name of the type in lower case
  with an underscore before every capital letter but the first. The buffer has 1024 characters and
  only the characters read are counted, so a long name with many capitals, which become two
  characters each, is stored behind the buffer.\<close>

theorem convert_entity_to_table_name:
  assumes "list_all ascii sEntityName"
  shows "convert_entity_to_table sEntityName =
    (let t = snake_case (take 1023 sEntityName) in if length t \<le> 1024 then Inr t else Inl Write_Out_Of_Bounds)"
proof (cases sEntityName)
  case (Cons c s)
  have "table_loop 0 (c # s) [] = table_loop 1 s [tolower c]"
    using assms Cons by (simp add: TABLE_NAME_SIZE_def store_name_def tolower_def)
  then show ?thesis
    using assms Cons table_loop_pieces [of s 1 "[tolower c]"] by (simp add: convert_entity_to_table_def snake_case_def Let_def)
qed (simp add: convert_entity_to_table_def snake_case_def)

lemma many_capitals: "length (concat (map name_piece (replicate n CHR ''A''))) = 2 * n"
  by (induction n) (simp_all add: name_piece_def isupper_def)

lemma convert_entity_to_table_name_witness:
  "convert_entity_to_table ''PlayerItem'' = Inr ''player_item'' \<and>
    convert_entity_to_table (replicate (Suc 600) CHR ''A'') = Inl Write_Out_Of_Bounds"
proof
  have "snake_case ''PlayerItem'' = ''player_item''" "list_all ascii ''PlayerItem''" by code_simp+
  then show "convert_entity_to_table ''PlayerItem'' = Inr ''player_item''"
    using convert_entity_to_table_name [of "''PlayerItem''"] by simp
  have "snake_case (replicate (Suc 600) CHR ''A'') = tolower CHR ''A'' # concat (map name_piece (replicate 600 CHR ''A''))"
    unfolding snake_case_def replicate_Suc by simp
  then have "length (snake_case (replicate (Suc 600) CHR ''A'')) = 1201" by (simp only: list.size many_capitals)
  moreover have "take 1023 (replicate (Suc 600) CHR ''A'') = replicate (Suc 600) CHR ''A''" by (simp only: take_replicate) simp
  moreover have "list_all ascii (replicate (Suc 600) CHR ''A'')" by (simp only: list_all_iff) (simp add: ascii_def)
  ultimately show "convert_entity_to_table (replicate (Suc 600) CHR ''A'') = Inl Write_Out_Of_Bounds"
    using convert_entity_to_table_name [of "replicate (Suc 600) CHR ''A''"] by (simp only: Let_def) (simp (no_asm))
qed

section \<open>Calls of the service are calls of the queue\<close>

text \<open>The call of the queue an operation makes, with the table name it has found.\<close>

fun request_of :: "('w, 'f, 'c) lib \<Rightarrow> string \<Rightarrow> ('f, 'k) operation \<Rightarrow> ('f, 'k) request" where
  "request_of L tbl (EntityLoad e t ks) = Entity_Load e tbl ks"
| "request_of L tbl (EntityAdd e t ks) = Entity_Add e tbl ks"
| "request_of L tbl (EntitySave e t ks) = Entity_Save e tbl ks"
| "request_of L tbl (EntityDelete e t ks) = Entity_Delete e tbl ks"
| "request_of L tbl (EntityLoadAsync e cb t ks) = Entity_Load_String (fst e) (l_serialize_partial L (snd e)) cb tbl ks"
| "request_of L tbl (EntityAddAsync e t ks) = Entity_Add_String (fst e) (l_serialize_partial L (snd e)) tbl ks"
| "request_of L tbl (EntitySaveAsync e t ks) = Entity_Save_String (fst e) (l_serialize_partial L (snd e)) tbl ks"
| "request_of L tbl (EntityDeleteAsync e t ks) = Entity_Delete_String (fst e) (l_serialize_partial L (snd e)) tbl ks"
| "request_of L tbl (StoredProcQuery e) = Stored_Proc_Query e"
| "request_of L tbl (StoredProcUpdate e) = Stored_Proc_Update e"
| "request_of L tbl (StoredProcQueryAsync e cb) = Stored_Proc_Query_String (fst e) (l_serialize L (snd e)) cb"
| "request_of L tbl (StoredProcUpdateAsync e) = Stored_Proc_Update_String (fst e) (l_serialize L (snd e))"

lemmas service_defs = service_EntityLoad_def service_EntityAdd_def service_EntitySave_def service_EntityDelete_def
  service_EntityLoadAsync_def service_EntityAddAsync_def service_EntitySaveAsync_def service_EntityDeleteAsync_def
  service_StoredProcQuery_def service_StoredProcUpdate_def service_StoredProcQueryAsync_def
  service_StoredProcUpdateAsync_def

lemma on_exec_client:
  assumes "on_exec f s = (a, s')"
  shows "f (sv_exec s) = (a, sv_exec s')" "s' = s\<lparr>sv_exec := sv_exec s'\<rparr>"
  using assms by (auto simp: on_exec_def split: prod.splits)

lemma service_call_client:
  assumes "service_call L op p s = Inr (a, s')"
  shows "\<exists>tbl. client_call (request_of L tbl op) p (sv_exec s) = (a, sv_exec s') \<and> s' = s\<lparr>sv_exec := sv_exec s'\<rparr>"
proof -
  have "\<exists>tbl. on_exec (client_call (request_of L tbl op) p) s = (a, s')"
    using assms by (cases op) (auto simp: service_defs bindR_Inr_iff Let_def on_exec_def)
  then show ?thesis using on_exec_client by blast
qed

section \<open>Replies on the main thread\<close>

text \<open>The client's function an asynchronous command was given.\<close>

definition asked :: "('f, 'k) cmd \<Rightarrow> 'k list" where
  "asked c =
     (case (if c_type c = DB_CMD_TYPE_E_LOAD_STRING then c_load_cb c
            else if c_type c = DB_CMD_TYPE_SP_QUERY_STRING then c_query_cb c else Null_Cb) of
        Trunk_Cb (Some k) \<Rightarrow> [k] | _ \<Rightarrow> [])"

definition trunk_part :: "('f, 'k) cmd \<Rightarrow> reply option \<Rightarrow> ('k \<times> reply) list" where
  "trunk_part cmd r = (case reply_cb_of cmd r of Trunk_Cb (Some k) \<Rightarrow> [(k, the r)] | _ \<Rightarrow> [])"

lemma reply_to_trunk:
  assumes "\<not> q_close (x_trunk x)"
  shows "x_sent (reply_to i cmd r x) = x_sent x @ map (Pair i) (trunk_part cmd r)"
    "q_callbacks (x_trunk (reply_to i cmd r x)) j = q_callbacks (x_trunk x) j @ (if j = i then trunk_part cmd r else [])"
    "\<not> q_close (x_trunk (reply_to i cmd r x))"
  using assms
  by (auto simp: reply_to_def call_back_def reply_cb_of_def trunk_part_def trunk_Add_load_def trunk_Add_query_def camel_Add_def
      split: option.splits reply.splits reply_cb.splits)

lemma trunk_part_asked:
  assumes "exec_cmd L st cmd w = Some (Inr (r, w', st'))" "cmd_ok cmd"
  shows "map fst (trunk_part cmd r) = asked cmd"
  using exec_cmd_reply [OF assms(1)] assms(2)
  by (cases "c_type cmd") (auto simp: trunk_part_def reply_cb_of_def asked_def cmd_ok_def split: reply_cb.splits option.splits)

definition service_inv :: "nat \<Rightarrow> ('w, 'f, 'k) service \<Rightarrow> bool" where
  "service_inv n s \<longleftrightarrow>
     (let x = sv_exec s
      in exec_inv n x \<and>
         (\<forall>i. of_producer i (x_sent x) = of_producer i (sv_run s) @ q_callbacks (x_trunk x) i) \<and>
         map (fst \<circ> snd) (x_sent x) = concat (map asked (x_executed x)) \<and>
         (q_close (x_trunk x) \<longrightarrow> sv_shutdown s \<and> all_joined n x) \<and>
         (sv_shutdown s \<longrightarrow> x_done x))"

lemma exec_inv_trunk [simp]: "exec_inv n (x\<lparr>x_trunk := q\<rparr>) = exec_inv n x"
  by (simp add: exec_inv_def busy_cmds_def)

lemma all_joined_trunk [simp]: "all_joined n (x\<lparr>x_trunk := q\<rparr>) = all_joined n x"
  by (simp add: all_joined_def)

lemma joined_no_step: "exec_inv n x \<Longrightarrow> all_joined n x \<Longrightarrow> \<not> worker_step L x x'"
proof
  assume "exec_inv n x" "all_joined n x" "worker_step L x x'"
  then have gone: "x_worker x i = Gone" for i by (cases "i < n") (auto simp: exec_inv_def all_joined_def list_all_iff not_less)
  from \<open>worker_step L x x'\<close> show False by cases (simp_all add: gone)
qed

lemma run_service_inv:
  assumes "service_inv n s" "x_worker (sv_exec s) i = Busy st cmd"
    "exec_cmd L st cmd (x_world (sv_exec s)) = Some (Inr (r, w, st'))"
  shows "service_inv n (s\<lparr>sv_exec := run_cmd i cmd (r, w, st') (sv_exec s)\<rparr>)"
proof -
  let ?x = "sv_exec s"
  let ?y = "?x\<lparr>x_world := w, x_worker := (x_worker ?x)(i := Checking st'), x_executed := x_executed ?x @ [cmd]\<rparr>"
  have inv: "exec_inv n ?x" using assms(1) by (simp add: service_inv_def Let_def)
  have "\<not> all_joined n ?x"
    using joined_no_step [OF inv] worker_step.Execute [OF assms(2,3)] by blast
  then have open_x: "\<not> q_close (x_trunk ?x)" using assms(1) by (auto simp: service_inv_def Let_def)
  have ok: "cmd_ok cmd" using taken_cmd_ok [OF inv busy_taken [OF inv assms(2)]] .
  note t = reply_to_trunk [of ?y, where i = i and cmd = cmd and r = r]
  show ?thesis
    using assms(1) run_inv [OF inv assms(2), of "(r, w, st')"] open_x t trunk_part_asked [OF assms(3) ok]
    by (simp add: service_inv_def Let_def) (simp add: run_cmd_def comp_def)
qed

lemma call_trunk [simp]:
  "x_sent (snd (client_call rq p x)) = x_sent x" "x_trunk (snd (client_call rq p x)) = x_trunk x"
  "x_done (snd (client_call rq p x)) = x_done x"
  by (cases rq; auto simp: call_defs enqueue_cmd_def Let_def)+

lemma service_inv_keep:
  assumes "service_inv n s" "exec_inv n x" "x_sent x = x_sent (sv_exec s)" "x_trunk x = x_trunk (sv_exec s)"
    "x_executed x = x_executed (sv_exec s)" "all_joined n (sv_exec s) \<Longrightarrow> all_joined n x" "x_done x = x_done (sv_exec s)"
  shows "service_inv n (s\<lparr>sv_exec := x\<rparr>)"
  using assms by (auto simp: service_inv_def Let_def)

lemma work_service_inv:
  assumes "service_inv n s" "worker_step L (sv_exec s) x"
  shows "service_inv n (s\<lparr>sv_exec := x\<rparr>)"
proof -
  have inv: "exec_inv n (sv_exec s)" using assms(1) by (simp add: service_inv_def Let_def)
  have "\<not> all_joined n (sv_exec s)" using joined_no_step [OF inv] assms(2) by blast
  then have kept: "x_sent x = x_sent (sv_exec s) \<Longrightarrow> x_trunk x = x_trunk (sv_exec s) \<Longrightarrow> x_executed x = x_executed (sv_exec s) \<Longrightarrow>
      x_done x = x_done (sv_exec s) \<Longrightarrow> service_inv n (s\<lparr>sv_exec := x\<rparr>)"
    using service_inv_keep [OF assms(1) worker_step_inv [OF assms(2) inv]] by blast
  from assms(2) show ?thesis
  proof cases
    case (Execute i st cmd out)
    then show ?thesis using run_service_inv [OF assms(1)] by (cases out) simp
  qed (rule kept; simp add: check_done_def wait_dequeue_def wait_timeout_def)+
qed

lemma service_step_inv: "service_step L n s s' \<Longrightarrow> service_inv n s \<Longrightarrow> service_inv n s'"
proof (induction rule: service_step.induct)
  case (Call op p s a s')
  obtain tbl where c: "client_call (request_of L tbl op) p (sv_exec s) = (a, sv_exec s')" "s' = s\<lparr>sv_exec := sv_exec s'\<rparr>"
    using service_call_client [OF Call(1)] by blast
  let ?x = "snd (client_call (request_of L tbl op) p (sv_exec s))"
  have "service_inv n (s\<lparr>sv_exec := ?x\<rparr>)"
  proof (rule service_inv_keep [OF Call(2)])
    show "exec_inv n ?x" using Call(2) by (intro call_inv) (simp add: service_inv_def Let_def)
  qed (simp_all add: all_joined_def)
  moreover have "?x = sv_exec s'" using c(1) by simp
  ultimately show ?case using c(2) by simp
next
  case (RunOnce s i)
  then show ?case
    by (cases "q_callbacks (x_trunk (sv_exec s)) i") (auto simp: service_inv_def Let_def run_callback_def dequeue_def)
next
  case (Begin_Shutdown s)
  then show ?case
    by (auto simp: service_inv_def Let_def begin_Shutdown_def Finish_def exec_inv_def busy_cmds_def all_joined_def)
next
  case (End_Shutdown s)
  then show ?case by (auto simp: service_inv_def Let_def end_Shutdown_def camel_Close_def)
qed (rule work_service_inv)

lemma start_service_inv: "service_inv (consumers poolSize) (DbService poolSize st w)"
  using start_inv [of "consumers poolSize" "\<lambda>_. st" w]
  by (simp add: service_inv_def DbService_def Let_def) (simp add: start_state_def camel_start_def)

interpretation services: invariant_system "service_step L (consumers poolSize)" "DbService poolSize st w"
    "service_inv (consumers poolSize)"
  for L :: "('w, 'f, 'c) lib" and poolSize :: int and st :: "'f stub" and w :: 'w
  by unfold_locales (auto intro: start_service_inv service_step_inv)

lemmas reachable_service_inv = services.reachable_inv [folded service_reachable_def]

text \<open>C8. The replies to asynchronous operations: for every worker, the client's functions the main
  thread has run, followed by those that wait in the trunk queue, are those of the replies the
  worker has sent, in order. One reply is sent for every executed command that has a function, in
  the order of execution. The trunk queue is closed only when every worker is gone, so that no reply
  is dropped by a closed queue.\<close>

theorem service_replies:
  assumes "service_reachable L poolSize st w s" "x = sv_exec s"
  shows "of_producer i (x_sent x) = of_producer i (sv_run s) @ q_callbacks (x_trunk x) i \<and>
    map (fst \<circ> snd) (x_sent x) = concat (map asked (x_executed x)) \<and>
    (q_close (x_trunk x) \<longrightarrow> all_joined (consumers poolSize) x)"
  using reachable_service_inv [OF assms(1)] by (simp add: service_inv_def assms(2) Let_def)

text \<open>One asynchronous load by the thread 3, with one worker: queued, served, and its function run.\<close>

definition async_cmd :: "(rat, nat) cmd" where
  "async_cmd = \<lparr>c_type = DB_CMD_TYPE_E_LOAD_STRING, c_typename = ''Player'', c_request = ''id'', c_tablename = ''player'',
     c_key_list = [''id''], c_pbmsg = None, c_load_cb = Trunk_Cb (Some 5), c_query_cb = Null_Cb, c_dispose = None\<rparr>"

definition start_service :: "((string \<times> rat bound option list) list, rat, nat) service" where
  "start_service = DbService 1 open_stub []"

definition queued_service :: "((string \<times> rat bound option list) list, rat, nat) service" where
  "queued_service = start_service\<lparr>sv_exec := enqueue_cmd 3 async_cmd (sv_exec start_service)\<rparr>"

lemma queued_call:
  "service_call player_lib (EntityLoadAsync (''Player'', [int_field ''id'' 7]) (Some 5) [] [''id'']) 3 start_service =
    Inr (Queued, queued_service)"
proof -
  have "table_of [] ''Player'' = Inr ''player''" by code_simp
  moreover have "l_serialize_partial player_lib [int_field ''id'' 7] = ''id''" by (simp add: player_lib_def sample_lib_def)
  ultimately show ?thesis
    by (simp add: service_EntityLoadAsync_def on_exec_def AddEntityLoadString_def add_cmd_def queued_service_def async_cmd_def
        Let_def start_service_def DbService_def start_state_def)
qed

lemma queued_fields [simp]:
  "x_worker (sv_exec queued_service) 0 = Checking open_stub" "x_queue (sv_exec queued_service) 3 = [async_cmd]"
  "x_world (sv_exec queued_service) = []" "\<not> x_done (sv_exec queued_service)" "x_sent (sv_exec queued_service) = []"
  "x_trunk (sv_exec queued_service) = camel_start" "sv_run queued_service = []" "\<not> sv_shutdown queued_service"
  "x_executed (sv_exec queued_service) = []"
  by (simp_all add: queued_service_def start_service_def DbService_def start_state_def enqueue_cmd_def consumers_def)

lemma queued_reachable: "(service_step player_lib (consumers 1))\<^sup>*\<^sup>* (DbService 1 open_stub []) queued_service"
  using service_step.Call [OF queued_call, of "consumers 1"] by (simp add: start_service_def)

lemma async_cmd_runs:
  "exec_cmd player_lib open_stub async_cmd w = Some (Inr (fst sample_out, w @ fst (snd sample_out), snd (snd sample_out)))"
  by (simp add: exec_cmd_def async_cmd_def ret_reply_def player_load sample_out_def)

definition taken_exec :: "((string \<times> rat bound option list) list, rat, nat) exec" where
  "taken_exec = wait_dequeue 0 open_stub 3 async_cmd (check_done 0 open_stub (sv_exec queued_service))"

definition served_service :: "((string \<times> rat bound option list) list, rat, nat) service" where
  "served_service = run_callback 0 (queued_service\<lparr>sv_exec := run_cmd 0 async_cmd sample_out taken_exec\<rparr>)"

lemma taken_fields [simp]:
  "x_worker taken_exec 0 = Busy open_stub async_cmd" "x_world taken_exec = []" "x_trunk taken_exec = camel_start"
  "x_sent taken_exec = []" "x_executed taken_exec = []"
  by (simp_all add: taken_exec_def check_done_def wait_dequeue_def)

lemma served_trunk [simp]:
  "x_trunk (run_cmd 0 async_cmd sample_out taken_exec) =
    \<lparr>q_close = False, q_callbacks = (\<lambda>_. [])(0 := [(5, Load_Reply [''idhp'', ''idhp''])])\<rparr>"
  "x_sent (run_cmd 0 async_cmd sample_out taken_exec) = [(0, 5, Load_Reply [''idhp'', ''idhp''])]"
  "x_executed (run_cmd 0 async_cmd sample_out taken_exec) = [async_cmd]"
  by (simp_all add: run_cmd_def sample_out_def reply_to_def call_back_def async_cmd_def trunk_Add_load_def camel_Add_def
      camel_start_def)

lemma served_service_reachable: "service_reachable player_lib 1 open_stub [] served_service"
proof -
  let ?s = "\<lambda>x. queued_service\<lparr>sv_exec := x\<rparr>"
  let ?y = "check_done 0 open_stub (sv_exec queued_service)"
  have "worker_step player_lib (sv_exec queued_service) ?y" by (rule worker_step.Check) simp
  then have 1: "service_step player_lib (consumers 1) queued_service (?s ?y)" by (rule service_step.Work)
  have "worker_step player_lib ?y taken_exec"
    unfolding taken_exec_def by (rule worker_step.Take [where q = "[]"]) (simp_all add: check_done_def)
  then have 2: "service_step player_lib (consumers 1) (?s ?y) (?s taken_exec)"
    using service_step.Work [of player_lib "?s ?y" taken_exec] by simp
  have "worker_step player_lib taken_exec (run_cmd 0 async_cmd sample_out taken_exec)"
    by (rule worker_step.Execute [where st = open_stub]) (simp_all add: async_cmd_runs)
  then have 3: "service_step player_lib (consumers 1) (?s taken_exec) (?s (run_cmd 0 async_cmd sample_out taken_exec))"
    using service_step.Work [of player_lib "?s taken_exec"] by simp
  have "service_step player_lib (consumers 1) (?s (run_cmd 0 async_cmd sample_out taken_exec)) served_service"
    unfolding served_service_def by (rule service_step.RunOnce) simp_all
  with queued_reachable 1 2 3 show ?thesis
    unfolding service_reachable_def by (meson rtranclp.rtrancl_into_rtrancl)
qed

lemma service_replies_witness:
  "of_producer 0 [(0, 5 :: nat, Load_Reply [''idhp'', ''idhp''])] =
      of_producer 0 (sv_run served_service) @ q_callbacks (x_trunk (sv_exec served_service)) 0 \<and>
    concat (map asked [async_cmd]) = [5]"
  using service_replies [OF served_service_reachable refl, of 0]
  by (simp add: served_service_def run_callback_def Let_def)





section \<open>The loop of RunOnce\<close>

text \<open>C35. \<open>RunOnce\<close> ends, and has run every function that was in the queue, the functions of one
  producer in the order they were added, when the functions neither add to the queue nor close it. It
  runs none when the queue is closed.\<close>

theorem RunOnce_drains:
  assumes "pick_ok n pick" "\<And>cb q s. call cb (q, s) = (q, eff cb s)" "\<forall>p\<ge>n. q_callbacks q p = []"
  shows "if q_close q then camel_RunOnce pick call (q, s) = Some (q, s)
    else \<exists>l. camel_RunOnce pick call (q, s) = Some (camel_start, fold eff (map snd l) s) \<and>
           (\<forall>p. of_producer p l = q_callbacks q p)"
proof (cases "q_close q")
  case True
  then show ?thesis by (simp add: camel_RunOnce.simps Let_def)
next
  case False
  have "(\<lambda>p. if p < n then [] else q_callbacks q p) = (\<lambda>_. [])" using assms(3) by (auto simp: not_less)
  then have "q\<lparr>q_callbacks := \<lambda>p. if p < n then [] else q_callbacks q p\<rparr> = camel_start"
    using False by (cases q) (simp add: camel_start_def)
  moreover have "(if p < n then q_callbacks q p else []) = q_callbacks q p" for p using assms(3) by (simp add: not_less)
  ultimately show ?thesis using camel_RunOnce_fold [OF assms(1,2) False, where s = s] False by simp
qed

lemma RunOnce_drains_witness:
  "\<exists>l. camel_RunOnce (\<lambda>_ qs. if qs 0 \<noteq> [] then Some 0 else None) (\<lambda>cb (q, s). (q, cb # s))
      (\<lparr>q_close = False, q_callbacks = (\<lambda>_. [])(0 := [1, 2 :: nat])\<rparr>, []) = Some (camel_start, fold (\<lambda>cb s. cb # s) (map snd l) []) \<and>
    of_producer 0 l = [1, 2]"
proof -
  have "pick_ok 1 (\<lambda>_ qs. if qs 0 \<noteq> [] then Some 0 else None)" by (simp add: pick_ok_def)
  from RunOnce_drains [OF this, where call = "\<lambda>cb (q, s). (q, cb # s)" and eff = "\<lambda>cb s. cb # s" and s = "[]"
      and q = "\<lparr>q_close = False, q_callbacks = (\<lambda>_. [])(0 := [1, 2 :: nat])\<rparr>"]
  obtain l where "camel_RunOnce (\<lambda>_ qs. if qs 0 \<noteq> [] then Some 0 else None) (\<lambda>cb (q, s). (q, cb # s))
      (\<lparr>q_close = False, q_callbacks = (\<lambda>_. [])(0 := [1, 2 :: nat])\<rparr>, []) = Some (camel_start, fold (\<lambda>cb s. cb # s) (map snd l) [])"
    "of_producer 0 l = [1, 2]"
    by auto
  then show ?thesis by blast
qed

end
