(* ===== verification/Pool_Properties.thy ===== *)
theory Pool_Properties
  imports Exec_Properties
begin

text \<open>
  The connections an operation takes from the pool and gives back to it. The pool of libzdb is
  described by the number of its connections in use, as a function of the state of the world.
\<close>

section \<open>The connections in use\<close>

definition counts_connections :: "('w, 'f, 'c) env \<Rightarrow> ('w \<Rightarrow> nat) \<Rightarrow> bool" where
  "counts_connections e in_use \<longleftrightarrow>
     (\<forall>w con w'. e_get_connection e w = (con, w') \<longrightarrow> in_use w' = in_use w + (if con then 1 else 0)) \<and>
     (\<forall>w. in_use (e_close e w) = in_use w - 1) \<and>
     (\<forall>sql w. in_use (snd (e_prepare e sql w)) = in_use w) \<and>
     (\<forall>sql vs w. in_use (snd (e_execute e sql vs w)) = in_use w)"

lemma counts_connectionsD:
  assumes "counts_connections e in_use"
  shows "e_get_connection e w = (con, w') \<Longrightarrow> in_use w' = in_use w + (if con then 1 else 0)"
    "in_use (e_close e w) = in_use w - 1"
    "e_prepare e sql w = (n, w') \<Longrightarrow> in_use w' = in_use w"
    "e_execute e sql vs w = (r, w') \<Longrightarrow> in_use w' = in_use w"
  using assms unfolding counts_connections_def by (metis snd_conv)+

lemma ZdbStatement_Open_takes:
  assumes "counts_connections e in_use" "ZdbStatement_Open e w = Some w'"
  shows "in_use w' = Suc (in_use w)"
  using assms(2)
proof (rule ZdbStatement_Open.raw_induct [where P = "\<lambda>e' w w'. e' = e \<longrightarrow> in_use w' = Suc (in_use w)", rotated, THEN mp])
  fix f e' w w'
  assume IH: "\<And>e' w w'. f e' w = Some w' \<Longrightarrow> e' = e \<longrightarrow> in_use w' = Suc (in_use w)"
    and step: "(let (con, w) = e_get_connection e' w in if con then Some w else f e' w) = Some w'"
  show "e' = e \<longrightarrow> in_use w' = Suc (in_use w)"
    using step counts_connectionsD(1) [OF assms(1), of w] IH by (fastforce split: if_splits prod.splits)
qed simp

text \<open>A pool that has a connection gives it at once.\<close>

lemma ZdbStatement_Open_gives: "fst (e_get_connection e w) \<Longrightarrow> ZdbStatement_Open e w = Some (snd (e_get_connection e w))"
  by (subst ZdbStatement_Open.simps) (simp add: split_def)

text \<open>What is done with a connection that stays taken is done with one that is given back.\<close>

lemma with_connection_returns:
  assumes "counts_connections e in_use" "with_connection e upd w f = Some (Inr r)"
    and "\<And>w1 r1. f w1 = Inr r1 \<Longrightarrow> in_use (world r1) = in_use w1"
    and "\<And>g r1. world (upd g r1) = g (world r1)"
  shows "in_use (world r) = in_use w"
proof -
  obtain w1 r1 where "ZdbStatement_Open e w = Some w1" "f w1 = Inr r1" "r = upd (ZdbStatement_Close e) r1"
    using assms(2) by (auto simp: with_connection_def bindR_Inr_iff)
  then show ?thesis
    using ZdbStatement_Open_takes [OF assms(1)] assms(3,4) counts_connectionsD(2) [OF assms(1)] by simp
qed

section \<open>The steps of an operation\<close>

definition keeps :: "('w \<Rightarrow> nat) \<Rightarrow> 'w \<Rightarrow> ('w, 'f) prepared \<Rightarrow> bool" where
  "keeps in_use w m \<longleftrightarrow> (\<forall>ok s w'. m = Inr (ok, s, w') \<longrightarrow> in_use w' = in_use w)"

lemma keeps_bind: "(\<And>x. m = Inr x \<Longrightarrow> keeps in_use w (f x)) \<Longrightarrow> keeps in_use w (bindR m f)"
  by (auto simp: keeps_def bindR_Inr_iff)

lemma keeps_then:
  "keeps in_use w m \<Longrightarrow> (\<And>ok s w'. in_use w' = in_use w \<Longrightarrow> keeps in_use w' (f (ok, s, w'))) \<Longrightarrow>
    keeps in_use w (bindR m f)"
  unfolding keeps_def bindR_Inr_iff by (metis prod_cases3)

lemma keeps_result: "keeps in_use w (Inr (ok, s, w))"
  by (simp add: keeps_def)

lemma keeps_with_params: "keeps in_use w m \<Longrightarrow> keeps in_use w (with_params m bind)"
  by (auto simp: keeps_def with_params_def bindR_Inr_iff split: if_splits)

lemma z_prepare_keeps: "counts_connections e in_use \<Longrightarrow> keeps in_use w (z_prepare e d s w)"
  by (auto simp: keeps_def z_prepare_def bindR_Inr_iff counts_connectionsD(3)
      split: prod.split_asm option.split_asm if_split_asm)

lemma Prepare_keeps:
  assumes "counts_connections e in_use"
  shows "keeps in_use w (PrepareSelect e d tbl ks s w)" "keeps in_use w (PrepareInsert e d tbl ks ss s w)"
    "keeps in_use w (PrepareUpdate e d tbl ks ss s w)" "keeps in_use w (PrepareDelete e d tbl ks s w)"
    "keeps in_use w (PrepareStoredProcCall e d tbl n s w)"
  unfolding PrepareSelect_def PrepareInsert_def PrepareUpdate_def PrepareDelete_def PrepareStoredProcCall_def split_def
  by (intro keeps_bind z_prepare_keeps [OF assms])+

lemma ParseProc_keeps: "counts_connections e in_use \<Longrightarrow> keeps in_use w (ParseProc e d fs name s w)"
proof (induction fs arbitrary: s w)
  case (Cons field fs)
  have step: "keeps in_use w (bindR (with_params (PrepareStoredProcCall e d name n s w) bind)
      (\<lambda>(ok, s, w). if \<not> ok then Inr (False, s, w) else ParseProc e d fs name s w))" for n bind
    using Cons by (intro keeps_then keeps_with_params Prepare_keeps) (auto intro: keeps_result)
  have "keeps in_use w (bindR (GetMessage v) (\<lambda>param. bindR (ParseProcParamsCount param) (\<lambda>n.
      bindR (with_params (PrepareStoredProcCall e d name n s w) (ParseProcParams param))
        (\<lambda>(ok, s, w). if \<not> ok then Inr (False, s, w) else ParseProc e d fs name s w))))" for v
    by (intro step keeps_bind)
  then show ?case using Cons by simp
qed (simp add: keeps_result)

lemma Parse_keeps:
  assumes "counts_connections e in_use"
  shows "keeps in_use w (ParseSelect e d m tbl ks s w)" "keeps in_use w (ParseInsert e d m tbl ks s w)"
    "keeps in_use w (ParseUpdate e d m tbl ks h s w)" "keeps in_use w (ParseDelete e d m tbl ks s w)"
  unfolding ParseSelect_def ParseInsert_def ParseUpdate_def ParseDelete_def Let_def
  by (auto intro!: keeps_bind keeps_with_params Prepare_keeps [OF assms] keeps_result)

lemma Exec_keeps: "counts_connections e in_use \<Longrightarrow> Exec e d s w = Inr (r, w') \<Longrightarrow> in_use w' = in_use w"
  by (auto simp: Exec_def counts_connectionsD(4) split: prod.split_asm option.split_asm if_split_asm)

lemma exec_update_keeps:
  assumes "counts_connections e in_use" "keeps in_use w m" "exec_update e d m = Inr r"
  shows "in_use (snd r) = in_use w"
proof -
  obtain ok s w1 where m: "m = Inr (ok, s, w1)" "in_use w1 = in_use w"
    using assms(2,3) by (cases m) (auto simp: exec_update_def keeps_def)
  then show ?thesis
    using assms(3) Exec_keeps [OF assms(1)] by (cases ok) (fastforce simp: exec_update_def bindR_Inr_iff)+
qed

lemma query_keeps:
  assumes "counts_connections e in_use" "keeps in_use w m"
    and "bindR m (\<lambda>(ok, s, w). if \<not> ok then Inr (no w) else bindR (Exec e d s w) (\<lambda>(rss, w). yes rss w)) = Inr r"
    and "\<And>w. world (no w) = w" "\<And>rss w r. yes rss w = Inr r \<Longrightarrow> world r = w"
  shows "in_use (world r) = in_use w"
proof -
  obtain ok s w1 where m: "m = Inr (ok, s, w1)" "in_use w1 = in_use w"
    using assms(2,3) by (cases m) (auto simp: keeps_def)
  show ?thesis
  proof (cases ok)
    case True
    then obtain rss w2 where "Exec e d s w1 = Inr (rss, w2)" "yes rss w2 = Inr r"
      using assms(3) m(1) by (auto simp: bindR_Inr_iff)
    then show ?thesis using Exec_keeps [OF assms(1)] assms(5) m(2) by metis
  qed (use assms(3,4) m in auto)
qed

section \<open>The operations\<close>

lemma engine_returns:
  assumes counts: "counts_connections (l_env L) in_use"
  shows "ESelect L d tbl ks (v, m, w) = Some (Inr (ok, v', m', w')) \<Longrightarrow> in_use w' = in_use w"
    "EInsert L d m tbl ks w = Some (Inr (ok, w')) \<Longrightarrow> in_use w' = in_use w"
    "EUpdate L d m tbl ks h w = Some (Inr (ok, w')) \<Longrightarrow> in_use w' = in_use w"
    "EDelete L d m tbl ks w = Some (Inr (ok, w')) \<Longrightarrow> in_use w' = in_use w"
    "SpQuery L d name m (out, w) = Some (Inr (ok, out', w')) \<Longrightarrow> in_use w' = in_use w"
    "SpUpdate L d name m w = Some (Inr (ok, w')) \<Longrightarrow> in_use w' = in_use w"
proof -
  note closed = with_connection_returns [OF counts]
  { assume eselect: "ESelect L d tbl ks (v, m, w) = Some (Inr (ok, v', m', w'))"
    have "in_use ((\<lambda>(ok, v, m, w). w) (ok, v', m', w')) = in_use w"
      by (rule closed [where world = "\<lambda>(ok, v, m, w). w", OF eselect [unfolded ESelect_def Let_def split_conv]]) (erule query_keeps [OF counts Parse_keeps(1) [OF counts], where no = "\<lambda>w. (False, v, m, w)"],
          auto simp: bindR_Inr_iff split: option.split_asm)
    then show "in_use w' = in_use w" by simp }
  { assume "EInsert L d m tbl ks w = Some (Inr (ok, w'))"
    then have "in_use (snd (ok, w')) = in_use w"
      unfolding EInsert_def Let_def
      by (rule closed [where world = snd]) (auto dest: exec_update_keeps [OF counts Parse_keeps(2) [OF counts]])
    then show "in_use w' = in_use w" by simp }
  { assume "EUpdate L d m tbl ks h w = Some (Inr (ok, w'))"
    then have "in_use (snd (ok, w')) = in_use w"
      unfolding EUpdate_def Let_def
      by (rule closed [where world = snd]) (auto dest: exec_update_keeps [OF counts Parse_keeps(3) [OF counts]])
    then show "in_use w' = in_use w" by simp }
  { assume "EDelete L d m tbl ks w = Some (Inr (ok, w'))"
    then have "in_use (snd (ok, w')) = in_use w"
      unfolding EDelete_def Let_def
      by (rule closed [where world = snd]) (auto dest: exec_update_keeps [OF counts Parse_keeps(4) [OF counts]])
    then show "in_use w' = in_use w" by simp }
  { assume spquery: "SpQuery L d name m (out, w) = Some (Inr (ok, out', w'))"
    have "in_use ((\<lambda>(ok, out, w). w) (ok, out', w')) = in_use w"
      by (rule closed [where world = "\<lambda>(ok, out, w). w", OF spquery [unfolded SpQuery_def Let_def split_conv]]) (erule query_keeps [OF counts ParseProc_keeps [OF counts], where no = "\<lambda>w. (False, out, w)"],
          auto simp: bindR_Inr_iff split: option.split_asm)
    then show "in_use w' = in_use w" by simp }
  { assume "SpUpdate L d name m w = Some (Inr (ok, w'))"
    then have "in_use (snd (ok, w')) = in_use w"
      unfolding SpUpdate_def Let_def
      by (rule closed [where world = snd]) (auto dest: exec_update_keeps [OF counts ParseProc_keeps [OF counts]])
    then show "in_use w' = in_use w" by simp }
qed

section \<open>The stub\<close>

text \<open>
  The result of an operation of the stub leaves the number of connections in use as it was;
  \<open>world\<close> reads the world from the result.
\<close>

definition leaves_pool :: "('w \<Rightarrow> nat) \<Rightarrow> 'w \<Rightarrow> ('a \<Rightarrow> 'w) \<Rightarrow> 'a res option \<Rightarrow> bool" where
  "leaves_pool in_use w world m \<longleftrightarrow> (\<forall>r. m = Some (Inr r) \<longrightarrow> in_use (world r) = in_use w)"

lemma leaves_pool_simps [simp]:
  "leaves_pool in_use w world (Some (Inr r)) \<longleftrightarrow> in_use (world r) = in_use w" "leaves_pool in_use w world (Some (Inl e))"
  by (simp_all add: leaves_pool_def)

lemma leaves_pool_map:
  "leaves_pool in_use w world m \<Longrightarrow> (\<And>r r'. f r = Inr r' \<Longrightarrow> world' r' = world r) \<Longrightarrow>
    leaves_pool in_use w world' (map_option (\<lambda>r. bindR r f) m)"
  by (fastforce simp: leaves_pool_def bindR_Inr_iff)

lemma while_open_leaves:
  assumes "\<And>s. leaves_pool in_use (world s) (world \<circ> snd) (op s)"
  shows "leaves_pool in_use (world s) world (while_open st op s)"
proof (cases "en_opened (st_engine st)")
  case True
  have "in_use (world s') = in_use (world s)" if "retry_loop op s = Some (Inr s')" for s'
    by (rule retry_loop_invariant [where P = "\<lambda>s'. in_use (world s') = in_use (world s)", OF _ that])
      (use assms in \<open>fastforce simp: leaves_pool_def\<close>)+
  then show ?thesis using True by (simp add: while_open_def leaves_pool_def)
qed (simp add: while_open_def)

lemma stub_leaves:
  assumes counts: "counts_connections (l_env L) in_use"
  shows "leaves_pool in_use w id (stub_EntityAdd L st m tbl ks w)"
    "leaves_pool in_use w id (stub_EntitySave L st m tbl ks w)"
    "leaves_pool in_use w id (stub_EntityDelete L st m tbl ks w)"
    "leaves_pool in_use w id (stub_StoredProcUpdate L st name m w)"
    "leaves_pool in_use w (snd \<circ> snd) (stub_EntityLoad L st tbl ks (v, m, w))"
    "leaves_pool in_use w snd (stub_StoredProcQuery L st name m (out, w))"
proof -
  have update: "leaves_pool in_use w id (while_open st op w)"
    if "\<And>w ok w'. op w = Some (Inr (ok, w')) \<Longrightarrow> in_use w' = in_use w" for op
    using while_open_leaves [of in_use id op w st] that by (auto simp: leaves_pool_def)
  show "leaves_pool in_use w id (stub_EntityAdd L st m tbl ks w)"
    "leaves_pool in_use w id (stub_EntitySave L st m tbl ks w)"
    "leaves_pool in_use w id (stub_EntityDelete L st m tbl ks w)"
    "leaves_pool in_use w id (stub_StoredProcUpdate L st name m w)"
    unfolding stub_EntityAdd_def stub_EntitySave_def stub_EntityDelete_def stub_StoredProcUpdate_def
    by (rule update; erule engine_returns [OF counts])+
  show "leaves_pool in_use w (snd \<circ> snd) (stub_EntityLoad L st tbl ks (v, m, w))"
  proof -
    have "leaves_pool in_use ((snd \<circ> snd) s) (snd \<circ> snd \<circ> snd) (ESelect L (st_driver st) tbl ks s)" for s
      using engine_returns(1) [OF counts] by (cases s) (simp add: leaves_pool_def)
    then show ?thesis
      using while_open_leaves [of in_use "snd \<circ> snd" "ESelect L (st_driver st) tbl ks" "(v, m, w)" st]
      by (simp add: stub_EntityLoad_def)
  qed
  show "leaves_pool in_use w snd (stub_StoredProcQuery L st name m (out, w))"
  proof -
    have "leaves_pool in_use (snd s) (snd \<circ> snd) (SpQuery L (st_driver st) (descriptor_name name) m s)" for s
      using engine_returns(5) [OF counts] by (cases s) (simp add: leaves_pool_def)
    then show ?thesis
      using while_open_leaves [of in_use snd "SpQuery L (st_driver st) (descriptor_name name) m" "(out, w)" st]
      by (simp add: stub_StoredProcQuery_def)
  qed
qed

lemma with_proto_leaves:
  assumes "\<And>st m. leaves_pool in_use w (world \<circ> fst) (act st m)" "in_use (world s) = in_use w"
  shows "leaves_pool in_use w (world \<circ> fst) (with_proto L strict st n t s act)"
proof -
  have "leaves_pool in_use w (world \<circ> fst) (map_option (\<lambda>r. bindR r (\<lambda>(s, m). Inr (s, st' m))) (act st1 m))" for st' st1 m
    by (rule leaves_pool_map [OF assms(1)]) auto
  then show ?thesis
    using assms(2) by (auto simp: with_proto_def Let_def split: prod.splits option.splits)
qed

lemma keep_leaves: "leaves_pool in_use w id m \<Longrightarrow> leaves_pool in_use w (id \<circ> fst) (keep p m)"
  unfolding keep_def by (erule leaves_pool_map) auto

lemma string_leaves:
  assumes counts: "counts_connections (l_env L) in_use"
  shows "leaves_pool in_use w (snd \<circ> fst) (EntityLoadString L st n t tbl ks (v, w))"
    "leaves_pool in_use w (id \<circ> fst) (EntityAddString L st n t tbl ks w)"
    "leaves_pool in_use w (id \<circ> fst) (EntitySaveString L st n t tbl ks w)"
    "leaves_pool in_use w (id \<circ> fst) (EntityDeleteString L st n t tbl ks w)"
    "leaves_pool in_use w (snd \<circ> fst) (StoredProcQueryString L st n t (q, w))"
    "leaves_pool in_use w (id \<circ> fst) (StoredProcUpdateString L st n t w)"
  unfolding EntityLoadString_def EntityAddString_def EntitySaveString_def EntityDeleteString_def
    StoredProcQueryString_def StoredProcUpdateString_def
  by (intro with_proto_leaves leaves_pool_map [OF stub_leaves(5) [OF counts, simplified]] leaves_pool_map [OF stub_leaves(6) [OF counts]]
      keep_leaves stub_leaves [OF counts]; auto)+

lemma ret_leaves:
  "leaves_pool in_use w (id \<circ> fst) m1 \<Longrightarrow> leaves_pool in_use w (fst \<circ> snd) (ret_stub m1)"
  "leaves_pool in_use w id m2 \<Longrightarrow> leaves_pool in_use w (fst \<circ> snd) (ret_world st m2)"
  "leaves_pool in_use w (snd \<circ> fst) m3 \<Longrightarrow> leaves_pool in_use w (fst \<circ> snd) (ret_reply f m3)"
  unfolding ret_stub_def ret_world_def ret_reply_def by (erule leaves_pool_map; auto)+

lemma exec_cmd_leaves:
  assumes "counts_connections (l_env L) in_use"
  shows "leaves_pool in_use w (fst \<circ> snd) (exec_cmd L st cmd w)"
proof (cases "c_type cmd")
qed (use string_leaves [OF assms] stub_leaves [OF assms] in
    \<open>auto simp: exec_cmd_def Let_def intro!: ret_leaves split: sum.split\<close>)

lemma exec_cmd_world:
  "counts_connections (l_env L) in_use \<Longrightarrow> exec_cmd L st cmd w = Some (Inr (r, w', st')) \<Longrightarrow> in_use w' = in_use w"
  using exec_cmd_leaves [of L in_use w st cmd] by (simp add: leaves_pool_def)

section \<open>The workers\<close>

lemma pool_step:
  assumes "counts_connections (l_env L) in_use" "exec_step L x x'"
  shows "in_use (x_world x') = in_use (x_world x)"
  using assms(2)
proof cases
  case (Call rq p)
  then show ?thesis by (cases rq) (auto simp: call_defs enqueue_cmd_def Let_def)
next
  case Work
  then show ?thesis
    by cases (auto simp: check_done_def wait_dequeue_def wait_timeout_def dest: exec_cmd_world [OF assms(1)])
qed (simp add: Finish_def)

text \<open>The number of connections in use never changes between commands.\<close>

definition pool_inv :: "('w \<Rightarrow> nat) \<Rightarrow> ('w, 'f, 'c) lib \<Rightarrow> 'w \<Rightarrow> ('w, 'f, 'k) exec \<Rightarrow> bool" where
  "pool_inv in_use L w x \<longleftrightarrow> (counts_connections (l_env L) in_use \<longrightarrow> in_use (x_world x) = in_use w)"

interpretation pool: invariant_system "exec_step L" "start_state stubs n w" "pool_inv in_use L w"
  for L stubs n w in_use
proof unfold_locales
  show "pool_inv in_use L w (start_state stubs n w)" by (simp add: pool_inv_def start_state_def)
  show "pool_inv in_use L w x'" if "pool_inv in_use L w x" "exec_step L x x'" for x x'
    using that pool_step [of L in_use x x'] by (simp add: pool_inv_def)
qed

lemmas reachable_pool = pool.reachable_inv [folded reachable_def]

text \<open>A pool of one connection; the world is the number of connections in use.\<close>

definition pool_lib :: "(nat, rat, int) lib" where
  "pool_lib = flaky_lib\<lparr>l_env := (l_env flaky_lib)
     \<lparr>e_get_connection := (\<lambda>w. if w < 1 then (True, Suc w) else (False, w)), e_close := (\<lambda>w. w - 1),
      e_execute := (\<lambda>_ _ w. (Some [], w))\<rparr>\<rparr>"

lemma pool_lib_counts: "counts_connections (l_env pool_lib) id"
  by (auto simp: counts_connections_def pool_lib_def flaky_lib_def split: if_splits)

lemma pool_lib_gives: "e_get_connection (l_env pool_lib) w = (if w < 1 then (True, Suc w) else (False, w))"
  by (simp add: pool_lib_def)

definition pool_cmd :: "(rat, nat) cmd" where
  "pool_cmd = \<lparr>c_type = DB_CMD_TYPE_E_ADD, c_typename = [], c_request = [], c_tablename = ''player'',
     c_key_list = [''id''], c_pbmsg = Some (''Player'', [int_field ''id'' 7]), c_load_cb = Null_Cb,
     c_query_cb = Null_Cb, c_dispose = Some 0\<rparr>"

lemma pool_cmd_runs: "exec_cmd pool_lib open_stub pool_cmd 0 = Some (Inr (None, 0, open_stub))"
proof -
  let ?m = "[int_field ''id'' 7]" and ?e = "l_env pool_lib"
  let ?sql = "insert_text ''player'' [''id''] (set_names ?m [''id''])"
  have "call_ok ?e ?m ''player'' ?sql"
    by (simp add: sample_entity sample_texts pool_lib_def flaky_lib_def env_ok_def server_counts_def)
  from insert_runs [OF this, of sample_driver 1]
  have "exec_update ?e sample_driver (ParseInsert ?e sample_driver ?m ''player'' [''id''] (ZdbStatement ?e) 1) = Inr (True, 1)"
    by (simp add: sample_entity db_update_eval) (simp add: pool_lib_def flaky_lib_def)
  moreover have "ZdbStatement_Open ?e 0 = Some 1"
    by (subst ZdbStatement_Open_gives) (simp_all add: pool_lib_def)
  moreover have "e_close ?e 1 = 0" by (simp add: pool_lib_def)
  ultimately have "EInsert pool_lib sample_driver ?m ''player'' [''id''] 0 = Some (Inr (True, 0))"
    by (simp add: EInsert_def with_connection_def Let_def)
  then have "retry_loop (EInsert pool_lib sample_driver ?m ''player'' [''id'']) 0 = Some (Inr 0)"
    by (subst retry_loop.simps) simp
  then show ?thesis
    by (simp add: exec_cmd_def pool_cmd_def the_msg_def ret_world_def stub_EntityAdd_def while_open_def open_stub_def)
qed

definition pool_call :: "(nat, rat, nat) exec" where
  "pool_call = snd (client_call (Entity_Add (''Player'', [int_field ''id'' 7]) ''player'' [''id'']) 3 (start_state (\<lambda>_. open_stub) 1 0))"

definition pool_served :: "(nat, rat, nat) exec" where
  "pool_served = run_cmd 0 pool_cmd (None, 0, open_stub) (wait_dequeue 0 open_stub 3 pool_cmd (check_done 0 open_stub pool_call))"

lemma pool_call_state:
  "x_worker pool_call 0 = Checking open_stub" "x_queue pool_call 3 = [pool_cmd]" "x_world pool_call = 0" "\<not> x_done pool_call"
  by (simp_all add: pool_call_def SynchronizeEntityAdd_def synchronize_cmd_def Let_def start_state_def enqueue_cmd_def pool_cmd_def)

lemma pool_served_reachable: "reachable pool_lib (\<lambda>_. open_stub) 1 0 pool_served"
proof -
  let ?y = "check_done 0 open_stub pool_call" and ?z = "wait_dequeue 0 open_stub 3 pool_cmd (check_done 0 open_stub pool_call)"
  have "exec_step pool_lib (start_state (\<lambda>_. open_stub) 1 0) pool_call" unfolding pool_call_def by (rule exec_step.Call)
  moreover have "worker_step pool_lib pool_call ?y" by (rule worker_step.Check) (simp add: pool_call_state)
  moreover have "worker_step pool_lib ?y ?z"
    by (rule worker_step.Take [where q = "[]"]) (simp_all add: check_done_def pool_call_state)
  moreover have "worker_step pool_lib ?z pool_served"
    unfolding pool_served_def
    by (rule worker_step.Execute [where st = open_stub])
       (simp_all add: check_done_def wait_dequeue_def pool_call_state pool_cmd_runs)
  ultimately show ?thesis
    unfolding reachable_def by (meson exec_step.Work r_into_rtranclp rtranclp.rtrancl_into_rtrancl)
qed

text \<open>C12. Every operation that returns has given its connection back: between two commands no more
  connections are in use than at the start, whatever calls, workers and results there were. With a
  pool that gives a connection while one is free, the next operation is served at once.\<close>

theorem connections_returned:
  assumes "counts_connections (l_env L) in_use" "reachable L stubs consumerNum w x"
  shows "in_use (x_world x) = in_use w \<and>
    ((\<forall>w. in_use w < n \<longrightarrow> fst (e_get_connection (l_env L) w)) \<longrightarrow> in_use w < n \<longrightarrow>
      ZdbStatement_Open (l_env L) (x_world x) = Some (snd (e_get_connection (l_env L) (x_world x))))"
  using reachable_pool [OF assms(2), of in_use] assms(1) ZdbStatement_Open_gives [of "l_env L"]
  by (simp add: pool_inv_def)

lemma connections_returned_witness:
  "x_world pool_served = 0 \<and> ZdbStatement_Open (l_env pool_lib) (x_world pool_served) = Some 1"
  using connections_returned [OF pool_lib_counts pool_served_reachable, where n = 1] by (auto simp: pool_lib_gives)

end
