(* ===== verification/Mysql_Session.thy ===== *)
theory Mysql_Session
  imports Db_Records
begin

text \<open>
  The driver and the prepared statement of \<open>src/src/db/MySQLSession.cpp\<close>, the access to the server
  through the C client library of MySQL.

  The client library with the server behind it is the parameter \<open>my_api\<close>, a record of its
  functions over the state \<open>'w\<close> of the world; so are \<open>split\<close>, whose source is not in the repository,
  and the functions of \<open>time.h\<close>. The statement hands the library pointers: to its own slots for
  numbers and times, to memory of the caller for strings and blobs. The library reads through them
  when the statement is executed, so a parameter holds the address and not the bytes.
\<close>

section \<open>Data\<close>

definition MAX_COLUMN_NUM :: nat where
  "MAX_COLUMN_NUM = 64"

text \<open>
  The types of columns and parameters are those of \<open>Db_Records\<close>; the zero of \<open>memset\<close> is
  \<open>MYSQL_TYPE_DECIMAL\<close>.
\<close>

text \<open>The fields of \<open>MYSQL_TIME\<close> the code sets and reads, and those of \<open>struct tm\<close>.\<close>

record my_time =
  t_year :: "32 word"
  t_month :: "32 word"
  t_day :: "32 word"
  t_hour :: "32 word"
  t_minute :: "32 word"
  t_second :: "32 word"

record tm =
  tm_year :: int
  tm_mon :: int
  tm_mday :: int
  tm_hour :: int
  tm_min :: int
  tm_sec :: int

text \<open>Floating point values are kept as their bits; the code only stores and loads them.\<close>

record my_param_value =
  llVal :: "64 word"
  nVal :: "32 word"
  fVal :: "32 word"
  dVal :: "64 word"
  tmVal :: my_time

text \<open>A pointer of a binding: into a slot of \<open>_inParamValues\<close>, or to an object of the caller.\<close>

datatype my_buffer = Null_Buffer | At_llVal nat | At_nVal nat | At_dVal nat | At_tmVal nat | At_Memory nat

record my_bind =
  b_type :: enum_field_types
  b_buffer :: my_buffer
  b_length :: "32 word"

text \<open>A binding of a column of the result: its value goes to a slot of \<open>_rsValues\<close>.\<close>

record my_rbind =
  rb_type :: enum_field_types
  rb_slot :: "nat option"
  rb_length :: nat

text \<open>What the library reads through the pointer of a parameter.\<close>

datatype my_value =
  V_Null | V_Long "32 word" | V_LongLong "64 word" | V_Double "64 word" | V_Time my_time | V_Bytes enum_field_types string

text \<open>The objects of the caller, by address; an address without a live object has none.\<close>

type_synonym memory = "nat \<Rightarrow> char list option"

section \<open>The client library\<close>

text \<open>
  The functions of the client library, named after it, those of \<open>time.h\<close>, \<open>split\<close>, and what the
  code takes from a stale stack: the array of the time text and the member \<open>tm_isdst\<close>.
\<close>

record ('w, 'f) my_api =
  a_split :: "string \<Rightarrow> char \<Rightarrow> nat \<Rightarrow> string option list"
  a_init :: "'w \<Rightarrow> 'w"
  a_real_connect :: "string option \<Rightarrow> string \<Rightarrow> string \<Rightarrow> int \<Rightarrow> 'w \<Rightarrow> bool \<times> 'w"
  a_options :: "'w \<Rightarrow> 'w"
  a_set_character_set :: "string \<Rightarrow> 'w \<Rightarrow> 'w"
  a_select_db :: "string \<Rightarrow> 'w \<Rightarrow> int \<times> 'w"
  a_get_server_version :: "'w \<Rightarrow> int"
  a_close :: "'w \<Rightarrow> 'w"
  a_server_end :: "'w \<Rightarrow> 'w"
  a_sleep :: "nat \<Rightarrow> 'w \<Rightarrow> 'w"
  a_stmt_init :: "'w \<Rightarrow> nat option \<times> 'w"
  a_stmt_close :: "nat \<Rightarrow> 'w \<Rightarrow> 'w"
  a_prepare :: "nat \<Rightarrow> string \<Rightarrow> 'w \<Rightarrow> int \<times> 'w"
  a_param_count :: "nat \<Rightarrow> 'w \<Rightarrow> nat"
  a_bind_param :: "nat \<Rightarrow> my_bind list \<Rightarrow> 'w \<Rightarrow> int \<times> 'w"
  a_stmt_execute :: "nat \<Rightarrow> my_value list \<Rightarrow> 'w \<Rightarrow> int \<times> 'w"
  a_affected_rows :: "nat \<Rightarrow> 'w \<Rightarrow> 64 word"
  a_field_count :: "nat \<Rightarrow> 'w \<Rightarrow> nat"
  a_result_metadata :: "nat \<Rightarrow> 'w \<Rightarrow> (nat \<times> (string \<times> enum_field_types) list) option \<times> 'w"
  a_free_result :: "nat option \<Rightarrow> 'w \<Rightarrow> 'w"
  a_bind_result :: "nat \<Rightarrow> my_rbind list \<Rightarrow> 'w \<Rightarrow> int \<times> 'w"
  a_store_result :: "nat \<Rightarrow> 'w \<Rightarrow> int \<times> 'w"
  a_num_rows :: "nat \<Rightarrow> 'w \<Rightarrow> 64 word"
  a_fetch :: "nat \<Rightarrow> 'w \<Rightarrow> (int \<times> string option list) \<times> 'w"
  a_next_result :: "nat \<Rightarrow> 'w \<Rightarrow> int \<times> 'w"
  a_localtime :: "64 word \<Rightarrow> tm option"
  a_mktime :: "tm \<Rightarrow> int \<Rightarrow> 64 word"
  a_isdst :: int
  a_fops :: "'f fops"
  a_scratch :: "char list"
  a_chTime :: "char list"

text \<open>\<open>atoi\<close>: a value that does not fit is undefined.\<close>

definition c_atoi :: "string \<Rightarrow> int res" where
  "c_atoi s =
     (let t = dropWhile isspace s;
          (sign, t) = (case t of [] \<Rightarrow> (1, t) | c # u \<Rightarrow>
             if c = CHR ''-'' then (- 1, u) else if c = CHR ''+'' then (1, u) else (1, t))
      in int32 (sign * fold (\<lambda>c w. 10 * w + CHARTOINT c) (takeWhile isdigit t) 0))"

section \<open>MySQLDriver\<close>

record my_driver =
  md_url :: string
  md_user :: string
  md_pass :: string
  md_schema :: string
  md_opened :: bool
  md_version :: int

definition MySQLDriver :: "string \<Rightarrow> string \<Rightarrow> string \<Rightarrow> string \<Rightarrow> my_driver" where
  "MySQLDriver sURL sUser sPass sSchema =
     \<lparr>md_url = sURL, md_user = sUser, md_pass = sPass, md_schema = sSchema, md_opened = False, md_version = 0\<rparr>"

text \<open>
  \<open>sprintf\<close> into \<open>chURL[MAX_PATH]\<close> checks nothing. The parts of the URL are the two pointers that
  \<open>split\<close> sets; the second may still be null when \<open>atoi\<close> reads it.
\<close>

definition MySQLDriver_Open :: "('w, 'f) my_api \<Rightarrow> my_driver \<Rightarrow> 'w \<Rightarrow> (bool \<times> my_driver \<times> 'w) res" where
  "MySQLDriver_Open A d w =
     bindR (assertR (length (md_url d) + 1 \<le> MAX_PATH) Write_Out_Of_Bounds) (\<lambda>_.
     let chArray = a_split A (md_url d) CHR '':'' 2; w = a_init A w
     in bindR (rd chArray 0) (\<lambda>host. bindR (rd chArray 1) (\<lambda>port.
        bindR (case port of None \<Rightarrow> Inl Null_Dereference | Some p \<Rightarrow> c_atoi p) (\<lambda>port.
        case a_real_connect A host (md_user d) (md_pass d) port w of
          (True, w) \<Rightarrow>
            let w = a_set_character_set A ''utf8mb4'' (a_options A w); (nStatus, w) = a_select_db A (md_schema d) w
            in if nStatus \<noteq> 0 then Inr (False, d, w)
               else let d = d\<lparr>md_version := a_get_server_version A w\<rparr>
                    in if md_version d < 50503 then Inr (False, d, w)
                       else Inr (True, d\<lparr>md_opened := True\<rparr>, w)
        | (False, w) \<Rightarrow> Inr (False, d, w)))))"

definition MySQLDriver_Close :: "('w, 'f) my_api \<Rightarrow> my_driver \<Rightarrow> 'w \<Rightarrow> my_driver \<times> 'w" where
  "MySQLDriver_Close A d w =
     (if md_opened d then (d\<lparr>md_opened := False\<rparr>, a_server_end A (a_close A w)) else (d, w))"

text \<open>\<open>ExecuteSQL\<close> has its body in comments.\<close>

definition MySQLDriver_ExecuteSQL :: bool where
  "MySQLDriver_ExecuteSQL = False"

definition MySQLDriver_BeginTrans :: "my_driver \<Rightarrow> int" where
  "MySQLDriver_BeginTrans d = (if \<not> md_opened d then -1 else 0)"

definition MySQLDriver_CommitTrans :: "my_driver \<Rightarrow> int" where
  "MySQLDriver_CommitTrans d = (if \<not> md_opened d then -1 else 0)"

definition MySQLDriver_RollbackTrans :: "my_driver \<Rightarrow> int" where
  "MySQLDriver_RollbackTrans d = (if \<not> md_opened d then -1 else 0)"

section \<open>MySQLStoredProc\<close>

text \<open>
  \<open>sp_driver\<close>: the pointer to the driver is not null. \<open>sp_stmt\<close> is null, or the handle of a
  statement and the bindings the library has copied for it.
\<close>

record my_proc =
  sp_driver :: bool
  sp_stmt :: "(nat \<times> my_bind list) option"
  sp_values :: "my_param_value list"
  sp_params :: "my_bind list"
  sp_index :: nat
  sp_count :: nat
  sp_affected :: "32 word"

definition no_time :: my_time where
  "no_time = \<lparr>t_year = 0, t_month = 0, t_day = 0, t_hour = 0, t_minute = 0, t_second = 0\<rparr>"

definition MySQLStoredProc :: "bool \<Rightarrow> my_proc" where
  "MySQLStoredProc pDriver =
     \<lparr>sp_driver = pDriver, sp_stmt = None,
      sp_values = replicate MAX_COLUMN_NUM \<lparr>llVal = 0, nVal = 0, fVal = 0, dVal = 0, tmVal = no_time\<rparr>,
      sp_params = replicate MAX_COLUMN_NUM \<lparr>b_type = MYSQL_TYPE_DECIMAL, b_buffer = Null_Buffer, b_length = 0\<rparr>,
      sp_index = 0, sp_count = 0, sp_affected = 0\<rparr>"

text \<open>A call of the library with a null statement loads through it.\<close>

definition with_stmt :: "my_proc \<Rightarrow> (nat \<Rightarrow> my_bind list \<Rightarrow> 'a res) \<Rightarrow> 'a res" where
  "with_stmt q f = (case sp_stmt q of None \<Rightarrow> Inl Null_Dereference | Some (h, bs) \<Rightarrow> f h bs)"

definition MySQLStoredProc_Open :: "('w, 'f) my_api \<Rightarrow> my_proc \<Rightarrow> 'w \<Rightarrow> (my_proc \<times> 'w) res" where
  "MySQLStoredProc_Open A q w =
     bindR (assertR (sp_driver q) Null_Dereference) (\<lambda>_.
     let (h, w) = a_stmt_init A w in Inr (q\<lparr>sp_stmt := map_option (\<lambda>h. (h, [])) h\<rparr>, w))"

definition MySQLStoredProc_Close :: "('w, 'f) my_api \<Rightarrow> my_proc \<Rightarrow> 'w \<Rightarrow> my_proc \<times> 'w" where
  "MySQLStoredProc_Close A q w =
     (case sp_stmt q of None \<Rightarrow> (q, w) | Some (h, _) \<Rightarrow> (q\<lparr>sp_stmt := None\<rparr>, a_stmt_close A h w))"

text \<open>
  \<open>Prepare\<close> goes on when the server refuses the text. The library copies as many bindings as the
  statement has parameters, from an array of 64.
\<close>

definition MySQLStoredProc_Prepare ::
  "('w, 'f) my_api \<Rightarrow> string \<Rightarrow> my_proc \<Rightarrow> 'w \<Rightarrow> (bool \<times> my_proc \<times> 'w) res" where
  "MySQLStoredProc_Prepare A sSQL q w =
     bindR (if sp_stmt q = None then MySQLStoredProc_Open A q w else Inr (q, w)) (\<lambda>(q, w).
     with_stmt q (\<lambda>h bs.
       let (nStatus, w) = a_prepare A h sSQL w; n = a_param_count A h w; q = q\<lparr>sp_count := n\<rparr>
       in bindR (assertR (n \<le> length (sp_params q)) Read_Out_Of_Bounds) (\<lambda>_.
          let bs = take n (sp_params q); (nStatus, w) = a_bind_param A h bs w
          in if nStatus \<noteq> 0 then Inr (False, q, w)
             else Inr (True, q\<lparr>sp_stmt := Some (h, bs)\<rparr>, w))))"

text \<open>The accessors of results of a procedure are not implemented.\<close>

definition MySQLStoredProc_GetReturnValue :: int where
  "MySQLStoredProc_GetReturnValue = -1"

definition GetValueAsBigint :: "64 word" where
  "GetValueAsBigint = 0"

definition GetValueAsInteger :: "32 word" where
  "GetValueAsInteger = 0"

definition GetValueAsString :: string where
  "GetValueAsString = []"

definition GetValueAsString_buf :: "char list \<Rightarrow> bool \<times> char list" where
  "GetValueAsString_buf pBuf = (False, pBuf)"

subsection \<open>Input parameters\<close>

text \<open>The slot of the next parameter; the index is never set back.\<close>

definition take_slot :: "my_proc \<Rightarrow> (nat \<times> my_proc) res" where
  "take_slot q =
     bindR (assertR (sp_index q < MAX_COLUMN_NUM) Assertion_Failed) (\<lambda>_.
     Inr (sp_index q, q\<lparr>sp_index := Suc (sp_index q)\<rparr>))"

definition set_bind :: "nat \<Rightarrow> enum_field_types \<Rightarrow> my_buffer \<Rightarrow> 32 word \<Rightarrow> my_proc \<Rightarrow> my_proc" where
  "set_bind n ty buf len q =
     q\<lparr>sp_params := (sp_params q)[n := \<lparr>b_type = ty, b_buffer = buf, b_length = len\<rparr>]\<rparr>"

definition put_value :: "nat \<Rightarrow> (my_param_value \<Rightarrow> my_param_value) \<Rightarrow> my_proc \<Rightarrow> my_proc" where
  "put_value n f q = q\<lparr>sp_values := (sp_values q)[n := f (sp_values q ! n)]\<rparr>"

definition AddInputParameter_int64 :: "64 word \<Rightarrow> my_proc \<Rightarrow> my_proc res" where
  "AddInputParameter_int64 nValue q =
     bindR (take_slot q) (\<lambda>(n, q).
     Inr (set_bind n MYSQL_TYPE_LONGLONG (At_llVal n) 0 (put_value n (\<lambda>v. v\<lparr>llVal := nValue\<rparr>) q)))"

definition AddInputParameter_int :: "32 word \<Rightarrow> my_proc \<Rightarrow> my_proc res" where
  "AddInputParameter_int nValue q =
     bindR (take_slot q) (\<lambda>(n, q).
     Inr (set_bind n MYSQL_TYPE_LONG (At_nVal n) 0 (put_value n (\<lambda>v. v\<lparr>nVal := nValue\<rparr>) q)))"

text \<open>\<open>strlen\<close> of the object at an address.\<close>

definition c_strlen :: "memory \<Rightarrow> nat \<Rightarrow> nat res" where
  "c_strlen m p =
     (case m p of
        None \<Rightarrow> Inl Dangling_Pointer
      | Some s \<Rightarrow> if NUL \<in> set s then Inr (length (c_str s)) else Inl Read_Out_Of_Bounds)"

definition AddInputParameter_cstr :: "memory \<Rightarrow> nat option \<Rightarrow> my_proc \<Rightarrow> my_proc res" where
  "AddInputParameter_cstr m sStr q =
     bindR (take_slot q) (\<lambda>(n, q).
     case sStr of
       Some p \<Rightarrow> bindR (c_strlen m p) (\<lambda>len. Inr (set_bind n MYSQL_TYPE_STRING (At_Memory p) (of_nat len) q))
     | None \<Rightarrow> Inr (set_bind n MYSQL_TYPE_NULL Null_Buffer 0 q))"

text \<open>A \<open>std::string\<close> with its characters at address \<open>p\<close>.\<close>

definition AddInputParameter_string :: "nat \<Rightarrow> nat \<Rightarrow> my_proc \<Rightarrow> my_proc res" where
  "AddInputParameter_string p len q =
     bindR (take_slot q) (\<lambda>(n, q). Inr (set_bind n MYSQL_TYPE_STRING (At_Memory p) (of_nat len) q))"

definition time_of_tm :: "tm \<Rightarrow> my_time res" where
  "time_of_tm tp =
     bindR (int32 (tm_year tp + 1900)) (\<lambda>year. bindR (int32 (tm_mon tp + 1)) (\<lambda>month.
     Inr \<lparr>t_year = word_of_int year, t_month = word_of_int month, t_day = word_of_int (tm_mday tp),
          t_hour = word_of_int (tm_hour tp), t_minute = word_of_int (tm_min tp),
          t_second = word_of_int (tm_sec tp)\<rparr>))"

definition AddInputParameter_time :: "('w, 'f) my_api \<Rightarrow> 64 word \<Rightarrow> my_proc \<Rightarrow> my_proc res" where
  "AddInputParameter_time A t q =
     bindR (take_slot q) (\<lambda>(n, q).
     bindR (case a_localtime A t of
              Some tp \<Rightarrow> time_of_tm tp
            | None \<Rightarrow> Inr \<lparr>t_year = 1900, t_month = 1, t_day = 1, t_hour = 0, t_minute = 0, t_second = 0\<rparr>) (\<lambda>tm.
     Inr (set_bind n MYSQL_TYPE_DATETIME (At_tmVal n) 0 (put_value n (\<lambda>v. v\<lparr>tmVal := tm\<rparr>) q))))"

definition AddInputParameter_double :: "64 word \<Rightarrow> my_proc \<Rightarrow> my_proc res" where
  "AddInputParameter_double dValue q =
     bindR (take_slot q) (\<lambda>(n, q).
     Inr (set_bind n MYSQL_TYPE_DOUBLE (At_dVal n) 0 (put_value n (\<lambda>v. v\<lparr>dVal := dValue\<rparr>) q)))"

definition AddInputParameter_blob :: "nat option \<Rightarrow> 32 word \<Rightarrow> my_proc \<Rightarrow> my_proc res" where
  "AddInputParameter_blob pBlob lBlobSize q =
     bindR (take_slot q) (\<lambda>(n, q).
     case pBlob of
       Some p \<Rightarrow> if 0 < sint lBlobSize then Inr (set_bind n MYSQL_TYPE_BLOB (At_Memory p) lBlobSize q)
                 else Inr (set_bind n MYSQL_TYPE_NULL Null_Buffer 0 q)
     | None \<Rightarrow> Inr (set_bind n MYSQL_TYPE_NULL Null_Buffer 0 q))"

subsection \<open>What the library reads\<close>

definition bytes_at :: "memory \<Rightarrow> nat \<Rightarrow> nat \<Rightarrow> string res" where
  "bytes_at m p len =
     (case m p of
        None \<Rightarrow> Inl Dangling_Pointer
      | Some s \<Rightarrow> if len \<le> length s then Inr (take len s) else Inl Read_Out_Of_Bounds)"

definition bound_value :: "memory \<Rightarrow> my_param_value list \<Rightarrow> my_bind \<Rightarrow> my_value res" where
  "bound_value m vs b =
     (case b_buffer b of
        At_llVal n \<Rightarrow> bindR (rd vs n) (\<lambda>v. Inr (V_LongLong (llVal v)))
      | At_nVal n \<Rightarrow> bindR (rd vs n) (\<lambda>v. Inr (V_Long (nVal v)))
      | At_dVal n \<Rightarrow> bindR (rd vs n) (\<lambda>v. Inr (V_Double (dVal v)))
      | At_tmVal n \<Rightarrow> bindR (rd vs n) (\<lambda>v. Inr (V_Time (tmVal v)))
      | At_Memory p \<Rightarrow> bindR (bytes_at m p (unat (b_length b))) (\<lambda>s. Inr (V_Bytes (b_type b) s))
      | Null_Buffer \<Rightarrow>
          if b_type b = MYSQL_TYPE_NULL then Inr V_Null
          else if b_length b = 0 then Inr (V_Bytes (b_type b) [])
          else Inl Null_Dereference)"

fun mapR :: "('a \<Rightarrow> 'b res) \<Rightarrow> 'a list \<Rightarrow> 'b list res" where
  "mapR f [] = Inr []"
| "mapR f (x # xs) = bindR (f x) (\<lambda>y. bindR (mapR f xs) (\<lambda>ys. Inr (y # ys)))"

end
