(* ===== verification/Mysql_Result.thy ===== *)
theory Mysql_Result
  imports Mysql_Session Db_Stub
begin

text \<open>
  The result set of \<open>src/src/db/MySQLSession.cpp\<close>, the execution that opens it, and the loops of the
  driver that prepare and execute again after a reconnect.

  A row is fetched into fixed slots: 4096 bytes for the value of a column, its length and whether it
  is null. The accessors read the slots, numbers and times as the bytes of a little endian machine.
\<close>

section \<open>Data\<close>

record my_rs_value =
  v_chVal :: "char list"
  v_nLen :: "32 word"
  v_isNull :: bool

definition RS_VALUE_SIZE :: nat where
  "RS_VALUE_SIZE = 4096"

text \<open>
  \<open>mr_bound\<close>: the bindings of the columns the library has copied. \<open>mr_fieldMap\<close> has the number of a
  column, from 1 on, by its name.
\<close>

record my_rset =
  mr_opened :: bool
  mr_numRows :: "32 word"
  mr_curRowIdx :: nat
  mr_numFields :: nat
  mr_resMetadata :: "nat option"
  mr_values :: "my_rs_value list"
  mr_binds :: "my_rbind list"
  mr_bound :: "my_rbind list"
  mr_fieldMap :: "string \<Rightarrow> nat option"

text \<open>The constructor leaves the slots and the bindings as the memory has them.\<close>

definition MySQLResultSet :: "my_rs_value list \<Rightarrow> my_rbind list \<Rightarrow> my_rset" where
  "MySQLResultSet rsValues rsBinds =
     \<lparr>mr_opened = False, mr_numRows = 0, mr_curRowIdx = 0, mr_numFields = 0, mr_resMetadata = None,
      mr_values = rsValues, mr_binds = rsBinds, mr_bound = [], mr_fieldMap = Map.empty\<rparr>"

definition MySQLResultSet_destroy :: "('w, 'f) my_api \<Rightarrow> my_rset \<Rightarrow> 'w \<Rightarrow> 'w" where
  "MySQLResultSet_destroy A rs w = a_free_result A (mr_resMetadata rs) w"

section \<open>Open and Close\<close>

definition zero_value :: my_rs_value where
  "zero_value = \<lparr>v_chVal = replicate RS_VALUE_SIZE NUL, v_nLen = 0, v_isNull = False\<rparr>"

definition zero_bind :: my_rbind where
  "zero_bind = \<lparr>rb_type = MYSQL_TYPE_DECIMAL, rb_slot = None, rb_length = 0\<rparr>"

text \<open>The loop over the columns: the bindings, and the last column of every name.\<close>

fun bind_columns ::
  "(string \<times> enum_field_types) list \<Rightarrow> nat \<Rightarrow> nat \<Rightarrow> my_rbind list \<Rightarrow> (string \<Rightarrow> nat option) \<Rightarrow>
    (my_rbind list \<times> (string \<Rightarrow> nat option)) res" where
  "bind_columns columns i 0 bs fm = Inr (bs, fm)"
| "bind_columns columns i (Suc n) bs fm =
     bindR (rd columns i) (\<lambda>(name, ty).
     bindR (wr bs i \<lparr>rb_type = ty, rb_slot = Some i, rb_length = RS_VALUE_SIZE\<rparr>) (\<lambda>bs.
     bind_columns columns (Suc i) n bs (fm(name \<mapsto> i + 1))))"

text \<open>
  \<open>Open\<close> of a result set of the procedure \<open>q\<close>. Metadata of an earlier result is not freed.
\<close>

definition MySQLResultSet_Open ::
  "('w, 'f) my_api \<Rightarrow> my_proc \<Rightarrow> my_rset \<Rightarrow> 'w \<Rightarrow> (bool \<times> my_rset \<times> 'w) res" where
  "MySQLResultSet_Open A q rs w =
     with_stmt q (\<lambda>h _.
       let n = a_field_count A h w; rs = rs\<lparr>mr_numFields := n\<rparr>
       in bindR (assertR (n \<le> MAX_COLUMN_NUM) Assertion_Failed) (\<lambda>_.
          if n = 0 then Inr (True, rs\<lparr>mr_opened := True\<rparr>, w)
          else case a_result_metadata A h w of
            (None, w) \<Rightarrow> Inr (True, rs\<lparr>mr_resMetadata := None, mr_opened := True\<rparr>, w)
          | (Some (r, columns), w) \<Rightarrow>
              bindR (bind_columns columns 0 n (replicate MAX_COLUMN_NUM zero_bind) Map.empty) (\<lambda>(bs, fm).
              let rs = rs\<lparr>mr_resMetadata := Some r, mr_values := replicate MAX_COLUMN_NUM zero_value,
                          mr_binds := bs, mr_fieldMap := fm\<rparr>;
                  (nStatus, w) = a_bind_result A h (take n bs) w
              in if nStatus \<noteq> 0 then Inr (False, rs, w)
                 else let rs = rs\<lparr>mr_bound := take n bs\<rparr>; (nStatus, w) = a_store_result A h w
                      in if nStatus \<noteq> 0 then Inr (False, rs, w)
                         else Inr (True, rs\<lparr>mr_numRows := ucast (a_num_rows A h w), mr_curRowIdx := 0,
                                            mr_opened := True\<rparr>, w))))"

text \<open>-1: no more results, greater than 0: an error.\<close>

definition FetchMoreResults :: "('w, 'f) my_api \<Rightarrow> my_proc \<Rightarrow> 'w \<Rightarrow> (bool \<times> 'w) res" where
  "FetchMoreResults A q w =
     with_stmt q (\<lambda>h _. let (nStatus, w) = a_next_result A h w in Inr (nStatus = 0, w))"

text \<open>None stands for results that do not end.\<close>

partial_function (option) MySQLResultSet_Close ::
  "('w, 'f) my_api \<Rightarrow> my_proc \<Rightarrow> my_rset \<Rightarrow> 'w \<Rightarrow> (my_rset \<times> 'w) res option" where
  "MySQLResultSet_Close A q rs w =
     (case FetchMoreResults A q w of
        Inl e \<Rightarrow> Some (Inl e)
      | Inr (more_results, w) \<Rightarrow>
          if \<not> more_results then Some (Inr (rs, w))
          else case MySQLResultSet_Open A q rs w of
                 Inl e \<Rightarrow> Some (Inl e)
               | Inr (_, rs, w) \<Rightarrow> MySQLResultSet_Close A q rs w)"

section \<open>Rows\<close>

text \<open>
  The library stores a value: of a NULL only that it is null, else the bytes that fit into the slot
  and the length the value has.
\<close>

definition store_cell :: "my_rbind \<Rightarrow> string option \<Rightarrow> my_rs_value list \<Rightarrow> my_rs_value list" where
  "store_cell b cell vs =
     (case rb_slot b of
        None \<Rightarrow> vs
      | Some i \<Rightarrow>
          (case cell of
             None \<Rightarrow> vs[i := (vs ! i)\<lparr>v_isNull := True\<rparr>]
           | Some s \<Rightarrow> vs[i := \<lparr>v_chVal = overwrite 0 (take (rb_length b) s) (v_chVal (vs ! i)),
                              v_nLen = of_nat (length s), v_isNull = False\<rparr>]))"

definition store_cells :: "my_rbind list \<Rightarrow> string option list \<Rightarrow> my_rs_value list \<Rightarrow> my_rs_value list" where
  "store_cells bs cells vs = fold (\<lambda>(b, c). store_cell b c) (zip bs cells) vs"

definition MySQLResultSet_MoveNext ::
  "('w, 'f) my_api \<Rightarrow> my_proc \<Rightarrow> my_rset \<Rightarrow> 'w \<Rightarrow> (bool \<times> my_rset \<times> 'w) res" where
  "MySQLResultSet_MoveNext A q rs w =
     with_stmt q (\<lambda>h _.
       let ((nStatus, cells), w) = a_fetch A h w;
           rs = rs\<lparr>mr_values := store_cells (mr_bound rs) cells (mr_values rs)\<rparr>
       in if nStatus = 0 then Inr (True, rs\<lparr>mr_curRowIdx := Suc (mr_curRowIdx rs)\<rparr>, w)
          else Inr (False, rs, w))"

subsection \<open>Loads from a slot\<close>

definition at16 :: "char list \<Rightarrow> nat \<Rightarrow> 16 word res" where
  "at16 s i = read16_le (map of_char (drop i s))"

definition at32 :: "char list \<Rightarrow> nat \<Rightarrow> 32 word res" where
  "at32 s i = read32_le (map of_char (drop i s))"

definition at64 :: "char list \<Rightarrow> nat \<Rightarrow> 64 word res" where
  "at64 s i = bindR (at32 s i) (\<lambda>lo. bindR (at32 s (i + 4)) (\<lambda>hi. Inr (ucast lo + push_bit 32 (ucast hi))))"

definition at_time :: "char list \<Rightarrow> my_time res" where
  "at_time s =
     bindR (at32 s 0) (\<lambda>year. bindR (at32 s 4) (\<lambda>month. bindR (at32 s 8) (\<lambda>day.
     bindR (at32 s 12) (\<lambda>hour. bindR (at32 s 16) (\<lambda>minute. bindR (at32 s 20) (\<lambda>second.
     Inr \<lparr>t_year = year, t_month = month, t_day = day, t_hour = hour, t_minute = minute, t_second = second\<rparr>))))))"

subsection \<open>Accessors\<close>

text \<open>
  The assertion compares with an unsigned number, so a negative index fails it; the index 0 does not,
  and loads what is in front of the array.
\<close>

definition rs_value :: "my_rset \<Rightarrow> int \<Rightarrow> my_rs_value res" where
  "rs_value rs nField =
     bindR (assertR (0 \<le> nField \<and> nField \<le> int MAX_COLUMN_NUM) Assertion_Failed) (\<lambda>_.
     rdi (mr_values rs) (nField - 1))"

definition rs_type :: "my_rset \<Rightarrow> int \<Rightarrow> enum_field_types res" where
  "rs_type rs nField = bindR (rdi (mr_binds rs) (nField - 1)) (\<lambda>b. Inr (rb_type b))"

text \<open>By name: None is the answer false, for a column that is not in the map.\<close>

definition by_field :: "my_rset \<Rightarrow> string \<Rightarrow> (int \<Rightarrow> 'a res) \<Rightarrow> 'a option res" where
  "by_field rs sField f =
     (case mr_fieldMap rs sField of
        None \<Rightarrow> Inr None
      | Some nField \<Rightarrow> bindR (f (int nField)) (\<lambda>x. Inr (Some x)))"

definition datetime_format :: string where
  "datetime_format = ''%04d-%02d-%02d %02d:%02d:%02d''"

definition datetime_string :: "('w, 'f) my_api \<Rightarrow> my_time \<Rightarrow> string res" where
  "datetime_string A t =
     bindR (o_snprintf (a_fops A) (Some (a_chTime A)) (a_scratch A) (cstr datetime_format)
       (map VInt [t_year t, t_month t, t_day t, t_hour t, t_minute t, t_second t])) (\<lambda>(r, p).
     bindR (assertR (NUL \<in> set (p_out p)) Read_Out_Of_Bounds) (\<lambda>_. Inr (c_str (p_out p))))"

definition My_GetFieldString_at :: "('w, 'f) my_api \<Rightarrow> my_rset \<Rightarrow> int \<Rightarrow> (string \<times> my_rset) res" where
  "My_GetFieldString_at A rs nField =
     bindR (rs_value rs nField) (\<lambda>v.
     if v_isNull v then Inr ([], rs)
     else bindR (rs_type rs nField) (\<lambda>ty.
     if ty = MYSQL_TYPE_DATETIME
     then bindR (at_time (v_chVal v)) (\<lambda>t. bindR (datetime_string A t) (\<lambda>str. Inr (str, rs)))
     else if unat (v_nLen v) < RS_VALUE_SIZE
     then bindR (wr (v_chVal v) (unat (v_nLen v)) NUL) (\<lambda>chVal.
          Inr (c_str chVal, rs\<lparr>mr_values := (mr_values rs)[nat (nField - 1) := v\<lparr>v_chVal := chVal\<rparr>]\<rparr>))
     else Inr ([], rs)))"

definition My_GetFieldString where
  "My_GetFieldString A rs sField = by_field rs sField (My_GetFieldString_at A rs)"

text \<open>
  \<open>memcpy\<close> of as many bytes as the value has, from a slot of 4096 bytes to the object of the caller.
\<close>

definition My_GetFieldBlob_at :: "my_rset \<Rightarrow> int \<Rightarrow> char list \<Rightarrow> (char list \<times> int) res" where
  "My_GetFieldBlob_at rs nField pBlob =
     bindR (rs_value rs nField) (\<lambda>v.
     if v_isNull v then Inr (pBlob, 0)
     else let blobSize = sint (v_nLen v); n = nat blobSize
          in if 0 < blobSize
             then bindR (assertR (n \<le> length (v_chVal v)) Read_Out_Of_Bounds) (\<lambda>_.
                  bindR (assertR (n \<le> length pBlob) Write_Out_Of_Bounds) (\<lambda>_.
                  Inr (overwrite 0 (take n (v_chVal v)) pBlob, blobSize)))
             else Inr (pBlob, blobSize))"

definition My_GetFieldBlob where
  "My_GetFieldBlob rs sField pBlob = by_field rs sField (\<lambda>n. My_GetFieldBlob_at rs n pBlob)"

text \<open>The numbers: 0 for NULL; three of the accessors assert the type of the column.\<close>

definition number_at ::
  "my_rset \<Rightarrow> int \<Rightarrow> enum_field_types option \<Rightarrow> (char list \<Rightarrow> 'a::zero res) \<Rightarrow> 'a res" where
  "number_at rs nField ty ld =
     bindR (rs_value rs nField) (\<lambda>v.
     if v_isNull v then Inr 0
     else bindR (case ty of
                   None \<Rightarrow> Inr ()
                 | Some t \<Rightarrow> bindR (rs_type rs nField) (\<lambda>t'. assertR (t = t') Assertion_Failed)) (\<lambda>_.
          ld (v_chVal v)))"

definition My_GetFieldFloatValue_at :: "my_rset \<Rightarrow> int \<Rightarrow> 32 word res" where
  "My_GetFieldFloatValue_at rs nField = number_at rs nField (Some MYSQL_TYPE_FLOAT) (\<lambda>s. at32 s 0)"

definition My_GetFieldFloatValue where
  "My_GetFieldFloatValue rs sField = by_field rs sField (My_GetFieldFloatValue_at rs)"

definition My_GetFieldDoubleValue_at :: "my_rset \<Rightarrow> int \<Rightarrow> 64 word res" where
  "My_GetFieldDoubleValue_at rs nField = number_at rs nField (Some MYSQL_TYPE_DOUBLE) (\<lambda>s. at64 s 0)"

definition My_GetFieldDoubleValue where
  "My_GetFieldDoubleValue rs sField = by_field rs sField (My_GetFieldDoubleValue_at rs)"

definition My_GetFieldInt64Value_at :: "my_rset \<Rightarrow> int \<Rightarrow> 64 word res" where
  "My_GetFieldInt64Value_at rs nField = number_at rs nField (Some MYSQL_TYPE_LONGLONG) (\<lambda>s. at64 s 0)"

definition My_GetFieldInt_at :: "my_rset \<Rightarrow> int \<Rightarrow> 32 word res" where
  "My_GetFieldInt_at rs nField = number_at rs nField None (\<lambda>s. at32 s 0)"

definition My_GetFieldInt where
  "My_GetFieldInt rs sField = by_field rs sField (My_GetFieldInt_at rs)"

definition My_GetFieldShort_at :: "my_rset \<Rightarrow> int \<Rightarrow> 16 word res" where
  "My_GetFieldShort_at rs nField = number_at rs nField None (\<lambda>s. at16 s 0)"

definition My_GetFieldShort where
  "My_GetFieldShort rs sField = by_field rs sField (My_GetFieldShort_at rs)"

text \<open>
  The year is unsigned when 1900 is taken off, and an \<open>int\<close> after; \<open>tm_isdst\<close> is not set.
\<close>

definition tm_of_time :: "my_time \<Rightarrow> tm" where
  "tm_of_time t =
     \<lparr>tm_year = sint (t_year t - 1900), tm_mon = sint (t_month t - 1), tm_mday = sint (t_day t),
      tm_hour = sint (t_hour t), tm_min = sint (t_minute t), tm_sec = sint (t_second t)\<rparr>"

definition My_GetFieldTime_at :: "('w, 'f) my_api \<Rightarrow> my_rset \<Rightarrow> int \<Rightarrow> 64 word res" where
  "My_GetFieldTime_at A rs nField =
     number_at rs nField None (\<lambda>s. bindR (at_time s) (\<lambda>t. Inr (a_mktime A (tm_of_time t) (a_isdst A))))"

definition My_GetFieldTime where
  "My_GetFieldTime A rs sField = by_field rs sField (My_GetFieldTime_at A rs)"

text \<open>
  By name the code calls \<open>GetFieldValue(nField, pVal)\<close>. Of its overloads only the one for a pointer
  to \<open>time_t\<close> takes a pointer to \<open>int64_t\<close>, the same type.
\<close>

definition My_GetFieldInt64Value :: "('w, 'f) my_api \<Rightarrow> my_rset \<Rightarrow> string \<Rightarrow> 64 word option res" where
  "My_GetFieldInt64Value A rs sField = by_field rs sField (My_GetFieldTime_at A rs)"

section \<open>Execution\<close>

text \<open>\<open>Exec\<close>, with a result set of the same procedure or a null pointer.\<close>

definition MySQLStoredProc_Exec ::
  "('w, 'f) my_api \<Rightarrow> memory \<Rightarrow> my_proc \<Rightarrow> my_rset option \<Rightarrow> 'w \<Rightarrow> (bool \<times> my_proc \<times> my_rset option \<times> 'w) res" where
  "MySQLStoredProc_Exec A m q outRs w =
     (if \<not> sp_driver q then Inr (False, q, outRs, w)
      else with_stmt q (\<lambda>h bs.
        bindR (mapR (bound_value m (sp_values q)) bs) (\<lambda>vals.
        let (nStatus, w) = a_stmt_execute A h vals w
        in if nStatus \<noteq> 0 then Inr (False, q, outRs, w)
           else let q = q\<lparr>sp_affected := ucast (a_affected_rows A h w)\<rparr>
                in case outRs of
                     None \<Rightarrow> Inr (True, q, None, w)
                   | Some rs \<Rightarrow> bindR (MySQLResultSet_Open A q rs w) (\<lambda>(b, rs, w). Inr (b, q, Some rs, w)))))"

text \<open>
  What the loops of the driver do between two attempts. The answer of \<open>Open\<close> is not looked at.
\<close>

definition reconnect ::
  "('w, 'f) my_api \<Rightarrow> my_driver \<Rightarrow> my_proc \<Rightarrow> 'w \<Rightarrow> (my_driver \<times> my_proc \<times> 'w) res" where
  "reconnect A d q w =
     (let (q, w) = MySQLStoredProc_Close A q w; (d, w) = MySQLDriver_Close A d w; w = a_sleep A 1000 w
      in bindR (MySQLDriver_Open A d w) (\<lambda>(_, d, w). Inr (d, q, w)))"

text \<open>
  One round of the loops: the attempt and, when it fails, the reconnect. The loop is that of the stub.
\<close>

definition prepare_round ::
  "('w, 'f) my_api \<Rightarrow> string \<Rightarrow> my_driver \<times> my_proc \<times> 'w \<Rightarrow> (bool \<times> my_driver \<times> my_proc \<times> 'w) res" where
  "prepare_round A sql = (\<lambda>(d, q, w).
     bindR (MySQLStoredProc_Prepare A sql q w) (\<lambda>(b, q, w).
     if b then Inr (True, d, q, w) else bindR (reconnect A d q w) (\<lambda>s. Inr (False, s))))"

definition PrepareStoredProc ::
  "('w, 'f) my_api \<Rightarrow> string \<Rightarrow> my_driver \<Rightarrow> my_proc \<Rightarrow> 'w \<Rightarrow> (my_driver \<times> my_proc \<times> 'w) res option" where
  "PrepareStoredProc A sql d q w = retry_loop (\<lambda>s. Some (prepare_round A sql s)) (d, q, w)"

definition exec_round ::
  "('w, 'f) my_api \<Rightarrow> memory \<Rightarrow> my_rset option \<times> my_driver \<times> my_proc \<times> 'w \<Rightarrow>
    (bool \<times> my_rset option \<times> my_driver \<times> my_proc \<times> 'w) res" where
  "exec_round A m = (\<lambda>(outRs, d, q, w).
     bindR (MySQLStoredProc_Exec A m q outRs w) (\<lambda>(b, q, outRs, w).
     if b then Inr (True, outRs, d, q, w) else bindR (reconnect A d q w) (\<lambda>s. Inr (False, outRs, s))))"

definition ExecStoredProc ::
  "('w, 'f) my_api \<Rightarrow> memory \<Rightarrow> my_driver \<Rightarrow> my_proc \<Rightarrow> my_rset option \<Rightarrow> 'w \<Rightarrow>
    (my_rset option \<times> my_driver \<times> my_proc \<times> 'w) res option" where
  "ExecStoredProc A m d q outRs w = retry_loop (\<lambda>s. Some (exec_round A m s)) (outRs, d, q, w)"

end
