(* ===== verification/Mysql_Rows.thy ===== *)
theory Mysql_Rows
  imports Mysql_Result Snprintf_Properties
begin

text \<open>
  The properties of the result set of \<open>src/src/db/MySQLSession.cpp\<close>: how \<open>Open\<close> binds the columns,
  what a fetched row leaves in the slots, and what the accessors make of it.
\<close>

section \<open>Columns of a result\<close>

definition column_bind :: "(string \<times> enum_field_types) list \<Rightarrow> nat \<Rightarrow> my_rbind" where
  "column_bind cols i = \<lparr>rb_type = snd (cols ! i), rb_slot = Some i, rb_length = RS_VALUE_SIZE\<rparr>"

text \<open>A column is found by its name if no later one has the same.\<close>

definition last_named :: "(string \<times> 'a) list \<Rightarrow> nat \<Rightarrow> bool" where
  "last_named cols i \<longleftrightarrow> i < length cols \<and> (\<forall>j. i < j \<and> j < length cols \<longrightarrow> fst (cols ! j) \<noteq> fst (cols ! i))"

lemma bind_columns_eq:
  assumes "i + n \<le> length cols" "i + n \<le> length bs"
  shows "bind_columns cols i n bs fm =
    Inr (overwrite i (map (column_bind cols) [i..<i + n]) bs,
         fm ++ map_of (rev (map (\<lambda>k. (fst (cols ! k), k + 1)) [i..<i + n])))"
  using assms
proof (induction n arbitrary: i bs fm)
  case (Suc n)
  obtain name ty where col: "cols ! i = (name, ty)" by (cases "cols ! i")
  let ?b = "column_bind cols i"
  have b: "\<lparr>rb_type = ty, rb_slot = Some i, rb_length = RS_VALUE_SIZE\<rparr> = ?b"
    using col by (simp add: column_bind_def)
  have upt: "[i..<i + Suc n] = i # [Suc i..<Suc i + n]" by (simp add: upt_rec)
  have "bind_columns cols i (Suc n) bs fm = bind_columns cols (Suc i) n (bs[i := ?b]) (fm(name \<mapsto> i + 1))"
    using Suc.prems col b by simp
  also have "\<dots> = Inr (overwrite (Suc i) (map (column_bind cols) [Suc i..<Suc i + n]) (bs[i := ?b]),
         fm(name \<mapsto> i + 1) ++ map_of (rev (map (\<lambda>k. (fst (cols ! k), k + 1)) [Suc i..<Suc i + n])))"
    by (rule Suc.IH) (use Suc.prems in simp_all)
  also have "overwrite (Suc i) (map (column_bind cols) [Suc i..<Suc i + n]) (bs[i := ?b]) =
      overwrite i (map (column_bind cols) [i..<i + Suc n]) bs"
  proof -
    have "bs[i := ?b] = overwrite i [?b] bs"
      using Suc.prems by (simp add: overwrite_def upd_conv_take_nth_drop)
    then show ?thesis
      unfolding upt using overwrite_overwrite [of i "[?b]" bs "map (column_bind cols) [Suc i..<Suc i + n]"] Suc.prems
      by simp
  qed
  also have "fm(name \<mapsto> i + 1) ++ map_of (rev (map (\<lambda>k. (fst (cols ! k), k + 1)) [Suc i..<Suc i + n])) =
      fm ++ map_of (rev (map (\<lambda>k. (fst (cols ! k), k + 1)) [i..<i + Suc n]))"
    unfolding upt using col by (simp add: map_add_def fun_eq_iff split: option.split)
  finally show ?case .
qed simp

lemma map_of_last:
  assumes "last_named cols i"
  shows "map_of (rev (map (\<lambda>k. (fst (cols ! k), k + 1)) [0..<length cols])) (fst (cols ! i)) = Some (i + 1)"
proof -
  let ?f = "\<lambda>k. (fst (cols ! k), k + 1)"
  have "[0..<length cols] = [0..<i] @ i # [Suc i..<length cols]"
    using assms upt_add_eq_append [of 0 i "length cols - i"] upt_conv_Cons [of i "length cols"]
    by (simp add: last_named_def)
  moreover have "map_of (rev (map ?f [Suc i..<length cols])) (fst (cols ! i)) = None"
  proof -
    have "fst (cols ! i) \<noteq> fst (cols ! j)" if "j \<in> {Suc i..<length cols}" for j
      using assms that by (auto simp: last_named_def dest!: spec [of _ j])
    then show ?thesis by (force simp: map_of_eq_None_iff)
  qed
  ultimately show ?thesis by (simp add: map_add_def)
qed

text \<open>
  The state of a result set that is opened for the columns: every column has its slot, and every
  name the number of its last column.
\<close>

definition rs_ok :: "(string \<times> enum_field_types) list \<Rightarrow> my_rset \<Rightarrow> bool" where
  "rs_ok cols rs \<longleftrightarrow>
     length cols \<le> MAX_COLUMN_NUM \<and> length (mr_values rs) = MAX_COLUMN_NUM \<and>
     (\<forall>v\<in>set (mr_values rs). length (v_chVal v) = RS_VALUE_SIZE) \<and>
     mr_bound rs = map (column_bind cols) [0..<length cols] \<and>
     length (mr_binds rs) = MAX_COLUMN_NUM \<and> take (length cols) (mr_binds rs) = mr_bound rs \<and>
     mr_fieldMap rs = map_of (rev (map (\<lambda>k. (fst (cols ! k), k + 1)) [0..<length cols]))"

lemma rs_ok_type: "rs_ok cols rs \<Longrightarrow> i < length cols \<Longrightarrow> rb_type (mr_binds rs ! i) = snd (cols ! i)"
proof -
  assume "rs_ok cols rs" "i < length cols"
  then have "mr_binds rs ! i = column_bind cols i"
    using nth_take [of i "length cols" "mr_binds rs"] by (simp add: rs_ok_def)
  then show ?thesis by (simp add: column_bind_def)
qed

lemma rs_ok_name: "rs_ok cols rs \<Longrightarrow> last_named cols i \<Longrightarrow> mr_fieldMap rs (fst (cols ! i)) = Some (i + 1)"
  using map_of_last by (simp add: rs_ok_def)

text \<open>The library in the state \<open>w\<close>: it has a result with the columns and stores its rows.\<close>

definition has_result ::
  "('w, 'f) my_api \<Rightarrow> nat \<Rightarrow> (string \<times> enum_field_types) list \<Rightarrow> 'w \<Rightarrow> nat \<Rightarrow> 'w \<Rightarrow> bool" where
  "has_result A h cols w r w' \<longleftrightarrow>
     a_field_count A h w = length cols \<and> cols \<noteq> [] \<and>
     (\<exists>w1 w2. a_result_metadata A h w = (Some (r, cols), w1) \<and>
        (\<forall>bs. length bs = length cols \<longrightarrow> a_bind_result A h bs w1 = (0, w2)) \<and> a_store_result A h w2 = (0, w'))"

text \<open>C17. \<open>Open\<close> of a result with up to 64 columns binds every column to its own slot of 4096 bytes and
  maps every name to the last column that has it; with more columns it fails its assertion.\<close>

theorem MySQLResultSet_Open_binds:
  assumes "sp_stmt q = Some (h, bs)" "has_result A h cols w r w'"
  shows "if length cols \<le> MAX_COLUMN_NUM
    then \<exists>rs'. MySQLResultSet_Open A q rs w = Inr (True, rs', w') \<and> rs_ok cols rs' \<and> mr_opened rs' \<and>
      mr_numFields rs' = length cols \<and> mr_resMetadata rs' = Some r \<and> mr_curRowIdx rs' = 0
    else MySQLResultSet_Open A q rs w = Inl Assertion_Failed"
proof (cases "length cols \<le> MAX_COLUMN_NUM")
  case True
  let ?bs = "overwrite 0 (map (column_bind cols) [0..<length cols]) (replicate MAX_COLUMN_NUM zero_bind)"
  have take_bs: "take (length cols) ?bs = map (column_bind cols) [0..<length cols]" and len: "length ?bs = MAX_COLUMN_NUM"
    using True by (simp_all add: overwrite_def)
  obtain w1 w2 where w: "a_field_count A h w = length cols" "cols \<noteq> []" "a_result_metadata A h w = (Some (r, cols), w1)"
    "a_bind_result A h (take (length cols) ?bs) w1 = (0, w2)" "a_store_result A h w2 = (0, w')"
    using assms(2) True len unfolding has_result_def by auto
  note bind = bind_columns_eq [of 0 "length cols" cols "replicate MAX_COLUMN_NUM zero_bind" Map.empty]
  show ?thesis
    using True assms(1) w bind take_bs len
    by (simp add: MySQLResultSet_Open_def with_stmt_def Let_def rs_ok_def zero_value_def)
next
  case False
  then show ?thesis using assms
    by (simp add: MySQLResultSet_Open_def with_stmt_def Let_def has_result_def)
qed

section \<open>Rows\<close>

text \<open>What a slot holds when a value has been stored over the old content.\<close>

definition stored :: "string option \<Rightarrow> my_rs_value \<Rightarrow> my_rs_value" where
  "stored cell v =
     (case cell of
        None \<Rightarrow> v\<lparr>v_isNull := True\<rparr>
      | Some s \<Rightarrow> \<lparr>v_chVal = overwrite 0 (take RS_VALUE_SIZE s) (v_chVal v), v_nLen = of_nat (length s), v_isNull = False\<rparr>)"

lemma store_cells_from:
  assumes "i + length cells \<le> length vs"
  shows "fold (\<lambda>(b, c). store_cell b c) (zip (map (column_bind cols) [i..<i + length cells]) cells) vs =
    take i vs @ map2 stored cells (take (length cells) (drop i vs)) @ drop (i + length cells) vs"
  using assms
proof (induction cells arbitrary: i vs)
  case (Cons c cells)
  have upt: "[i..<i + length (c # cells)] = i # [Suc i..<Suc i + length cells]" by (simp add: upt_rec)
  let ?vs = "vs[i := stored c (vs ! i)]"
  have "store_cell (column_bind cols i) c vs = ?vs"
    by (simp add: store_cell_def column_bind_def stored_def split: option.split)
  then have "fold (\<lambda>(b, c). store_cell b c) (zip (map (column_bind cols) [i..<i + length (c # cells)]) (c # cells)) vs =
      take (Suc i) ?vs @ map2 stored cells (take (length cells) (drop (Suc i) ?vs)) @ drop (Suc i + length cells) ?vs"
    unfolding upt using Cons.IH [of "Suc i" ?vs] Cons.prems by simp
  moreover have "take (Suc i) ?vs = take i vs @ [stored c (vs ! i)]" "drop (Suc i) ?vs = drop (Suc i) vs"
      "drop (Suc i + length cells) ?vs = drop (Suc i + length cells) vs" "drop i vs = vs ! i # drop (Suc i) vs"
    using Cons.prems by (simp_all add: take_Suc_conv_app_nth Cons_nth_drop_Suc)
  ultimately show ?case by simp
qed simp

lemma stored_length [simp]: "length (v_chVal v) = RS_VALUE_SIZE \<Longrightarrow> length (v_chVal (stored c v)) = RS_VALUE_SIZE"
  by (simp add: stored_def split: option.split)

lemma MoveNext_row:
  assumes "rs_ok cols rs" "sp_stmt q = Some (h, bs)" "a_fetch A h w = ((nStatus, cells), w')" "length cells = length cols"
  shows "\<exists>rs'. MySQLResultSet_MoveNext A q rs w = Inr (nStatus = 0, rs', w') \<and> rs_ok cols rs' \<and>
    (\<forall>i<length cols. mr_values rs' ! i = stored (cells ! i) (mr_values rs ! i))"
proof -
  let ?n = "length cols" and ?vs = "mr_values rs"
  have len: "?n \<le> length ?vs" using assms(1) by (simp add: rs_ok_def)
  have store: "store_cells (mr_bound rs) cells ?vs = map2 stored cells (take ?n ?vs) @ drop ?n ?vs"
    using assms(1,4) store_cells_from [of 0 cells ?vs cols] len by (simp add: rs_ok_def store_cells_def)
  let ?vs' = "map2 stored cells (take ?n ?vs) @ drop ?n ?vs"
  have "length (v_chVal v) = RS_VALUE_SIZE" if "v \<in> set ?vs'" for v
    using that assms(1) by (auto simp: rs_ok_def dest!: set_zip_rightD in_set_takeD in_set_dropD)
  then have ok: "rs_ok cols (rs\<lparr>mr_values := ?vs', mr_curRowIdx := k\<rparr>)" "rs_ok cols (rs\<lparr>mr_values := ?vs'\<rparr>)" for k
    using assms(1,4) len by (simp_all add: rs_ok_def min_def)
  have "?vs' ! i = stored (cells ! i) (?vs ! i)" if "i < ?n" for i
    using that assms(4) len by (simp add: nth_append)
  then show ?thesis using ok assms(2,3) store
    by (cases "nStatus = 0") (simp_all add: MySQLResultSet_MoveNext_def with_stmt_def Let_def)
qed

section \<open>Texts\<close>

text \<open>What the string accessor answers for a value: nothing for a NULL and for a value that does not
  fit into the slot, else the bytes before the first NUL.\<close>

definition string_value :: "string option \<Rightarrow> string" where
  "string_value cell = (case cell of None \<Rightarrow> [] | Some s \<Rightarrow> if length s < RS_VALUE_SIZE then c_str s else [])"

lemma c_str_terminated: "c_str (s @ NUL # r) = c_str s"
  by (induction s) (simp_all add: c_str_def)

lemma rs_value_last:
  assumes "rs_ok cols rs" "i < length cols"
  shows "rs_value rs (int (i + 1)) = Inr (mr_values rs ! i)" "rs_type rs (int (i + 1)) = Inr (snd (cols ! i))"
  using assms rs_ok_type [OF assms] by (simp_all add: rs_value_def rs_type_def rdi_def rs_ok_def)

lemma GetFieldString_stored:
  assumes "rs_ok cols rs" "last_named cols i" "snd (cols ! i) \<noteq> MYSQL_TYPE_DATETIME"
    "mr_values rs ! i = stored cell v" "length (v_chVal v) = RS_VALUE_SIZE" "\<forall>s. cell = Some s \<longrightarrow> length s < 2 ^ 32"
  shows "\<exists>rs'. My_GetFieldString A rs (fst (cols ! i)) = Inr (Some (string_value cell, rs')) \<and> rs_ok cols rs'"
proof -
  have lt: "i < length cols" using assms(2) by (simp add: last_named_def)
  note val = rs_value_last [OF assms(1) lt] and name = rs_ok_name [OF assms(1,2)]
  show ?thesis
  proof (cases cell)
    case None
    then show ?thesis using val name assms(1,4)
      by (simp add: My_GetFieldString_def by_field_def My_GetFieldString_at_def stored_def string_value_def)
  next
    case (Some s)
    have len: "unat (of_nat (length s) :: 32 word) = length s" using assms(6) Some by (simp add: unat_of_nat)
    show ?thesis
    proof (cases "length s < RS_VALUE_SIZE")
      case True
      let ?c = "overwrite 0 s (v_chVal v)"
      have c: "?c = s @ drop (length s) (v_chVal v)" "length ?c = RS_VALUE_SIZE"
        using True assms(5) by (simp_all add: overwrite_def)
      then have "?c[length s := NUL] = s @ NUL # drop (Suc (length s)) (v_chVal v)"
        using True assms(5) by (simp add: list_update_append Cons_nth_drop_Suc [symmetric])
      then have str: "c_str (?c[length s := NUL]) = c_str s" by (simp add: c_str_terminated)
      let ?rs = "rs\<lparr>mr_values := (mr_values rs)[i := \<lparr>v_chVal = ?c[length s := NUL], v_nLen = of_nat (length s), v_isNull = False\<rparr>]\<rparr>"
      have "rs_ok cols ?rs"
        using assms(1) c(2) by (auto simp: rs_ok_def dest!: set_update_subset_insert [THEN subsetD])
      moreover have "My_GetFieldString A rs (fst (cols ! i)) = Inr (Some (c_str s, ?rs))"
        using Some True val name assms(3,4) len c(2) str
        by (simp add: My_GetFieldString_def by_field_def My_GetFieldString_at_def stored_def)
      ultimately show ?thesis using Some True by (simp add: string_value_def)
    next
      case False
      then show ?thesis using Some val name assms(1,3,4) len
        by (simp add: My_GetFieldString_def by_field_def My_GetFieldString_at_def stored_def string_value_def)
    qed
  qed
qed

text \<open>C15. After a row is fetched, the string accessor by the name of a column, other than a date, gives
  the value of the last column with that name: up to its first NUL, nothing for a NULL, and also
  nothing for a value of 4096 bytes or more. The slots stay usable for the next row.\<close>

theorem GetFieldString_fetched:
  assumes "rs_ok cols rs" "sp_stmt q = Some (h, bs)" "a_fetch A h w = ((0, cells), w')" "length cells = length cols"
    "last_named cols i" "snd (cols ! i) \<noteq> MYSQL_TYPE_DATETIME" "\<forall>s. cells ! i = Some s \<longrightarrow> length s < 2 ^ 32"
  shows "\<exists>rs1 rs2. MySQLResultSet_MoveNext A q rs w = Inr (True, rs1, w') \<and>
    My_GetFieldString A rs1 (fst (cols ! i)) = Inr (Some (string_value (cells ! i), rs2)) \<and> rs_ok cols rs2"
proof -
  have lt: "i < length cols" using assms(5) by (simp add: last_named_def)
  obtain rs1 where rs1: "MySQLResultSet_MoveNext A q rs w = Inr (True, rs1, w')" "rs_ok cols rs1"
    "mr_values rs1 ! i = stored (cells ! i) (mr_values rs ! i)"
    using MoveNext_row [OF assms(1-4)] lt by auto
  have "length (v_chVal (mr_values rs ! i)) = RS_VALUE_SIZE" using assms(1) lt by (simp add: rs_ok_def)
  then show ?thesis using GetFieldString_stored [OF rs1(2) assms(5,6) rs1(3) _ assms(7)] rs1(1) by auto
qed

section \<open>Dates\<close>

text \<open>The bytes of a 32 bit number, least significant first, and those of a \<open>MYSQL_TIME\<close>.\<close>

definition word_bytes :: "32 word \<Rightarrow> string" where
  "word_bytes w = map (\<lambda>k. char_of (unat w div 256 ^ k)) [0..<4]"

definition time_bytes :: "my_time \<Rightarrow> string" where
  "time_bytes t = concat (map word_bytes [t_year t, t_month t, t_day t, t_hour t, t_minute t, t_second t])"

lemma word_bytes_list:
  "word_bytes w = [char_of (unat w), char_of (unat w div 256), char_of (unat w div 65536), char_of (unat w div 16777216)]"
proof -
  have "[0..<4] = [0, 1, 2, 3 :: nat]" by code_simp
  then show ?thesis by (simp add: word_bytes_def)
qed

lemma length_word_bytes [simp]: "length (word_bytes w) = 4"
  by (simp add: word_bytes_def)

lemma unat_of_char: "unat (of_char c :: 8 word) = of_char c"
  by (simp add: of_char_def)

lemma bytes_of_number:
  fixes n :: nat
  assumes "n < 2 ^ 32"
  shows "n mod 256 + 256 * (n div 256 mod 256 + 256 * (n div 65536 mod 256 + 256 * (n div 16777216 mod 256))) = n"
proof -
  have "n div 65536 = n div 256 div 256" "n div 16777216 = n div 256 div 256 div 256"
    by (simp_all add: div_mult2_eq [symmetric])
  moreover have "n div 256 div 256 div 256 mod 256 = n div 256 div 256 div 256"
    using assms by (intro mod_less) (simp add: div_mult2_eq [symmetric] less_mult_imp_div_less)
  ultimately show ?thesis by simp
qed

lemma at32_word_bytes: "at32 (p @ word_bytes w @ r) (length p) = Inr w"
proof -
  let ?n = "unat w"
  let ?b = "\<lambda>k. of_char (char_of (?n div k)) :: 8 word"
  have at: "at32 (p @ word_bytes w @ r) (length p) = read32_le (?b 1 # ?b 256 # ?b 65536 # ?b 16777216 # map of_char r)"
    by (simp add: at32_def word_bytes_list)
  obtain x where x: "at32 (p @ word_bytes w @ r) (length p) = Inr x"
    unfolding at by (simp add: read32_le_def read16_le_def)
  have "unat x = le_value [?b 1, ?b 256, ?b 65536, ?b 16777216]"
    using x unfolding at by (rule read32_le_value)
  also have "\<dots> = ?n mod 256 + 256 * (?n div 256 mod 256 + 256 * (?n div 65536 mod 256 + 256 * (?n div 16777216 mod 256)))"
    by (simp add: le_value_def unat_of_char)
  also have "\<dots> = ?n" using unsigned_less [of w, where 'a = nat] by (intro bytes_of_number) simp
  finally have "x = w" by (rule unsigned_word_eqI [where 'a = nat])
  then show ?thesis using x by simp
qed

lemma at_time_bytes: "at_time (time_bytes t @ r) = Inr t"
proof -
  let ?w = "\<lambda>f. word_bytes (f t)"
  note at = at32_word_bytes [of "[]" "t_year t"] at32_word_bytes [of "?w t_year" "t_month t"]
    at32_word_bytes [of "?w t_year @ ?w t_month" "t_day t"]
    at32_word_bytes [of "?w t_year @ ?w t_month @ ?w t_day" "t_hour t"]
    at32_word_bytes [of "?w t_year @ ?w t_month @ ?w t_day @ ?w t_hour" "t_minute t"]
    at32_word_bytes [of "?w t_year @ ?w t_month @ ?w t_day @ ?w t_hour @ ?w t_minute" "t_second t"]
  show ?thesis by (cases t) (use at in \<open>simp add: at_time_def time_bytes_def\<close>)
qed

text \<open>A number with zeros in front up to a width, and the text of a time.\<close>

definition zpad :: "nat \<Rightarrow> 32 word \<Rightarrow> string" where
  "zpad k w = replicate (k - length (dec (unat w))) CHR ''0'' @ dec (unat w)"

definition datetime_text :: "my_time \<Rightarrow> string" where
  "datetime_text t =
     zpad 4 (t_year t) @ ''-'' @ zpad 2 (t_month t) @ ''-'' @ zpad 2 (t_day t) @ '' '' @
     zpad 2 (t_hour t) @ '':'' @ zpad 2 (t_minute t) @ '':'' @ zpad 2 (t_second t)"

text \<open>The fields are not negative as an \<open>int\<close>.\<close>

definition time_ok :: "my_time \<Rightarrow> bool" where
  "time_ok t \<longleftrightarrow> list_all (\<lambda>w. 0 \<le> sint w) [t_year t, t_month t, t_day t, t_hour t, t_minute t, t_second t]"

definition zfield :: "nat \<Rightarrow> 32 word \<Rightarrow> field" where
  "zfield k w = \<lparr>f_flags = ''0'', f_width = Some k, f_prec = None, f_mod = PRINT_C_NONE, f_conv = CHR ''d'', f_arg = A_Int w\<rparr>"

lemma flags_zero: "flags_word ''0'' = PRINT_F_ZERO"
  by (simp add: flags_word_def flag_of_def)

lemma has_zero:
  "has PRINT_F_ZERO PRINT_F_ZERO" "\<not> has PRINT_F_ZERO PRINT_F_MINUS" "\<not> has PRINT_F_ZERO PRINT_F_PLUS"
  "\<not> has PRINT_F_ZERO PRINT_F_SPACE" "\<not> has PRINT_F_ZERO PRINT_F_UP" "\<not> has PRINT_F_ZERO PRINT_F_NUM"
  "\<not> has PRINT_F_ZERO PRINT_F_QUOTE" "\<not> has PRINT_F_ZERO PRINT_F_UNSIGNED"
  by (simp_all add: has_def print_flag_defs)

lemma sint_scast: "sint (scast (w :: 32 word) :: 64 word) = sint w"
  by (rule sint_up_scast) (simp add: is_up)

lemma zfield_text:
  assumes "0 \<le> sint w"
  shows "field_text (zfield k w) = zpad k w"
proof -
  let ?v = "scast w :: 64 word"
  have v: "0 \<le> sint ?v" "unat ?v = unat w"
    using assms nat_sint [of ?v] nat_sint [of w] by (simp_all add: sint_scast)
  have "field_text (zfield k w) = fmtint_text (unat w) None 10 (int k) (- 1) PRINT_F_ZERO"
    using v by (simp add: field_text_def zfield_def field_int_def fmtint_sign_def has_zero flags_zero conv_base_def
      field_width_def field_prec_def Let_def)
  then show ?thesis
    by (simp add: fmtint_text_def fmtint_parts has_zero zpad_def dec_def Let_def)
qed

lemma length_dec: "length (dec (unat (w :: 32 word))) \<le> 22"
proof -
  have "unat w < 2 ^ 64" using unsigned_less [of w, where 'a = nat] by simp
  then show ?thesis unfolding dec_def by (intro length_numeral_text_64) simp
qed

lemma cvalid_dec: "cvalid (dec n)"
  using dec_digits(1) [of n] by (auto simp: cvalid_def list_all_iff isdigit_def)

lemma zpad_props: "cvalid (zpad k w)" "length (zpad k w) \<le> k + 22"
  using cvalid_dec [of "unat w"] length_dec [of w] by (auto simp: zpad_def cvalid_def)

lemma zfield_ok:
  assumes "0 \<le> sint w" "k \<in> {2, 4}"
  shows "conversion_ok (zfield k w)"
  using assms
  by (auto simp: conversion_ok_def zfield_def field_int_def flags_zero fmtint_sign_def has_zero sint_scast)

lemma zfield_format:
  "field_format (zfield 4 w) = ''%04d''" "field_format (zfield 2 w) = ''%02d''"
  by (simp_all add: field_format_def zfield_def width_text_def prec_text_def dec_small digit_def)

definition datetime_pieces :: "my_time \<Rightarrow> piece list" where
  "datetime_pieces t =
     [Conversion (zfield 4 (t_year t)), Lit CHR ''-'', Conversion (zfield 2 (t_month t)), Lit CHR ''-'',
      Conversion (zfield 2 (t_day t)), Lit CHR '' '', Conversion (zfield 2 (t_hour t)), Lit CHR '':'',
      Conversion (zfield 2 (t_minute t)), Lit CHR '':'', Conversion (zfield 2 (t_second t))]"

lemma datetime_pieces_props:
  assumes "time_ok t"
  shows "list_all piece_ok (datetime_pieces t)" "pieces_format (datetime_pieces t) = datetime_format"
    "(pieces_args (datetime_pieces t) :: 'f vararg list) = map VInt [t_year t, t_month t, t_day t, t_hour t, t_minute t, t_second t]"
    "pieces_text (datetime_pieces t) = datetime_text t"
  using assms
  by (simp_all add: datetime_pieces_def time_ok_def zfield_ok zfield_format zfield_text datetime_format_def datetime_text_def)
    (simp_all add: zfield_def)

lemma datetime_text_props: "cvalid (datetime_text t)" "length (datetime_text t) \<le> 151"
  using zpad_props(2) [of 4 "t_year t"] zpad_props(2) [of 2 "t_month t"] zpad_props(2) [of 2 "t_day t"]
    zpad_props(2) [of 2 "t_hour t"] zpad_props(2) [of 2 "t_minute t"] zpad_props(2) [of 2 "t_second t"]
  by (simp_all add: datetime_text_def zpad_props(1))

lemma datetime_string_eq:
  fixes A :: "('w, 'f) my_api"
  assumes "time_ok t" "length (a_scratch A) = 32" "length (a_chTime A) = 256"
  shows "datetime_string A t = Inr (datetime_text t)"
proof -
  note ps = datetime_pieces_props [OF assms(1)] and args = datetime_pieces_props(3) [where 'f = 'f, OF assms(1)] and tx = datetime_text_props [of t]
  have ne: "a_chTime A \<noteq> []" using assms(3) by auto
  obtain r p where p: "o_snprintf (a_fops A) (Some (a_chTime A)) (a_scratch A) (cstr datetime_format)
      (map VInt [t_year t, t_month t, t_day t, t_hour t, t_minute t, t_second t]) = Inr (r, p)"
    "shows_text (datetime_text t) (a_chTime A) r (p_out p)"
    using o_snprintf_pieces [OF ps(1) ne assms(2), of "a_fops A" "[]" "[]"] ps(2,4) args tx(2)
    by (auto simp: INT_MAX_def)
  show ?thesis
    using p(1) shows_text_c_str [OF p(2) tx(1) ne] assms(3) tx(2) by (simp add: datetime_string_def)
qed

text \<open>A \<open>DATETIME\<close> column whose slot got the time \<open>t\<close> is answered as the text
  \<open>YYYY-MM-DD hh:mm:ss\<close>, every number with zeros in front up to its width, and longer where it is greater.\<close>

theorem GetFieldString_datetime:
  assumes "rs_ok cols rs" "sp_stmt q = Some (h, bs)" "a_fetch A h w = ((0, cells), w')" "length cells = length cols"
    "last_named cols i" "snd (cols ! i) = MYSQL_TYPE_DATETIME" "cells ! i = Some (time_bytes t @ r)" "time_ok t"
    "length (a_scratch A) = 32" "length (a_chTime A) = 256"
  shows "\<exists>rs1. MySQLResultSet_MoveNext A q rs w = Inr (True, rs1, w') \<and>
    My_GetFieldString A rs1 (fst (cols ! i)) = Inr (Some (datetime_text t, rs1))"
proof -
  have lt: "i < length cols" using assms(5) by (simp add: last_named_def)
  obtain rs1 where rs1: "MySQLResultSet_MoveNext A q rs w = Inr (True, rs1, w')" "rs_ok cols rs1"
    "mr_values rs1 ! i = stored (cells ! i) (mr_values rs ! i)"
    using MoveNext_row [OF assms(1-4)] lt by auto
  have "length (time_bytes t) = 24" by (simp add: time_bytes_def)
  then have "take RS_VALUE_SIZE (time_bytes t @ r) = time_bytes t @ take (RS_VALUE_SIZE - 24) r"
    by (simp add: RS_VALUE_SIZE_def)
  then have "at_time (v_chVal (mr_values rs1 ! i)) = Inr t"
    using assms(7) rs1(3) at_time_bytes by (simp add: stored_def overwrite_def)
  then show ?thesis
    using rs1 rs_value_last [OF rs1(2) lt] rs_ok_name [OF rs1(2) assms(5)] assms(6,7)
      datetime_string_eq [OF assms(8-10)]
    by (auto simp: My_GetFieldString_def by_field_def My_GetFieldString_at_def stored_def)
qed

section \<open>Numbers and times\<close>

lemma at32_here: "at32 (word_bytes w @ r) 0 = Inr w"
  using at32_word_bytes [of "[]" w r] by simp

text \<open>The bytes of a 64 bit number.\<close>

definition long_bytes :: "64 word \<Rightarrow> string" where
  "long_bytes x = word_bytes (ucast x) @ word_bytes (ucast (drop_bit 32 x))"

lemma long_halves: "ucast (ucast x :: 32 word) + push_bit 32 (ucast (ucast (drop_bit 32 x) :: 32 word)) = (x :: 64 word)"
proof -
  let ?n = "unat x"
  have n: "?n < 2 ^ 64" using unsigned_less [of x, where 'a = nat] by simp
  have lo: "unat (ucast (ucast x :: 32 word) :: 64 word) = ?n mod 2 ^ 32"
    by (simp add: unsigned_ucast_eq take_bit_eq_mod unat_mod_distrib)
  have "unat (drop_bit 32 x) = ?n div 2 ^ 32" by (simp add: unsigned_drop_bit_eq drop_bit_eq_div take_bit_eq_mod unat_div_distrib)
  then have hi: "unat (ucast (ucast (drop_bit 32 x) :: 32 word) :: 64 word) = ?n div 2 ^ 32"
    using n by (simp add: unsigned_ucast_eq take_bit_eq_mod unat_mod_distrib mod_less less_mult_imp_div_less)
  have "unat (ucast (ucast x :: 32 word) + push_bit 32 (ucast (ucast (drop_bit 32 x) :: 32 word)) :: 64 word) = ?n"
    using n lo hi by (simp add: push_bit_eq_mult unat_word_ariths)
  then show ?thesis by (rule unsigned_word_eqI [where 'a = nat])
qed

lemma at64_here: "at64 (long_bytes x @ r) 0 = Inr x"
proof -
  have "at32 (long_bytes x @ r) 0 = Inr (ucast x)" "at32 (long_bytes x @ r) 4 = Inr (ucast (drop_bit 32 x))"
    using at32_here [of "ucast x"] at32_word_bytes [of "word_bytes (ucast x)" "ucast (drop_bit 32 x)" r]
    by (simp_all add: long_bytes_def)
  then show ?thesis by (simp add: at64_def long_halves)
qed

lemma number_at_stored:
  assumes "rs_ok cols rs" "i < length cols" "mr_values rs ! i = stored (Some s) v" "ty = None \<or> ty = Some (snd (cols ! i))"
  shows "number_at rs (int (i + 1)) ty ld = ld (overwrite 0 (take RS_VALUE_SIZE s) (v_chVal v))"
  using assms(3,4) rs_value_last [OF assms(1,2)] by (auto simp: number_at_def stored_def)

text \<open>C18. After the first row of a result, a \<open>BIGINT\<close> column with the value \<open>x\<close> gives \<open>x\<close> through
  \<open>GetFieldInt64Value\<close> with its number. With its name the accessor takes the overload for times and
  gives \<open>mktime\<close> of a date whose year and month are the halves of \<open>x\<close>.\<close>

theorem GetFieldInt64Value_by_name:
  assumes "rs_ok cols rs" "sp_stmt q = Some (h, bs)" "a_fetch A h w = ((0, cells), w')" "length cells = length cols"
    "last_named cols i" "snd (cols ! i) = MYSQL_TYPE_LONGLONG" "cells ! i = Some (long_bytes x)"
    "mr_values rs ! i = zero_value"
  shows "\<exists>rs1. MySQLResultSet_MoveNext A q rs w = Inr (True, rs1, w') \<and>
    My_GetFieldInt64Value_at rs1 (int (i + 1)) = Inr x \<and>
    My_GetFieldInt64Value A rs1 (fst (cols ! i)) =
      Inr (Some (a_mktime A \<lparr>tm_year = sint (ucast x - 1900 :: 32 word), tm_mon = sint (ucast (drop_bit 32 x) - 1 :: 32 word),
        tm_mday = 0, tm_hour = 0, tm_min = 0, tm_sec = 0\<rparr> (a_isdst A)))"
proof -
  have lt: "i < length cols" using assms(5) by (simp add: last_named_def)
  obtain rs1 where rs1: "MySQLResultSet_MoveNext A q rs w = Inr (True, rs1, w')" "rs_ok cols rs1"
    "mr_values rs1 ! i = stored (Some (long_bytes x)) zero_value"
    using MoveNext_row [OF assms(1-4)] lt assms(7,8) by auto
  note num = number_at_stored [OF rs1(2) lt rs1(3)]
  let ?t = "\<lparr>t_year = ucast x, t_month = ucast (drop_bit 32 x), t_day = 0, t_hour = 0, t_minute = 0, t_second = 0\<rparr>"
  have "char_of (0 :: nat) = NUL" by (simp add: char_of_def)
  then have zero: "word_bytes 0 = [NUL, NUL, NUL, NUL]" by (simp add: word_bytes_list)
  let ?z = "\<lambda>n. replicate (RS_VALUE_SIZE - n) NUL"
  have size: "24 \<le> RS_VALUE_SIZE" by (simp add: RS_VALUE_SIZE_def)
  have len: "length (long_bytes x) = 8" by (simp add: long_bytes_def)
  then have slot: "overwrite 0 (take RS_VALUE_SIZE (long_bytes x)) (v_chVal zero_value) = long_bytes x @ ?z 8"
    using size by (simp add: overwrite_def zero_value_def)
  have "?z 8 = replicate 16 NUL @ ?z 24"
    using replicate_add [of 16 "RS_VALUE_SIZE - 24" NUL] size by simp
  moreover have "word_bytes 0 @ word_bytes 0 @ word_bytes 0 @ word_bytes 0 = replicate 16 NUL"
    by (simp add: zero numeral_eq_Suc)
  ultimately have "long_bytes x @ ?z 8 = time_bytes ?t @ ?z 24"
    by (simp only: time_bytes_def long_bytes_def list.map concat.simps my_time.simps append_assoc append_Nil append_Nil2)
  then have "at_time (long_bytes x @ ?z 8) = Inr ?t" by (simp only: at_time_bytes)
  then have "My_GetFieldTime_at A rs1 (int (i + 1)) = Inr (a_mktime A (tm_of_time ?t) (a_isdst A))"
    using num [of None "\<lambda>s. bindR (at_time s) (\<lambda>t. Inr (a_mktime A (tm_of_time t) (a_isdst A)))"] slot
    by (simp add: My_GetFieldTime_at_def)
  moreover have "My_GetFieldInt64Value_at rs1 (int (i + 1)) = Inr x"
    using num [of "Some MYSQL_TYPE_LONGLONG" "\<lambda>s. at64 s 0"] slot assms(6)
    by (simp add: My_GetFieldInt64Value_at_def at64_here)
  ultimately show ?thesis
    using rs1(1) rs_ok_name [OF rs1(2) assms(5)]
    by (auto simp: My_GetFieldInt64Value_def by_field_def tm_of_time_def)
qed

text \<open>The fields of a \<open>struct tm\<close> are values of type \<open>int\<close>, the year and the month with room for the origin.\<close>

definition tm_ok :: "tm \<Rightarrow> bool" where
  "tm_ok tp \<longleftrightarrow>
     list_all (\<lambda>x. - INT_MAX - 1 \<le> x \<and> x \<le> INT_MAX)
       [tm_year tp, tm_year tp + 1900, tm_mon tp, tm_mon tp + 1, tm_mday tp, tm_hour tp, tm_min tp, tm_sec tp]"

lemma sint_of_int: "- INT_MAX - 1 \<le> x \<Longrightarrow> x \<le> INT_MAX \<Longrightarrow> sint (word_of_int x :: 32 word) = x"
  by (simp add: INT_MAX_def int_word_sint)

lemma tm_roundtrip:
  assumes "tm_ok tp"
  shows "\<exists>t. time_of_tm tp = Inr t \<and> tm_of_time t = tp"
proof -
  have year: "(word_of_int (tm_year tp + 1900) - 1900 :: 32 word) = word_of_int (tm_year tp)"
    and mon: "(word_of_int (tm_mon tp + 1) - 1 :: 32 word) = word_of_int (tm_mon tp)"
    by (simp_all add: wi_hom_syms)
  show ?thesis
    using assms by (cases tp) (simp add: tm_ok_def time_of_tm_def tm_of_time_def int32_def year mon sint_of_int)
qed

text \<open>C16. A time that is added as a parameter, and whose \<open>MYSQL_TIME\<close> comes back in a row, is converted
  from the same broken-down time that \<open>localtime\<close> gave for it; only \<open>tm_isdst\<close> is lost, the accessor
  does not set it.\<close>

theorem GetFieldTime_roundtrip:
  assumes "a_localtime A t = Some tp" "tm_ok tp" "sp_index p < MAX_COLUMN_NUM" "length (sp_values p) = MAX_COLUMN_NUM"
    "AddInputParameter_time A t p = Inr p'" "rs_ok cols rs" "sp_stmt q = Some (h, bs)" "a_fetch A h w = ((0, cells), w')"
    "length cells = length cols" "last_named cols i" "cells ! i = Some (time_bytes (tmVal (sp_values p' ! sp_index p)) @ r)"
  shows "\<exists>rs1. MySQLResultSet_MoveNext A q rs w = Inr (True, rs1, w') \<and>
    My_GetFieldTime A rs1 (fst (cols ! i)) = Inr (Some (a_mktime A tp (a_isdst A)))"
proof -
  have lt: "i < length cols" using assms(10) by (simp add: last_named_def)
  obtain x where x: "time_of_tm tp = Inr x" "tm_of_time x = tp" using tm_roundtrip [OF assms(2)] by auto
  have "tmVal (sp_values p' ! sp_index p) = x"
    using assms(1,3-5) x(1) by (auto simp: AddInputParameter_time_def take_slot_def set_bind_def put_value_def)
  then obtain rs1 where rs1: "MySQLResultSet_MoveNext A q rs w = Inr (True, rs1, w')" "rs_ok cols rs1"
    "mr_values rs1 ! i = stored (Some (time_bytes x @ r)) (mr_values rs ! i)"
    using MoveNext_row [OF assms(6-9)] lt assms(11) by auto
  have "length (time_bytes x) = 24" by (simp add: time_bytes_def)
  then have "take RS_VALUE_SIZE (time_bytes x @ r) = time_bytes x @ take (RS_VALUE_SIZE - 24) r"
    by (simp add: RS_VALUE_SIZE_def)
  then have "My_GetFieldTime_at A rs1 (int (i + 1)) = Inr (a_mktime A tp (a_isdst A))"
    using number_at_stored [OF rs1(2) lt rs1(3), of None "\<lambda>s. bindR (at_time s) (\<lambda>t. Inr (a_mktime A (tm_of_time t) (a_isdst A)))"] x(2)
    by (simp add: My_GetFieldTime_at_def overwrite_def at_time_bytes)
  then show ?thesis
    using rs1(1) rs_ok_name [OF rs1(2) assms(10)] by (simp add: My_GetFieldTime_def by_field_def)
qed

section \<open>Blobs\<close>

text \<open>
  A value of a blob column is copied as long as it is: behind 4096 bytes \<open>memcpy\<close> reads behind the slot.
\<close>

lemma GetFieldBlob_stored:
  assumes "rs_ok cols rs" "i < length cols" "mr_values rs ! i = stored (Some s) v" "length (v_chVal v) = RS_VALUE_SIZE"
    "length s < 2 ^ 31" "s \<noteq> []"
  shows "My_GetFieldBlob_at rs (int (i + 1)) pBlob =
    (if RS_VALUE_SIZE < length s then Inl Read_Out_Of_Bounds
     else if length pBlob < length s then Inl Write_Out_Of_Bounds
     else Inr (overwrite 0 s pBlob, int (length s)))"
proof -
  have "sint (of_nat (length s) :: 32 word) = int (length s)"
    using sint_of_int [of "int (length s)"] assms(5) by (simp add: INT_MAX_def)
  then show ?thesis
    using rs_value_last(1) [OF assms(1,2)] assms(3,4,6)
    by (auto simp: My_GetFieldBlob_at_def stored_def Let_def overwrite_def not_less)
qed

section \<open>A library for the examples\<close>

text \<open>
  The executions are logged. Every result has a date, a number and a text, and the same row; a time
  is the number of its year.
\<close>

definition demo_time :: my_time where
  "demo_time = \<lparr>t_year = 2016, t_month = 3, t_day = 9, t_hour = 0, t_minute = 45, t_second = 7\<rparr>"

definition demo_tm :: tm where
  "demo_tm = \<lparr>tm_year = 116, tm_mon = 2, tm_mday = 9, tm_hour = 0, tm_min = 45, tm_sec = 7\<rparr>"

definition demo_cols :: "(string \<times> enum_field_types) list" where
  "demo_cols = [(''at'', MYSQL_TYPE_DATETIME), (''id'', MYSQL_TYPE_LONGLONG), (''name'', MYSQL_TYPE_STRING)]"

definition demo_row :: "string option list" where
  "demo_row = [Some (time_bytes demo_time), Some (long_bytes 7), Some ''bob'']"

definition demo_api :: "(my_value list list, rat) my_api" where
  "demo_api =
     \<lparr>a_split = (\<lambda>_ _ _. [Some ''127.0.0.1'', Some ''3306'']), a_init = id, a_real_connect = (\<lambda>_ _ _ _ w. (True, w)),
      a_options = id, a_set_character_set = (\<lambda>_ w. w), a_select_db = (\<lambda>_ w. (0, w)), a_get_server_version = (\<lambda>_. 50700),
      a_close = id, a_server_end = id, a_sleep = (\<lambda>_ w. w), a_stmt_init = (\<lambda>w. (Some 1, w)), a_stmt_close = (\<lambda>_ w. w),
      a_prepare = (\<lambda>_ _ w. (0, w)), a_param_count = (\<lambda>_ _. 2), a_bind_param = (\<lambda>_ _ w. (0, w)),
      a_stmt_execute = (\<lambda>_ vs w. (0, w @ [vs])), a_affected_rows = (\<lambda>_ _. 1), a_field_count = (\<lambda>_ _. 3),
      a_result_metadata = (\<lambda>_ w. (Some (1, demo_cols), w)), a_free_result = (\<lambda>_ w. w), a_bind_result = (\<lambda>_ _ w. (0, w)),
      a_store_result = (\<lambda>_ w. (0, w)), a_num_rows = (\<lambda>_ _. 1), a_fetch = (\<lambda>_ w. ((0, demo_row), w)),
      a_next_result = (\<lambda>_ w. (- 1, w)), a_localtime = (\<lambda>_. Some demo_tm), a_mktime = (\<lambda>t _. word_of_int (tm_year t)),
      a_isdst = 0, a_fops = exact_fops, a_scratch = replicate 32 NUL, a_chTime = replicate 256 NUL\<rparr>"

lemma demo_api_simps [simp]:
  "a_split demo_api url c n = [Some ''127.0.0.1'', Some ''3306'']" "a_stmt_init demo_api w = (Some 1, w)"
  "a_prepare demo_api h sql w = (0, w)" "a_param_count demo_api h w = 2" "a_bind_param demo_api h b w = (0, w)"
  "a_stmt_execute demo_api h vs w = (0, w @ [vs])" "a_affected_rows demo_api h w = 1" "a_field_count demo_api h w = 3"
  "a_result_metadata demo_api h w = (Some (1, demo_cols), w)" "a_bind_result demo_api h rb w = (0, w)"
  "a_store_result demo_api h w = (0, w)" "a_fetch demo_api h w = ((0, demo_row), w)"
  "a_localtime demo_api t = Some demo_tm" "a_mktime demo_api tp d = word_of_int (tm_year tp)"
  "a_scratch demo_api = replicate 32 NUL" "a_chTime demo_api = replicate 256 NUL"
  by (simp_all add: demo_api_def)

definition demo_proc :: my_proc where
  "demo_proc = (MySQLStoredProc True)\<lparr>sp_stmt := Some (1, [])\<rparr>"

lemma demo_proc_stmt [simp]: "sp_stmt demo_proc = Some (1, [])" "sp_driver demo_proc"
  by (simp_all add: demo_proc_def MySQLStoredProc_def)

definition demo_rset :: my_rset where
  "demo_rset =
     \<lparr>mr_opened = True, mr_numRows = 1, mr_curRowIdx = 0, mr_numFields = 3, mr_resMetadata = Some 1,
      mr_values = replicate MAX_COLUMN_NUM zero_value,
      mr_binds = map (column_bind demo_cols) [0..<3] @ replicate (MAX_COLUMN_NUM - 3) zero_bind,
      mr_bound = map (column_bind demo_cols) [0..<3],
      mr_fieldMap = map_of (rev (map (\<lambda>k. (fst (demo_cols ! k), k + 1)) [0..<3]))\<rparr>"

lemma demo_length [simp]: "length demo_cols = 3" "length demo_row = 3"
  by (simp_all add: demo_cols_def demo_row_def)

lemma demo_rset_ok: "rs_ok demo_cols demo_rset"
  by (simp add: rs_ok_def demo_rset_def MAX_COLUMN_NUM_def zero_value_def del: upt_rec_numeral)

lemma demo_last: "i < 3 \<Longrightarrow> last_named demo_cols i"
proof -
  have "distinct (map fst demo_cols)" by (simp add: demo_cols_def)
  then show "i < 3 \<Longrightarrow> last_named demo_cols i"
    by (auto simp: last_named_def distinct_conv_nth)
qed

section \<open>Examples\<close>

lemma MySQLResultSet_Open_binds_witness:
  "\<exists>rs'. MySQLResultSet_Open demo_api demo_proc (MySQLResultSet [] []) [] = Inr (True, rs', []) \<and> rs_ok demo_cols rs' \<and>
     mr_opened rs' \<and> mr_numFields rs' = 3 \<and> mr_resMetadata rs' = Some 1 \<and> mr_curRowIdx rs' = 0"
proof -
  have "has_result demo_api 1 demo_cols [] 1 []" "length demo_cols \<le> MAX_COLUMN_NUM"
    by (simp_all add: has_result_def MAX_COLUMN_NUM_def) (simp add: demo_cols_def)
  then show ?thesis
    using MySQLResultSet_Open_binds [of demo_proc 1 "[]" demo_api demo_cols "[]" 1 "[]" "MySQLResultSet [] []"] by simp
qed

lemma GetFieldString_fetched_witness:
  "\<exists>rs1 rs2. MySQLResultSet_MoveNext demo_api demo_proc demo_rset [] = Inr (True, rs1, []) \<and>
     My_GetFieldString demo_api rs1 ''name'' = Inr (Some (''bob'', rs2)) \<and> rs_ok demo_cols rs2"
  using GetFieldString_fetched [OF demo_rset_ok, of demo_proc 1 "[]" demo_api "[]" demo_row "[]" 2] demo_last [of 2]
  by (simp add: demo_cols_def demo_row_def string_value_def RS_VALUE_SIZE_def c_str_def)

lemma demo_time_text: "datetime_text demo_time = ''2016-03-09 00:45:07''"
  by (simp add: datetime_text_def demo_time_def zpad_def dec_step dec_small digit_def)

lemma GetFieldString_datetime_witness:
  "\<exists>rs1. MySQLResultSet_MoveNext demo_api demo_proc demo_rset [] = Inr (True, rs1, []) \<and>
     My_GetFieldString demo_api rs1 ''at'' = Inr (Some (''2016-03-09 00:45:07'', rs1))"
  using GetFieldString_datetime [OF demo_rset_ok, of demo_proc 1 "[]" demo_api "[]" demo_row "[]" 0 demo_time "[]"] demo_last [of 0]
  by (simp add: demo_time_text) (simp add: demo_cols_def demo_row_def time_ok_def demo_time_def)

lemma GetFieldInt64Value_by_name_witness:
  "\<exists>rs1. MySQLResultSet_MoveNext demo_api demo_proc demo_rset [] = Inr (True, rs1, []) \<and>
     My_GetFieldInt64Value_at rs1 2 = Inr 7 \<and>
     My_GetFieldInt64Value demo_api rs1 ''id'' = Inr (Some (word_of_int (- 1893)))"
  using GetFieldInt64Value_by_name [OF demo_rset_ok, of demo_proc 1 "[]" demo_api "[]" demo_row "[]" 1 7] demo_last [of 1]
  by (simp add: demo_cols_def demo_row_def demo_rset_def MAX_COLUMN_NUM_def)

lemma GetFieldTime_roundtrip_witness:
  "\<exists>rs1. MySQLResultSet_MoveNext demo_api demo_proc demo_rset [] = Inr (True, rs1, []) \<and>
     My_GetFieldTime demo_api rs1 ''at'' = Inr (Some 116)"
proof -
  let ?p = "MySQLStoredProc True"
  obtain p' where p': "AddInputParameter_time demo_api 5 ?p = Inr p'" "tmVal (sp_values p' ! 0) = demo_time"
    by (simp add: AddInputParameter_time_def take_slot_def MySQLStoredProc_def MAX_COLUMN_NUM_def time_of_tm_def int32_def
      INT_MAX_def demo_tm_def set_bind_def put_value_def demo_time_def)
  have "tm_ok demo_tm" by (simp add: tm_ok_def demo_tm_def INT_MAX_def)
  then show ?thesis
    using GetFieldTime_roundtrip [of demo_api 5 demo_tm ?p p' demo_cols demo_rset demo_proc 1 "[]" "[]" demo_row "[]" 0 "[]"]
      p' demo_rset_ok demo_last [of 0]
    by (simp add: MySQLStoredProc_def MAX_COLUMN_NUM_def) (simp add: demo_cols_def demo_row_def demo_tm_def)
qed

end
