(* ===== verification/Mysql_Properties.thy ===== *)
theory Mysql_Properties
  imports Mysql_Rows
begin

text \<open>
  The properties of the client session of \<open>src/src/db/MySQLSession.cpp\<close>: the values a call of a
  procedure sends, and the loops that reconnect.
\<close>

section \<open>Parameters of a call\<close>

text \<open>
  The calls that add a parameter; strings and blobs by their address, as the code keeps them. What
  each is to send is the value of the memory at that time.
\<close>

datatype param =
  P_Int64 "64 word" | P_Int "32 word" | P_CStr "nat option" | P_String nat nat | P_Time "64 word"
| P_Double "64 word" | P_Blob "nat option" "32 word"

fun add_param :: "('w, 'f) my_api \<Rightarrow> memory \<Rightarrow> param \<Rightarrow> my_proc \<Rightarrow> my_proc res" where
  "add_param A m (P_Int64 v) q = AddInputParameter_int64 v q"
| "add_param A m (P_Int v) q = AddInputParameter_int v q"
| "add_param A m (P_CStr p) q = AddInputParameter_cstr m p q"
| "add_param A m (P_String p len) q = AddInputParameter_string p len q"
| "add_param A m (P_Time t) q = AddInputParameter_time A t q"
| "add_param A m (P_Double v) q = AddInputParameter_double v q"
| "add_param A m (P_Blob p len) q = AddInputParameter_blob p len q"

fun add_params :: "('w, 'f) my_api \<Rightarrow> memory \<Rightarrow> param list \<Rightarrow> my_proc \<Rightarrow> my_proc res" where
  "add_params A m [] q = Inr q"
| "add_params A m (p # ps) q = bindR (add_param A m p q) (add_params A m ps)"

definition epoch :: my_time where
  "epoch = \<lparr>t_year = 1900, t_month = 1, t_day = 1, t_hour = 0, t_minute = 0, t_second = 0\<rparr>"

fun param_value :: "('w, 'f) my_api \<Rightarrow> memory \<Rightarrow> param \<Rightarrow> my_value" where
  "param_value A m (P_Int64 v) = V_LongLong v"
| "param_value A m (P_Int v) = V_Long v"
| "param_value A m (P_CStr p) = (case p of None \<Rightarrow> V_Null | Some a \<Rightarrow> V_Bytes MYSQL_TYPE_STRING (c_str (the (m a))))"
| "param_value A m (P_String a len) = V_Bytes MYSQL_TYPE_STRING (take len (the (m a)))"
| "param_value A m (P_Time t) =
     V_Time (case a_localtime A t of None \<Rightarrow> epoch | Some tp \<Rightarrow> projr (time_of_tm tp))"
| "param_value A m (P_Double v) = V_Double v"
| "param_value A m (P_Blob p len) =
     (case p of
        Some a \<Rightarrow> if 0 < sint len then V_Bytes MYSQL_TYPE_BLOB (take (unat len) (the (m a))) else V_Null
      | None \<Rightarrow> V_Null)"

text \<open>
  The objects are live and as long as the call says, a C string has its terminator, and the fields
  of a time can be moved to the origin of the calendar.
\<close>

fun param_ok :: "('w, 'f) my_api \<Rightarrow> memory \<Rightarrow> param \<Rightarrow> bool" where
  "param_ok A m (P_CStr (Some a)) \<longleftrightarrow>
     (case m a of None \<Rightarrow> False | Some s \<Rightarrow> NUL \<in> set s \<and> length (c_str s) < 2 ^ 32)"
| "param_ok A m (P_String a len) \<longleftrightarrow> (case m a of None \<Rightarrow> False | Some s \<Rightarrow> len \<le> length s \<and> len < 2 ^ 32)"
| "param_ok A m (P_Time t) \<longleftrightarrow> (case a_localtime A t of None \<Rightarrow> True | Some tp \<Rightarrow> \<not> isl (time_of_tm tp))"
| "param_ok A m (P_Blob (Some a) len) \<longleftrightarrow>
     (0 < sint len \<longrightarrow> (case m a of None \<Rightarrow> False | Some s \<Rightarrow> unat len \<le> length s))"
| "param_ok A m p \<longleftrightarrow> True"

subsection \<open>Slots\<close>

fun slot_of :: "my_buffer \<Rightarrow> nat option" where
  "slot_of (At_llVal n) = Some n"
| "slot_of (At_nVal n) = Some n"
| "slot_of (At_dVal n) = Some n"
| "slot_of (At_tmVal n) = Some n"
| "slot_of _ = None"

lemma bound_value_update [simp]:
  "slot_of (b_buffer b) \<noteq> Some n \<Longrightarrow> bound_value m (vs[n := v]) b = bound_value m vs b"
  by (cases "b_buffer b") (auto simp: bound_value_def rd_def)

text \<open>A procedure that is not prepared and holds the parameters \<open>ps\<close>.\<close>

definition holds_params :: "('w, 'f) my_api \<Rightarrow> memory \<Rightarrow> param list \<Rightarrow> my_proc \<Rightarrow> bool" where
  "holds_params A m ps q \<longleftrightarrow>
     sp_driver q \<and> sp_stmt q = None \<and> sp_index q = length ps \<and>
     length (sp_values q) = MAX_COLUMN_NUM \<and> length (sp_params q) = MAX_COLUMN_NUM \<and>
     (\<forall>i<length ps. slot_of (b_buffer (sp_params q ! i)) \<in> {None, Some i} \<and>
        bound_value m (sp_values q) (sp_params q ! i) = Inr (param_value A m (ps ! i)))"

lemma holds_params_new: "holds_params A m [] (MySQLStoredProc True)"
  by (simp add: holds_params_def MySQLStoredProc_def)

lemma take_slot_eq:
  "take_slot q = (if sp_index q < MAX_COLUMN_NUM then Inr (sp_index q, q\<lparr>sp_index := Suc (sp_index q)\<rparr>)
    else Inl Assertion_Failed)"
  by (simp add: take_slot_def)

lemma add_param_full: "\<not> sp_index q < MAX_COLUMN_NUM \<Longrightarrow> add_param A m p q = Inl Assertion_Failed"
  by (cases p) (simp_all add: AddInputParameter_int64_def AddInputParameter_int_def AddInputParameter_cstr_def
      AddInputParameter_string_def AddInputParameter_time_def AddInputParameter_double_def
      AddInputParameter_blob_def take_slot_eq)

text \<open>Adding a parameter sets the binding of the next slot, and of the values at most the same one.\<close>

lemma holds_params_snoc:
  assumes "holds_params A m ps q" "length ps < MAX_COLUMN_NUM" "slot_of buf \<in> {None, Some (length ps)}"
    "bound_value m ((sp_values q)[length ps := f (sp_values q ! length ps)])
       \<lparr>b_type = ty, b_buffer = buf, b_length = len\<rparr> = Inr (param_value A m p)"
  shows "holds_params A m (ps @ [p])
    (set_bind (length ps) ty buf len (put_value (length ps) f (q\<lparr>sp_index := Suc (length ps)\<rparr>)))"
  using assms
  by (auto simp: holds_params_def set_bind_def put_value_def nth_append less_Suc_eq nth_list_update)

lemmas add_param_defs = AddInputParameter_int64_def AddInputParameter_int_def AddInputParameter_cstr_def
  AddInputParameter_string_def AddInputParameter_time_def AddInputParameter_double_def
  AddInputParameter_blob_def

lemma put_value_id: "n < length (sp_values q) \<Longrightarrow> put_value n (\<lambda>v. v) q = q"
  by (simp add: put_value_def)

lemma add_param_holds:
  assumes "holds_params A m ps q" "length ps < MAX_COLUMN_NUM" "param_ok A m p"
  shows "\<exists>q'. add_param A m p q = Inr q' \<and> holds_params A m (ps @ [p]) q'"
proof -
  let ?n = "length ps"
  have slot: "take_slot q = Inr (?n, q\<lparr>sp_index := Suc ?n\<rparr>)" and lt: "?n < length (sp_values q)"
    using assms(1,2) by (simp_all add: take_slot_eq holds_params_def)
  have sets: ?thesis
    if "add_param A m p q = Inr (set_bind ?n ty buf len (put_value ?n f (q\<lparr>sp_index := Suc ?n\<rparr>)))"
      "slot_of buf \<in> {None, Some ?n}"
      "bound_value m ((sp_values q)[?n := f (sp_values q ! ?n)])
        \<lparr>b_type = ty, b_buffer = buf, b_length = len\<rparr> = Inr (param_value A m p)" for ty buf len f
    using that holds_params_snoc [where f = f, OF assms(1,2) that(2,3)] by blast
  have keeps: ?thesis
    if "add_param A m p q = Inr (set_bind ?n ty buf len (q\<lparr>sp_index := Suc ?n\<rparr>))" "slot_of buf = None"
      "bound_value m (sp_values q) \<lparr>b_type = ty, b_buffer = buf, b_length = len\<rparr> = Inr (param_value A m p)" for ty buf len
    using sets [of ty buf len "\<lambda>v. v"] that lt put_value_id [of ?n "q\<lparr>sp_index := Suc ?n\<rparr>"] by simp
  show ?thesis
  proof (cases p)
    case (P_Int64 v)
    show ?thesis by (rule sets, simp add: P_Int64 add_param_defs slot) (use P_Int64 lt in \<open>simp_all add: bound_value_def\<close>)
  next
    case (P_Int v)
    show ?thesis by (rule sets, simp add: P_Int add_param_defs slot) (use P_Int lt in \<open>simp_all add: bound_value_def\<close>)
  next
    case (P_Double v)
    show ?thesis by (rule sets, simp add: P_Double add_param_defs slot) (use P_Double lt in \<open>simp_all add: bound_value_def\<close>)
  next
    case (P_CStr a)
    show ?thesis
    proof (cases a)
      case None
      show ?thesis by (rule keeps, simp add: P_CStr None add_param_defs slot) (simp_all add: P_CStr None bound_value_def)
    next
      case (Some a)
      then obtain s where s: "m a = Some s" "NUL \<in> set s" "length (c_str s) < 2 ^ 32"
        using assms(3) P_CStr by (auto split: option.split_asm)
      let ?l = "of_nat (length (c_str s)) :: 32 word"
      have len: "take (length (c_str s)) s = c_str s" "length (c_str s) \<le> length s"
        by (simp_all add: c_str_def takeWhile_eq_take [symmetric] length_takeWhile_le)
      have "unat ?l = length (c_str s)" using s(3) by (simp add: unat_of_nat)
      then have "bound_value m (sp_values q) \<lparr>b_type = MYSQL_TYPE_STRING, b_buffer = At_Memory a, b_length = ?l\<rparr>
          = Inr (param_value A m p)"
        using P_CStr Some s(1) len by (simp add: bound_value_def bytes_at_def)
      moreover have "add_param A m p q = Inr (set_bind ?n MYSQL_TYPE_STRING (At_Memory a) ?l (q\<lparr>sp_index := Suc ?n\<rparr>))"
        using P_CStr Some slot s(1,2) by (simp add: add_param_defs c_strlen_def)
      ultimately show ?thesis by (intro keeps) simp_all
    qed
  next
    case (P_String a len)
    then obtain s where "m a = Some s" "len \<le> length s" "len < 2 ^ 32"
      using assms(3) by (auto split: option.split_asm)
    then show ?thesis
      by - (rule keeps, simp add: P_String add_param_defs slot,
        simp_all add: P_String bound_value_def bytes_at_def unat_of_nat)
  next
    case (P_Blob a len)
    consider (null) "a = None \<or> \<not> 0 < sint len"
      | (bytes) a' s where "a = Some a'" "0 < sint len" "m a' = Some s" "unat len \<le> length s"
      using assms(3) P_Blob by (cases a) (auto split: option.split_asm)
    then show ?thesis
    proof cases
      case null
      then have "add_param A m p q = Inr (set_bind ?n MYSQL_TYPE_NULL Null_Buffer 0 (q\<lparr>sp_index := Suc ?n\<rparr>))"
        "param_value A m p = V_Null"
        using P_Blob slot by (auto simp: add_param_defs split: option.split)
      then show ?thesis by (intro keeps [where buf = Null_Buffer]) (simp_all add: bound_value_def)
    next
      case bytes
      then show ?thesis
        by - (rule keeps, simp add: P_Blob add_param_defs slot, simp_all add: P_Blob bound_value_def bytes_at_def)
    qed
  next
    case (P_Time t)
    obtain x where x: "(case a_localtime A t of
              Some tp \<Rightarrow> time_of_tm tp
            | None \<Rightarrow> Inr \<lparr>t_year = 1900, t_month = 1, t_day = 1, t_hour = 0, t_minute = 0, t_second = 0\<rparr>) = Inr x"
       "param_value A m p = V_Time x"
      using P_Time assms(3)
      by (cases "a_localtime A t"; cases "time_of_tm (the (a_localtime A t))") (auto simp: epoch_def)
    show ?thesis
      by (rule sets, simp add: P_Time add_param_defs slot x(1))
        (use lt in \<open>simp_all add: bound_value_def x(2)\<close>)
  qed
qed

lemma add_params_holds:
  assumes "holds_params A m ps q" "list_all (param_ok A m) rs" "length ps + length rs \<le> MAX_COLUMN_NUM"
  shows "\<exists>q'. add_params A m rs q = Inr q' \<and> holds_params A m (ps @ rs) q'"
  using assms
proof (induction rs arbitrary: ps q)
  case (Cons r rs)
  then obtain q1 where "add_param A m r q = Inr q1" "holds_params A m (ps @ [r]) q1"
    using add_param_holds [of A m ps q r] by auto
  then show ?case using Cons.IH [of "ps @ [r]" q1] Cons.prems(2,3) by simp
qed simp

lemma add_params_full:
  assumes "holds_params A m ps q" "list_all (param_ok A m) rs" "length ps \<le> MAX_COLUMN_NUM"
    "MAX_COLUMN_NUM < length ps + length rs"
  shows "add_params A m rs q = Inl Assertion_Failed"
  using assms
proof (induction rs arbitrary: ps q)
  case (Cons r rs)
  show ?case
  proof (cases "length ps < MAX_COLUMN_NUM")
    case True
    then obtain q1 where "add_param A m r q = Inr q1" "holds_params A m (ps @ [r]) q1"
      using add_param_holds [of A m ps q r] Cons.prems by auto
    then show ?thesis using Cons.IH [of "ps @ [r]" q1] Cons.prems(2,4) True by simp
  next
    case False
    then show ?thesis using Cons.prems(1) by (simp add: add_param_full holds_params_def)
  qed
qed simp

lemma mapR_nth:
  "(\<And>i. i < length xs \<Longrightarrow> f (xs ! i) = Inr (ys ! i)) \<Longrightarrow> length ys = length xs \<Longrightarrow> mapR f xs = Inr ys"
proof (induction xs arbitrary: ys)
  case (Cons x xs)
  then obtain y zs where ys: "ys = y # zs" by (cases ys) auto
  have "mapR f xs = Inr zs"
    by (rule Cons.IH) (use Cons.prems(1) [of "Suc _"] Cons.prems(2) ys in simp_all)
  then show ?case using Cons.prems(1) [of 0] ys by simp
qed simp

lemma bound_values:
  assumes "holds_params A m ps q" "length ps \<le> MAX_COLUMN_NUM"
  shows "mapR (bound_value m (sp_values q)) (take (length ps) (sp_params q)) = Inr (map (param_value A m) ps)"
  by (rule mapR_nth) (use assms in \<open>simp_all add: holds_params_def\<close>)

text \<open>
  The library in the state \<open>w\<close>: it makes a statement, finds \<open>n\<close> parameters in its text, and accepts
  bindings.
\<close>

definition accepts :: "('w, 'f) my_api \<Rightarrow> string \<Rightarrow> nat \<Rightarrow> 'w \<Rightarrow> nat \<Rightarrow> 'w \<Rightarrow> bool" where
  "accepts A sql n w h w' \<longleftrightarrow>
     (\<exists>w1 w2 st. a_stmt_init A w = (Some h, w1) \<and> a_prepare A h sql w1 = (st, w2) \<and> a_param_count A h w2 = n \<and>
        (\<forall>bs. length bs = n \<longrightarrow> a_bind_param A h bs w2 = (0, w')))"

lemma Prepare_accepts:
  assumes "accepts A sql n w h w'" "sp_driver q" "sp_stmt q = None" "n \<le> length (sp_params q)"
  shows "MySQLStoredProc_Prepare A sql q w =
    Inr (True, q\<lparr>sp_stmt := Some (h, take n (sp_params q)), sp_count := n\<rparr>, w')"
proof -
  obtain w1 w2 st where w: "a_stmt_init A w = (Some h, w1)" "a_prepare A h sql w1 = (st, w2)"
    "a_param_count A h w2 = n" "a_bind_param A h (take n (sp_params q)) w2 = (0, w')"
    using assms(1,4) unfolding accepts_def by auto
  then show ?thesis
    using assms(2-4) by (simp add: MySQLStoredProc_Prepare_def MySQLStoredProc_Open_def with_stmt_def Let_def)
qed

text \<open>C13. The parameters of a call take the slots in their order. Up to 64 of them are sent: after
  \<open>Prepare\<close> of a text with as many markers, \<open>Exec\<close> executes the statement with their values, in
  order, as long as the memory of the caller has not changed. The 65th fails the assertion.\<close>

theorem stored_proc_sends:
  assumes "list_all (param_ok A m) ps" "accepts A sql (length ps) w h w'"
  shows "if length ps \<le> MAX_COLUMN_NUM
    then \<exists>q q'. add_params A m ps (MySQLStoredProc True) = Inr q \<and>
      MySQLStoredProc_Prepare A sql q w = Inr (True, q', w') \<and>
      (\<forall>w. MySQLStoredProc_Exec A m q' None w =
        (let (nStatus, w) = a_stmt_execute A h (map (param_value A m) ps) w
         in Inr (nStatus = 0, if nStatus = 0 then q'\<lparr>sp_affected := ucast (a_affected_rows A h w)\<rparr> else q', None, w)))
    else add_params A m ps (MySQLStoredProc True) = Inl Assertion_Failed"
proof (cases "length ps \<le> MAX_COLUMN_NUM")
  case True
  then obtain q where q: "add_params A m ps (MySQLStoredProc True) = Inr q" "holds_params A m ps q"
    using add_params_holds [OF holds_params_new assms(1)] by auto
  let ?q = "q\<lparr>sp_stmt := Some (h, take (length ps) (sp_params q)), sp_count := length ps\<rparr>"
  have "MySQLStoredProc_Prepare A sql q w = Inr (True, ?q, w')"
    by (rule Prepare_accepts [OF assms(2)]) (use q(2) True in \<open>simp_all add: holds_params_def\<close>)
  moreover have "sp_driver q" using q(2) by (simp add: holds_params_def)
  ultimately show ?thesis
    using True q(1) bound_values [OF q(2) True]
    by (auto simp: MySQLStoredProc_Exec_def with_stmt_def Let_def split: prod.split)
next
  case False
  then show ?thesis using add_params_full [OF holds_params_new assms(1)] by simp
qed

section \<open>Reconnecting\<close>

text \<open>The URL fits its buffer and has a host and a port, a number an \<open>int\<close> can hold.\<close>

definition url_splits :: "('w, 'f) my_api \<Rightarrow> string \<Rightarrow> bool" where
  "url_splits A url \<longleftrightarrow> length url + 1 \<le> MAX_PATH \<and>
     (\<exists>host port r. a_split A url CHR '':'' 2 = host # Some port # r \<and> \<not> isl (c_atoi port))"

lemma MySQLDriver_Open_url:
  assumes "url_splits A (md_url d)"
  shows "\<exists>b d' w'. MySQLDriver_Open A d w = Inr (b, d', w') \<and> md_url d' = md_url d"
proof -
  obtain host port r where split: "a_split A (md_url d) CHR '':'' 2 = host # Some port # r" "\<not> isl (c_atoi port)"
    and len: "length (md_url d) + 1 \<le> MAX_PATH"
    using assms by (auto simp: url_splits_def)
  obtain n where "c_atoi port = Inr n" using split(2) by (cases "c_atoi port") auto
  then show ?thesis using split(1) len
    by (auto simp: MySQLDriver_Open_def Let_def split: prod.split bool.split)
qed

lemma no_stmt [simp]: "sp_stmt q = None \<Longrightarrow> q\<lparr>sp_stmt := None\<rparr> = q"
  by (cases q) simp

lemma reconnect_eq:
  "reconnect A d q w = bindR (MySQLDriver_Open A (fst (MySQLDriver_Close A d (snd (MySQLStoredProc_Close A q w))))
       (a_sleep A 1000 (snd (MySQLDriver_Close A d (snd (MySQLStoredProc_Close A q w))))))
     (\<lambda>(_, d, w). Inr (d, q\<lparr>sp_stmt := None\<rparr>, w))"
  by (auto simp: reconnect_def MySQLStoredProc_Close_def Let_def split: option.split prod.split)

lemma reconnect_closes: "reconnect A d q w = Inr (d', q', w') \<Longrightarrow> q' = q\<lparr>sp_stmt := None\<rparr>"
  by (auto simp: reconnect_eq bindR_Inr_iff)

lemma MySQLDriver_Close_url [simp]: "md_url (fst (MySQLDriver_Close A d w)) = md_url d"
  by (simp add: MySQLDriver_Close_def)

lemma reconnect_url:
  assumes "url_splits A (md_url d)"
  shows "\<exists>d' w'. reconnect A d q w = Inr (d', q\<lparr>sp_stmt := None\<rparr>, w') \<and> md_url d' = md_url d"
proof -
  let ?w = "snd (MySQLStoredProc_Close A q w)"
  show ?thesis
    using MySQLDriver_Open_url [of A "fst (MySQLDriver_Close A d ?w)" "a_sleep A 1000 (snd (MySQLDriver_Close A d ?w))"] assms
    by (auto simp: reconnect_eq)
qed

lemma Exec_driver: "MySQLStoredProc_Exec A m q outRs w = Inr (b, q', rs', w') \<Longrightarrow> sp_driver q' = sp_driver q"
proof -
  have "case MySQLStoredProc_Exec A m q outRs w of Inl e \<Rightarrow> True | Inr (b, q', rs, w) \<Rightarrow> sp_driver q' = sp_driver q"
    by (simp add: MySQLStoredProc_Exec_def with_stmt_def bindR_def Let_def split: sum.split option.split prod.split)
  then show "MySQLStoredProc_Exec A m q outRs w = Inr (b, q', rs', w') \<Longrightarrow> sp_driver q' = sp_driver q" by simp
qed

text \<open>C14. \<open>ExecStoredProc\<close> of a procedure with a driver never repeats the call it is meant to repeat. If
  the first execution fails, it closes the statement, and the second execution, which follows the
  reconnect without another \<open>Prepare\<close>, loads through the null pointer left behind.\<close>

theorem ExecStoredProc_once:
  assumes "sp_driver q"
  shows "ExecStoredProc A m d q outRs w =
    Some (bindR (MySQLStoredProc_Exec A m q outRs w) (\<lambda>(b, q, outRs, w).
      if b then Inr (outRs, d, q, w)
      else bindR (reconnect A d q w) (\<lambda>_. Inl Null_Dereference)))"
proof -
  have again: "retry_loop (\<lambda>s. Some (exec_round A m s)) (rs, d', q', w') = Some (Inl Null_Dereference)"
    if "sp_driver q'" "sp_stmt q' = None" for rs d' q' w'
    using that by (subst retry_loop.simps) (simp add: exec_round_def MySQLStoredProc_Exec_def with_stmt_def)
  have round: "exec_round A m (outRs, d, q, w) =
      bindR (MySQLStoredProc_Exec A m q outRs w) (\<lambda>(b, q, outRs, w).
        if b then Inr (True, outRs, d, q, w) else bindR (reconnect A d q w) (\<lambda>s. Inr (False, outRs, s)))"
    by (simp add: exec_round_def)
  note step = ExecStoredProc_def retry_loop.simps [of _ "(outRs, d, q, w)"] round
  show ?thesis
  proof (cases "MySQLStoredProc_Exec A m q outRs w")
    case (Inr r)
    obtain b q1 rs1 w1 where r: "r = (b, q1, rs1, w1)" by (cases r)
    have driver: "sp_driver q1" using Exec_driver Inr r assms by metis
    then show ?thesis
      using Inr r reconnect_closes [of A d q1 w1]
      by (cases "reconnect A d q1 w1") (auto simp: step again)
  qed (simp add: step)
qed

text \<open>The library always has a statement, and no text with more than 64 markers.\<close>

definition statements_ok :: "('w, 'f) my_api \<Rightarrow> bool" where
  "statements_ok A \<longleftrightarrow> (\<forall>w. fst (a_stmt_init A w) \<noteq> None) \<and> (\<forall>h w. a_param_count A h w \<le> MAX_COLUMN_NUM)"

definition proc_ok :: "('w, 'f) my_api \<Rightarrow> my_driver \<times> my_proc \<times> 'w \<Rightarrow> bool" where
  "proc_ok A = (\<lambda>(d, q, w). sp_driver q \<and> length (sp_params q) = MAX_COLUMN_NUM \<and> url_splits A (md_url d))"

lemma Prepare_ok:
  assumes "statements_ok A" "sp_driver q" "length (sp_params q) = MAX_COLUMN_NUM"
  shows "\<exists>b q' w'. MySQLStoredProc_Prepare A sql q w = Inr (b, q', w') \<and> sp_driver q' \<and> sp_params q' = sp_params q \<and>
    (b \<longrightarrow> (\<exists>h. sp_stmt q' = Some (h, take (sp_count q') (sp_params q))))"
proof -
  obtain h bs q1 w1 where q1: "(if sp_stmt q = None then MySQLStoredProc_Open A q w else Inr (q, w)) = Inr (q1, w1)"
    "sp_stmt q1 = Some (h, bs)" "sp_driver q1" "sp_params q1 = sp_params q"
  proof (cases "sp_stmt q")
    case None
    obtain h w' where "a_stmt_init A w = (Some h, w')"
      using assms(1) by (cases "a_stmt_init A w") (auto simp: statements_ok_def dest: spec [of _ w])
    then show ?thesis using None assms(2) that [of "q\<lparr>sp_stmt := Some (h, [])\<rparr>" w' h "[]"]
      by (simp add: MySQLStoredProc_Open_def)
  next
    case (Some s)
    then show ?thesis using that [of q w "fst s" "snd s"] assms(2) by simp
  qed
  have "a_param_count A h w2 \<le> MAX_COLUMN_NUM" for w2 using assms(1) by (simp add: statements_ok_def)
  then show ?thesis using q1 assms(3)
    by (auto simp: MySQLStoredProc_Prepare_def with_stmt_def Let_def split: prod.split)
qed

lemma prepare_round_ok:
  assumes "statements_ok A"
  shows "faultless_on (proc_ok A) (\<lambda>s. Some (prepare_round A sql s)) (\<lambda>s. projr (prepare_round A sql s))"
  unfolding faultless_on_def
proof (intro allI impI)
  fix s :: "my_driver \<times> my_proc \<times> 'a"
  assume ok: "proc_ok A s"
  obtain d q w where s: "s = (d, q, w)" by (cases s)
  obtain b q1 w1 where q1: "MySQLStoredProc_Prepare A sql q w = Inr (b, q1, w1)" "sp_driver q1" "sp_params q1 = sp_params q"
    using Prepare_ok [OF assms, of q sql w] ok s by (auto simp: proc_ok_def)
  obtain d2 w2 where "reconnect A d q1 w1 = Inr (d2, q1\<lparr>sp_stmt := None\<rparr>, w2)" "md_url d2 = md_url d"
    using reconnect_url [of A d q1 w1] ok s by (auto simp: proc_ok_def)
  then show "Some (prepare_round A sql s) = Some (Inr (projr (prepare_round A sql s))) \<and>
      proc_ok A (snd (projr (prepare_round A sql s)))"
    using q1 ok s by (simp add: prepare_round_def proc_ok_def)
qed

text \<open>\<open>PrepareStoredProc\<close> returns exactly if one of its attempts to prepare the text succeeds,
  each after another reconnect, and then after the first that does. It does not fault: not by the
  failure of \<open>Open\<close> either, which only makes the next attempt fail.\<close>

lemma PrepareStoredProc_retries:
  assumes "statements_ok A" "proc_ok A (d, q, w)" "attempt = (\<lambda>s. projr (prepare_round A sql s))"
  shows "PrepareStoredProc A sql d q w =
    (if \<exists>n. fst (attempts attempt n (d, q, w))
     then Some (Inr (snd (attempts attempt (LEAST n. fst (attempts attempt n (d, q, w))) (d, q, w)))) else None)"
  unfolding PrepareStoredProc_def assms(3)
  by (rule retry_loop_cases_on [OF prepare_round_ok [OF assms(1)] assms(2)])

section \<open>Examples\<close>

lemma stored_proc_sends_witness:
  "\<exists>q q'. add_params demo_api [8 \<mapsto> cstr ''bob''] [P_Int 5, P_CStr (Some 8)] (MySQLStoredProc True) = Inr q \<and>
     MySQLStoredProc_Prepare demo_api ''CALL p(?,?)'' q [] = Inr (True, q', []) \<and>
     MySQLStoredProc_Exec demo_api [8 \<mapsto> cstr ''bob''] q' None [] =
       Inr (True, q'\<lparr>sp_affected := 1\<rparr>, None, [[V_Long 5, V_Bytes MYSQL_TYPE_STRING ''bob'']])"
proof -
  let ?m = "[8 \<mapsto> cstr ''bob'']" and ?ps = "[P_Int 5, P_CStr (Some 8)]"
  have "list_all (param_ok demo_api ?m) ?ps" by (simp add: cstr_def c_str_def)
  moreover have "accepts demo_api ''CALL p(?,?)'' (length ?ps) [] 1 []" by (simp add: accepts_def)
  ultimately obtain q q' where "add_params demo_api ?m ?ps (MySQLStoredProc True) = Inr q"
    "MySQLStoredProc_Prepare demo_api ''CALL p(?,?)'' q [] = Inr (True, q', [])"
    "\<And>w. MySQLStoredProc_Exec demo_api ?m q' None w =
      (let (nStatus, w) = a_stmt_execute demo_api 1 (map (param_value demo_api ?m) ?ps) w
       in Inr (nStatus = 0, if nStatus = 0 then q'\<lparr>sp_affected := ucast (a_affected_rows demo_api 1 w)\<rparr> else q', None, w))"
    using stored_proc_sends [of demo_api ?m ?ps "''CALL p(?,?)''" "[]" 1 "[]"] by (auto simp: MAX_COLUMN_NUM_def)
  then show ?thesis by (auto simp: cstr_def c_str_def)
qed

text \<open>A server that refuses the execution, and accepts it after the reconnect.\<close>

lemma ExecStoredProc_once_witness:
  "ExecStoredProc (demo_api\<lparr>a_stmt_execute := \<lambda>_ vs w. (if w = [] then 1 else 0, w @ [vs])\<rparr>) Map.empty
     (MySQLDriver ''db'' ''u'' ''p'' ''s'') demo_proc None [] = Some (Inl Null_Dereference)"
proof -
  let ?A = "demo_api\<lparr>a_stmt_execute := \<lambda>_ vs w. (if w = [] then 1 else 0, w @ [vs])\<rparr>"
    and ?d = "MySQLDriver ''db'' ''u'' ''p'' ''s''"
  have exec: "MySQLStoredProc_Exec ?A Map.empty demo_proc None [] = Inr (False, demo_proc, None, [[]])"
    by (simp add: MySQLStoredProc_Exec_def with_stmt_def)
  have "c_atoi ''3306'' = Inr 3306"
    by (simp add: c_atoi_def isspace_def isdigit_def CHARTOINT_def int32_def INT_MAX_def)
  then have "url_splits ?A (md_url ?d)" by (simp add: url_splits_def MySQLDriver_def MAX_PATH_def)
  then obtain d w where "reconnect ?A ?d demo_proc [[]] = Inr (d, demo_proc\<lparr>sp_stmt := None\<rparr>, w)"
    using reconnect_url [of ?A ?d demo_proc "[[]]"] by auto
  then show ?thesis using ExecStoredProc_once [of demo_proc ?A Map.empty ?d None "[]"] exec by simp
qed

end
