(* ===== verification/Capnp_Engine.thy ===== *)
theory Capnp_Engine
  imports Db_Engine
begin

text \<open>
  \<open>src/src/db/Capnp2DbEngine.cpp\<close>, the engine on messages of Cap'n Proto: the parameters of a stored
  procedure from the struct \<open>param\<close>, and the records of a list from the rows of a result set; and its
  stub, \<open>src/src/db/CapnpDbStub.cpp\<close> and \<open>CapnpDbStub.h\<close>, with the schemas it keeps by their identifier.

  Messages are lists of fields with their type, whether they are set, and their value; the
  conversions between values of the message and of the database are those of the library, the
  parameter \<open>cp_ops\<close>, and so is what \<open>has\<close> says of the fields of a new record. The class
  \<open>ZdbStoredProc\<close> the engine hands the parameters to is not in the repository: its calls are listed,
  and \<open>Call\<close> is a parameter. Result sets are those of \<open>Zdb_Result\<close>, without the field type.
\<close>

section \<open>Messages\<close>

text \<open>The types the code names; \<open>CP_OTHER\<close> stands for the ones it leaves to \<open>default\<close>.\<close>

datatype cp_type =
  CP_BOOL | CP_INT8 | CP_INT16 | CP_INT32 | CP_INT64 | CP_UINT8 | CP_UINT16 | CP_UINT32 | CP_UINT64
| CP_FLOAT32 | CP_FLOAT64 | CP_TEXT | CP_DATA | CP_ENUM | CP_STRUCT | CP_OTHER

datatype 'v cp_field = CField string cp_type bool "'v cp_value"
  and 'v cp_value = CLeaf 'v | CStruct "'v cp_field list"

text \<open>The values handed to the statement and read from a result, and the calls of the procedure.\<close>

datatype 'f cp_native =
  N_Int "32 word" | N_Int64 "64 word" | N_Time "64 word" | N_Float 'f | N_Double 'f
| N_Text "string option" | N_Data "string option"

datatype 'f proc_call = Call_Prepare string nat | Call_Add string "'f cp_native"

text \<open>
  Conversions of the library: \<open>as\<close> for the type the code asks for and \<open>set\<close> of a field. None is an
  exception.
\<close>

record ('v, 'f) cp_ops =
  cp_as :: "cp_type \<Rightarrow> 'v \<Rightarrow> 'f cp_native option"
  cp_set :: "cp_type \<Rightarrow> 'f cp_native \<Rightarrow> 'v option"

definition thrown :: "'a option \<Rightarrow> 'a res" where
  "thrown x = (case x of None \<Rightarrow> Inl Uncaught_Exception | Some x \<Rightarrow> Inr x)"

section \<open>Parameters\<close>

definition cp_counted :: "cp_type \<Rightarrow> bool" where
  "cp_counted t \<longleftrightarrow> t \<noteq> CP_STRUCT \<and> t \<noteq> CP_OTHER"

fun cp_ParseParamsCount :: "'v cp_field list \<Rightarrow> nat res" where
  "cp_ParseParamsCount [] = Inr 0"
| "cp_ParseParamsCount (CField name t isset (CLeaf v) # fs) =
     (if \<not> isset then cp_ParseParamsCount fs
      else if t = CP_STRUCT then Inl Uncaught_Exception
      else bindR (cp_ParseParamsCount fs) (\<lambda>n. Inr ((if cp_counted t then 1 else 0) + n)))"
| "cp_ParseParamsCount (CField name t isset (CStruct sub) # fs) =
     (if \<not> isset then cp_ParseParamsCount fs
      else if t = CP_STRUCT then
        bindR (cp_ParseParamsCount sub) (\<lambda>k. bindR (cp_ParseParamsCount fs) (\<lambda>n. Inr (k + n)))
      else bindR (cp_ParseParamsCount fs) (\<lambda>n. Inr ((if cp_counted t then 1 else 0) + n)))"

fun cp_ParseParams :: "('v, 'f) cp_ops \<Rightarrow> 'v cp_field list \<Rightarrow> 'f proc_call list res" where
  "cp_ParseParams ops [] = Inr []"
| "cp_ParseParams ops (CField name t isset (CLeaf v) # fs) =
     (if \<not> isset then cp_ParseParams ops fs
      else if t = CP_STRUCT then Inl Uncaught_Exception
      else if cp_counted t then
        bindR (thrown (cp_as ops t v)) (\<lambda>x. bindR (cp_ParseParams ops fs) (\<lambda>cs. Inr (Call_Add name x # cs)))
      else cp_ParseParams ops fs)"
| "cp_ParseParams ops (CField name t isset (CStruct sub) # fs) =
     (if \<not> isset then cp_ParseParams ops fs
      else if t = CP_STRUCT then
        bindR (cp_ParseParams ops sub) (\<lambda>cs. bindR (cp_ParseParams ops fs) (\<lambda>cs'. Inr (cs @ cs')))
      else if cp_counted t then Inl Uncaught_Exception
      else cp_ParseParams ops fs)"

fun cp_ParseProc :: "('v, 'f) cp_ops \<Rightarrow> string \<Rightarrow> 'v cp_field list \<Rightarrow> 'f proc_call list res" where
  "cp_ParseProc ops sProcName [] = Inr []"
| "cp_ParseProc ops sProcName (CField name t isset v # rootv) =
     bindR (if isset \<and> name = ''param''
            then case v of
                   CStruct param \<Rightarrow>
                     bindR (cp_ParseParamsCount param) (\<lambda>nParamsCount.
                     bindR (cp_ParseParams ops param) (\<lambda>cs. Inr (Call_Prepare sProcName nParamsCount # cs)))
                 | CLeaf _ \<Rightarrow> Inr []
            else Inr []) (\<lambda>cs.
     bindR (cp_ParseProc ops sProcName rootv) (\<lambda>cs'. Inr (cs @ cs')))"

section \<open>Records\<close>

text \<open>
  The \<open>switch\<close> of \<open>AddFirstReturnRecord\<close>: the value, if the type is read, and \<open>nFieldIndex\<close>. A text or
  a blob whose column is not found is a pointer without a value.
\<close>

definition cp_first_value ::
  "bool \<Rightarrow> ('c, 'f) cell_ops \<Rightarrow> 'c rset \<Rightarrow> cp_type \<Rightarrow> string \<Rightarrow> nat \<Rightarrow> ('f cp_native option \<times> nat) res" where
  "cp_first_value haslog ops rs t name nFieldIndex =
     (let out = (nFieldIndex, 0)
      in case t of
           CP_INT64 \<Rightarrow> bindR (GetFieldInt64Value haslog ops rs name INT64_MIN out) (\<lambda>(_, v, i, _). Inr (Some (N_Int64 v), i))
         | CP_UINT64 \<Rightarrow> bindR (GetFieldTime haslog ops rs name INT64_MIN out) (\<lambda>(_, v, i, _). Inr (Some (N_Time v), i))
         | CP_FLOAT32 \<Rightarrow> bindR (GetFieldFloatValue haslog ops rs name (c_flt_min ops) out) (\<lambda>(_, v, i, _). Inr (Some (N_Float v), i))
         | CP_FLOAT64 \<Rightarrow> bindR (GetFieldDoubleValue haslog ops rs name (c_dbl_min ops) out) (\<lambda>(_, v, i, _). Inr (Some (N_Double v), i))
         | CP_TEXT \<Rightarrow> bindR (GetFieldString haslog ops rs name None out) (\<lambda>(found, v, i, _).
             if found then Inr (Some (N_Text v), i) else Inl Dangling_Pointer)
         | CP_DATA \<Rightarrow> bindR (GetFieldBlob haslog ops rs name None out) (\<lambda>(found, v, i, _).
             if found then Inr (Some (N_Data v), i) else Inl Dangling_Pointer)
         | CP_STRUCT \<Rightarrow> Inr (None, nFieldIndex)
         | CP_OTHER \<Rightarrow> Inr (None, nFieldIndex)
         | _ \<Rightarrow> bindR (GetFieldInt haslog ops rs name INT32_MIN out) (\<lambda>(_, v, i, _). Inr (Some (N_Int v), i)))"

definition cp_next_value :: "('c, 'f) cell_ops \<Rightarrow> 'c rset \<Rightarrow> cp_type \<Rightarrow> nat \<Rightarrow> 'f cp_native option res" where
  "cp_next_value ops rs t i =
     (case t of
        CP_INT64 \<Rightarrow> bindR (GetFieldInt64Value_at ops rs i) (\<lambda>v. Inr (Some (N_Int64 v)))
      | CP_UINT64 \<Rightarrow> bindR (GetFieldTime_at ops rs i) (\<lambda>v. Inr (Some (N_Time v)))
      | CP_FLOAT32 \<Rightarrow> bindR (GetFieldFloatValue_at ops rs i) (\<lambda>v. Inr (Some (N_Float v)))
      | CP_FLOAT64 \<Rightarrow> bindR (GetFieldDoubleValue_at ops rs i) (\<lambda>v. Inr (Some (N_Double v)))
      | CP_TEXT \<Rightarrow> bindR (GetFieldString_at ops rs i) (\<lambda>v. Inr (Some (N_Text v)))
      | CP_DATA \<Rightarrow> bindR (GetFieldBlob_at ops rs i) (\<lambda>v. Inr (Some (N_Data v)))
      | CP_STRUCT \<Rightarrow> Inr None
      | CP_OTHER \<Rightarrow> Inr None
      | _ \<Rightarrow> bindR (GetFieldInt_at ops rs i) (\<lambda>v. Inr (Some (N_Int v))))"

definition cp_store :: "('v, 'f) cp_ops \<Rightarrow> cp_type \<Rightarrow> 'f cp_native option \<Rightarrow> 'v cp_value \<Rightarrow> 'v cp_value res" where
  "cp_store cops t x v =
     (case x of None \<Rightarrow> Inr v | Some x \<Rightarrow> bindR (thrown (cp_set cops t x)) (\<lambda>v. Inr (CLeaf v)))"

text \<open>
  A struct has its own \<open>nFieldIndex\<close>, and a slot of \<open>arrIndex\<close> behind those of its fields. The array has
  256 slots and is not checked.
\<close>

fun cp_AddFirstReturnRecord ::
  "bool \<Rightarrow> ('v, 'f) cp_ops \<Rightarrow> ('c, 'f) cell_ops \<Rightarrow> 'c rset \<Rightarrow> nat \<Rightarrow> 'v cp_field list \<Rightarrow> nat list \<Rightarrow> nat \<Rightarrow>
    ('v cp_field list \<times> nat list \<times> nat) res" where
  "cp_AddFirstReturnRecord haslog cops ops rs nFieldIndex [] arrIndex nIndex = Inr ([], arrIndex, nIndex)"
| "cp_AddFirstReturnRecord haslog cops ops rs nFieldIndex (CField name t isset v # fs) arrIndex nIndex =
     (if \<not> isset then
        bindR (cp_AddFirstReturnRecord haslog cops ops rs nFieldIndex fs arrIndex nIndex) (\<lambda>(fs, out).
        Inr (CField name t isset v # fs, out))
      else
        bindR (if t = CP_STRUCT then
                 (case v of
                    CStruct sub \<Rightarrow>
                      bindR (cp_AddFirstReturnRecord haslog cops ops rs 0 sub arrIndex nIndex) (\<lambda>(sub, arrIndex, nIndex).
                      Inr (CStruct sub, nFieldIndex, arrIndex, nIndex))
                  | CLeaf _ \<Rightarrow> Inl Uncaught_Exception)
               else
                 bindR (cp_first_value haslog ops rs t name nFieldIndex) (\<lambda>(x, nFieldIndex).
                 bindR (cp_store cops t x v) (\<lambda>v. Inr (v, nFieldIndex, arrIndex, nIndex))))
          (\<lambda>(v, nFieldIndex, arrIndex, nIndex).
        bindR (wr arrIndex nIndex nFieldIndex) (\<lambda>arrIndex.
        bindR (cp_AddFirstReturnRecord haslog cops ops rs nFieldIndex fs arrIndex (Suc nIndex)) (\<lambda>(fs, out).
        Inr (CField name t isset v # fs, out)))))"

fun cp_AddReturnRecord ::
  "('v, 'f) cp_ops \<Rightarrow> ('c, 'f) cell_ops \<Rightarrow> 'c rset \<Rightarrow> 'v cp_field list \<Rightarrow> nat list \<Rightarrow> nat \<Rightarrow>
    ('v cp_field list \<times> nat) res" where
  "cp_AddReturnRecord cops ops rs [] arrIndex nIndex = Inr ([], nIndex)"
| "cp_AddReturnRecord cops ops rs (CField name t isset v # fs) arrIndex nIndex =
     (if \<not> isset then
        bindR (cp_AddReturnRecord cops ops rs fs arrIndex nIndex) (\<lambda>(fs, out). Inr (CField name t isset v # fs, out))
      else
        bindR (if t = CP_STRUCT then
                 (case v of
                    CStruct sub \<Rightarrow>
                      bindR (cp_AddReturnRecord cops ops rs sub arrIndex nIndex) (\<lambda>(sub, nIndex). Inr (CStruct sub, nIndex))
                  | CLeaf _ \<Rightarrow> Inl Uncaught_Exception)
               else if t = CP_OTHER then Inr (v, nIndex)
               else
                 bindR (rd arrIndex nIndex) (\<lambda>i. bindR (cp_next_value ops rs t i) (\<lambda>x.
                 bindR (cp_store cops t x v) (\<lambda>v. Inr (v, nIndex))))) (\<lambda>(v, nIndex).
        bindR (cp_AddReturnRecord cops ops rs fs arrIndex (Suc nIndex)) (\<lambda>(fs, out).
        Inr (CField name t isset v # fs, out))))"

function cp_rows ::
  "('v, 'f) cp_ops \<Rightarrow> ('c, 'f) cell_ops \<Rightarrow> 'v cp_field list \<Rightarrow> 'c rset \<Rightarrow> nat list \<Rightarrow> 'v cp_field list list \<Rightarrow>
    ('v cp_field list list \<times> 'c rset) res" where
  "cp_rows cops ops proto rs arrIndex vTmp =
     (case MoveNext rs of
        Inl e \<Rightarrow> Inl e
      | Inr (False, rs) \<Rightarrow> Inr (vTmp, rs)
      | Inr (True, rs) \<Rightarrow>
          bindR (cp_AddReturnRecord cops ops rs proto arrIndex 0) (\<lambda>(one_record, _).
          cp_rows cops ops proto rs arrIndex (vTmp @ [one_record])))"
  by pat_completeness auto
termination
  by (relation "measure (\<lambda>(_, _, _, rs, _). length (s_rows rs))") (auto dest: MoveNext_rows)

declare cp_rows.simps [simp del]

text \<open>
  The type of a field of the result: a list of structs, given by a new record, a struct, or another.
  A list is set when there are rows.
\<close>

datatype 'v cp_schema = S_List "'v cp_field list" | S_Struct "(string \<times> 'v cp_schema) list" | S_Other

definition cp_ParseResult ::
  "bool \<Rightarrow> ('v, 'f) cp_ops \<Rightarrow> ('c, 'f) cell_ops \<Rightarrow> 'c rset \<Rightarrow> 'v cp_schema \<Rightarrow>
    ('v cp_field list list option \<times> 'c rset) res" where
  "cp_ParseResult haslog cops ops rs sch =
     (case sch of
        S_List proto \<Rightarrow>
          let arrIndex = replicate 256 0
          in bindR (MoveNext rs) (\<lambda>(found, rs).
             bindR (if found then
                      bindR (cp_AddFirstReturnRecord haslog cops ops rs 0 proto arrIndex 0) (\<lambda>(one_record, arrIndex, _).
                      Inr (arrIndex, [one_record]))
                    else Inr (arrIndex, [])) (\<lambda>(arrIndex, vTmp).
             bindR (cp_rows cops ops proto rs arrIndex vTmp) (\<lambda>(vTmp, rs).
             Inr (if vTmp \<noteq> [] then Some vTmp else None, rs))))
      | _ \<Rightarrow> Inr (None, rs))"

fun cp_recordsets ::
  "bool \<Rightarrow> ('v, 'f) cp_ops \<Rightarrow> ('c, 'f) cell_ops \<Rightarrow> (string \<times> 'v cp_schema) list \<Rightarrow> 'c rset \<Rightarrow>
    (string \<times> 'v cp_field list list) list \<Rightarrow> ((string \<times> 'v cp_field list list) list \<times> 'c rset) res" where
  "cp_recordsets haslog cops ops [] rs out = Inr (out, rs)"
| "cp_recordsets haslog cops ops ((name, sch) # fs) rs out =
     bindR (cp_ParseResult haslog cops ops rs sch) (\<lambda>(rows, rs).
     let out = (case rows of None \<Rightarrow> out | Some rows \<Rightarrow> out @ [(name, rows)]);
         (more_sets, rs) = HasMoreResultSets rs
     in if \<not> more_sets then Inr (out, rs) else cp_recordsets haslog cops ops fs rs out)"

text \<open>
  \<open>ExecUpdate\<close> and \<open>ExecQuery\<close>. The name of the procedure is the name of the type without its prefix;
  \<open>Call\<close> executes the calls and gives the result set.
\<close>

definition cp_ExecUpdate ::
  "('v, 'f) cp_ops \<Rightarrow> ('f proc_call list \<Rightarrow> 'w \<Rightarrow> 'c rset \<times> 'w) \<Rightarrow> string \<Rightarrow> nat \<Rightarrow> 'v cp_field list \<Rightarrow> 'w \<Rightarrow> (bool \<times> 'w) res" where
  "cp_ExecUpdate cops Call full_proc_name proc_name_offset rootv w =
     bindR (cp_ParseProc cops (drop proc_name_offset full_proc_name) rootv) (\<lambda>proc.
     Inr (True, snd (Call proc w)))"

definition cp_ExecQuery ::
  "bool \<Rightarrow> ('v, 'f) cp_ops \<Rightarrow> ('c, 'f) cell_ops \<Rightarrow> ('f proc_call list \<Rightarrow> 'w \<Rightarrow> 'c rset \<times> 'w) \<Rightarrow> string \<Rightarrow> nat \<Rightarrow>
    'v cp_field list \<Rightarrow> (string \<Rightarrow> 'v cp_schema option) \<Rightarrow> 'w \<Rightarrow>
    (bool \<times> (string \<times> 'v cp_field list list) list \<times> 'w) res" where
  "cp_ExecQuery haslog cops ops Call full_proc_name proc_name_offset rootv findFieldByName w =
     bindR (cp_ParseProc cops (drop proc_name_offset full_proc_name) rootv) (\<lambda>proc.
     let (rs, w) = Call proc w
     in if \<not> s_opened rs then Inr (True, [], w)
        else case findFieldByName ''return_record_list'' of
               Some sch \<Rightarrow>
                 bindR (cp_ParseResult haslog cops ops rs sch) (\<lambda>(rows, rs).
                 Inr (True, case rows of None \<Rightarrow> [] | Some rows \<Rightarrow> [(''return_record_list'', rows)], w))
             | None \<Rightarrow>
                 (case findFieldByName ''return_recordsets'' of
                    Some (S_Struct fs) \<Rightarrow>
                      bindR (cp_recordsets haslog cops ops fs rs []) (\<lambda>(out, rs). Inr (True, out, w))
                  | _ \<Rightarrow> Inr (True, [], w)))"

section \<open>The engine and its stub\<close>

definition cp_OnInit :: "bool \<Rightarrow> string \<Rightarrow> string \<Rightarrow> string \<Rightarrow> string \<Rightarrow> int \<Rightarrow> engine res" where
  "cp_OnInit pLog sURL sUser sPass sSchema nPoolSize =
     bindR (ZdbDriver pLog sURL sUser sPass sSchema nPoolSize) (\<lambda>d. Inr \<lparr>en_driver = d, en_opened = False\<rparr>)"

definition cp_Open :: "('w, 'f, 'c) env \<Rightarrow> engine \<Rightarrow> 'w \<Rightarrow> (engine \<times> 'w) res option" where
  "cp_Open e en w =
     map_option (\<lambda>r. bindR r (\<lambda>(d, w). Inr (en\<lparr>en_driver := d, en_opened := True\<rparr>, w))) (open_loop e (en_driver en) w)"

definition cp_Close :: "engine \<Rightarrow> engine" where
  "cp_Close en = en\<lparr>en_driver := ZdbDriver_Close (en_driver en), en_opened := False\<rparr>"

text \<open>The stub holds a pointer to its engine, null before \<open>OnInit\<close> and after \<open>OnDelete\<close>.\<close>

record 's cp_stub =
  cs_engine :: "engine option"
  cs_mapSchema :: "64 word \<rightharpoonup> 's"

definition the_engine :: "'s cp_stub \<Rightarrow> engine res" where
  "the_engine st = (case cs_engine st of None \<Rightarrow> Inl Null_Dereference | Some en \<Rightarrow> Inr en)"

definition CapnpDbStub_OnInit ::
  "bool \<Rightarrow> string \<Rightarrow> string \<Rightarrow> string \<Rightarrow> string \<Rightarrow> int \<Rightarrow> 's cp_stub \<Rightarrow> 's cp_stub res" where
  "CapnpDbStub_OnInit pLog sURL sUser sPass sSchema nPoolSize st =
     bindR (cp_OnInit pLog sURL sUser sPass sSchema nPoolSize) (\<lambda>en. Inr (st\<lparr>cs_engine := Some en\<rparr>))"

definition CapnpDbStub_OnDelete :: "'s cp_stub \<Rightarrow> 's cp_stub" where
  "CapnpDbStub_OnDelete st = st\<lparr>cs_engine := None\<rparr>"

definition CapnpDbStub_Open ::
  "('w, 'f, 'c) env \<Rightarrow> 's cp_stub \<Rightarrow> 'w \<Rightarrow> ('s cp_stub \<times> 'w) res option" where
  "CapnpDbStub_Open e st w =
     (case the_engine st of
        Inl x \<Rightarrow> Some (Inl x)
      | Inr en \<Rightarrow> map_option (\<lambda>r. bindR r (\<lambda>(en, w). Inr (st\<lparr>cs_engine := Some en\<rparr>, w))) (cp_Open e en w))"

definition CapnpDbStub_Close :: "'s cp_stub \<Rightarrow> 's cp_stub res" where
  "CapnpDbStub_Close st = bindR (the_engine st) (\<lambda>en. Inr (st\<lparr>cs_engine := Some (cp_Close en)\<rparr>))"

definition AddSchema :: "64 word \<Rightarrow> 's \<Rightarrow> 's cp_stub \<Rightarrow> 's cp_stub" where
  "AddSchema uSchemaProtoId schema st = st\<lparr>cs_mapSchema := (cs_mapSchema st)(uSchemaProtoId \<mapsto> schema)\<rparr>"

text \<open>A schema that is not known is logged, through the driver of the engine.\<close>

definition CapnpDbStub_LookupPrototype :: "'s cp_stub \<Rightarrow> 64 word \<Rightarrow> 's option res" where
  "CapnpDbStub_LookupPrototype st uSchemaProtoId =
     (case cs_mapSchema st uSchemaProtoId of
        Some schema \<Rightarrow> Inr (Some schema)
      | None \<Rightarrow>
          bindR (the_engine st) (\<lambda>en.
          if d_log (en_driver en) then Inr None else Inl Null_Dereference))"

end
