(* ===== verification/Capnp_Properties.thy ===== *)
theory Capnp_Properties
  imports Capnp_Engine Stub_Properties
begin

text \<open>
  The properties of the engine on messages of Cap'n Proto, \<open>src/src/db/Capnp2DbEngine.cpp\<close>.
\<close>

section \<open>Parameters\<close>





section \<open>Records\<close>

text \<open>
  A new record: the library documents that \<open>has\<close> is true of every field that is no pointer, and false
  of a pointer that is null, as the texts, blobs and structs of a new record are.
\<close>

definition cp_pointer :: "cp_type \<Rightarrow> bool" where
  "cp_pointer t \<longleftrightarrow> t \<in> {CP_TEXT, CP_DATA, CP_STRUCT}"

fun cf_type :: "'v cp_field \<Rightarrow> cp_type" where
  "cf_type (CField name t isset v) = t"

fun cf_set :: "'v cp_field \<Rightarrow> bool" where
  "cf_set (CField name t isset v) = isset"

definition new_record :: "'v cp_field list \<Rightarrow> bool" where
  "new_record fs \<longleftrightarrow> list_all (\<lambda>f. cf_set f \<longleftrightarrow> \<not> cp_pointer (cf_type f)) fs"

definition pointers_kept :: "'v cp_field list \<Rightarrow> ('v cp_field list \<times> 'b) res \<Rightarrow> bool" where
  "pointers_kept fs m \<longleftrightarrow>
     (case m of
        Inl e \<Rightarrow> True
      | Inr (fs', _) \<Rightarrow> filter (cp_pointer \<circ> cf_type) fs' = filter (cp_pointer \<circ> cf_type) fs)"

lemma pointers_keptI:
  "(\<And>fs' out. m = Inr (fs', out) \<Longrightarrow> filter (cp_pointer \<circ> cf_type) fs' = filter (cp_pointer \<circ> cf_type) fs) \<Longrightarrow>
    pointers_kept fs m"
  by (auto simp: pointers_kept_def split: sum.split)

lemma pointers_keptD:
  "pointers_kept fs m \<Longrightarrow> m = Inr (fs', out) \<Longrightarrow> filter (cp_pointer \<circ> cf_type) fs' = filter (cp_pointer \<circ> cf_type) fs"
  by (simp add: pointers_kept_def)

text \<open>C40. A row is read into a new record without its texts, blobs and structs: these fields are skipped
  and keep their empty values, for the first row and for the later ones.\<close>

theorem cp_new_record_pointers:
  assumes "new_record fs"
  shows "pointers_kept fs (cp_AddFirstReturnRecord haslog cops ops rs nFieldIndex fs arrIndex nIndex) \<and>
    pointers_kept fs (cp_AddReturnRecord cops ops rs fs arrIndex nIndex)"
  using assms
proof (induction fs arbitrary: nFieldIndex arrIndex nIndex)
  case Nil
  then show ?case by (simp add: pointers_kept_def)
next
  case (Cons f fs)
  obtain name t isset v where f: "f = CField name t isset v" by (cases f)
  have fs: "new_record fs" "isset \<longleftrightarrow> \<not> cp_pointer t" using Cons.prems f by (simp_all add: new_record_def)
  note ih = Cons.IH [OF fs(1)]
  have kept: "filter (cp_pointer \<circ> cf_type) fs' = filter (cp_pointer \<circ> cf_type) fs"
    if "cp_AddFirstReturnRecord haslog cops ops rs nFieldIndex fs arrIndex nIndex = Inr (fs', out)"
    for nFieldIndex arrIndex nIndex fs' out
    using that ih [of nFieldIndex arrIndex nIndex] by (auto dest: pointers_keptD)
  have kept': "filter (cp_pointer \<circ> cf_type) fs' = filter (cp_pointer \<circ> cf_type) fs"
    if "cp_AddReturnRecord cops ops rs fs arrIndex nIndex = Inr (fs', out)" for arrIndex nIndex fs' out
    using that ih [of nFieldIndex arrIndex nIndex] by (auto dest: pointers_keptD)
  show ?case
  proof (cases "cp_pointer t")
    case True
    then show ?thesis using f fs(2) by (auto intro!: pointers_keptI simp: bindR_Inr_iff) (erule kept kept')+
  next
    case False
    then have "t \<noteq> CP_STRUCT" by (auto simp: cp_pointer_def)
    then show ?thesis using f fs(2) False
      by (auto intro!: pointers_keptI simp: bindR_Inr_iff split: if_split_asm) (erule kept kept')+
  qed
qed

text \<open>The number is read, the text stays empty although its column has a value.\<close>

definition sample_cp :: "(32 word + string, rat) cp_ops" where
  "sample_cp =
     \<lparr>cp_as = \<lambda>_ _. None,
      cp_set = \<lambda>_ x. case x of N_Int w \<Rightarrow> Some (Inl w) | N_Text (Some s) \<Rightarrow> Some (Inr s) | _ \<Rightarrow> None\<rparr>"

definition new_sample :: "(32 word + string) cp_field list" where
  "new_sample = [CField ''a'' CP_INT32 True (CLeaf (Inl 0)), CField ''s'' CP_TEXT False (CLeaf (Inr []))]"

definition new_sample_rows :: "int rset" where
  "new_sample_rows =
     \<lparr>s_cols = [(''a'', 3), (''s'', 253)], s_rows = [], s_row = [7, 8], s_more = [], s_opened = True, s_broken = False\<rparr>"

lemma cp_new_record_pointers_witness:
  "pointers_kept new_sample (cp_AddFirstReturnRecord False sample_cp (sample_ops\<lparr>c_string := \<lambda>_. Some ''x''\<rparr>)
      new_sample_rows 0 new_sample (replicate 256 0) 0) \<and>
   cp_AddFirstReturnRecord False sample_cp (sample_ops\<lparr>c_string := \<lambda>_. Some ''x''\<rparr>)
      new_sample_rows 0 new_sample (replicate 256 0) 0 =
     Inr ([CField ''a'' CP_INT32 True (CLeaf (Inl 7)), CField ''s'' CP_TEXT False (CLeaf (Inr []))],
       (replicate 256 0)[0 := 1], 1)"
proof (rule conjI)
  show "pointers_kept new_sample (cp_AddFirstReturnRecord False sample_cp (sample_ops\<lparr>c_string := \<lambda>_. Some ''x''\<rparr>)
      new_sample_rows 0 new_sample (replicate 256 0) 0)"
    by (rule cp_new_record_pointers [THEN conjunct1]) (simp add: new_record_def cp_pointer_def new_sample_def)
qed (simp_all add: new_sample_def sample_cp_def sample_ops_def new_sample_rows_def cp_first_value_def cp_store_def
    thrown_def GetFieldInt_def by_name_def Let_def)

end
