(* ===== verification/Spec2Isabelle.thy ===== *)
theory Spec2Isabelle
  imports Snprintf_Properties Base_Properties Proc_Properties Service_Properties Pool_Properties Mysql_Properties Capnp_Properties
begin

text \<open>
  Verification of pb-entity-db: a plugin that stores protobuf messages as rows of a MySQL database,
  and the string, memory and concurrency code it brings along. The program is C++ under
  \<open>src/src\<close>; \<open>src/include\<close> holds copies of its headers.

  The parts and how they interact. A client of \<open>DbService\<close> hands entities and stored procedures, as
  messages or as serialized strings, to a queue of commands (\<open>PbStubExecQueue.cpp\<close>). Worker threads
  take the commands; each owns a stub (\<open>ProtobufDbStub.cpp\<close>), which finds the message type through
  an importer (\<open>ProtobufImporter.cpp\<close>), parses the string and repeats an operation of the engine
  (\<open>Protobuf2DbEngine.cpp\<close>) until it succeeds. The engine collects the fields of the message, has
  the statement (\<open>ZdbConnectionPoolSession.cpp\<close>) build the SQL text with \<open>o_snprintf\<close>
  (\<open>mysnprintf.c\<close>), binds the values and reads the rows of the result back into messages.

  The theories, from the bottom.

  \<^item> \<open>Prelude\<close>: faults as the left side of a sum, the bind of results, reads and writes of buffers
    with bounds.
  \<^item> \<open>Fast_Memcpy\<close>: \<open>base/fast_memcpy.h\<close>, the copy by vector blocks on a memory of bytes.
  \<^item> \<open>Snprintf_Base\<close>, \<open>Snprintf_Table\<close>, \<open>Snprintf_Digits\<close>, \<open>Snprintf_Float\<close>, \<open>Snprintf_Format\<close>:
    \<open>base/mysnprintf.c\<close>, the output functions, the table of numerals, the digit loops, the floating
    point output over a parameter for the arithmetic, and the state machine of the formatter.
    \<open>Snprintf_Safety\<close> holds the lemmas on bounds, \<open>Snprintf_Fields\<close> what the states of the machine make
    of a conversion with flags, width, precision and modifier, and \<open>Snprintf_Pieces\<close> the texts of formats
    made of literals, fast conversions and such fields; \<open>Snprintf_Properties\<close> the properties.
  \<^item> \<open>Utilities\<close>, \<open>Url_Code\<close>: \<open>base/utilities.c\<close>, \<open>base/utilities.h\<close>, \<open>base/URLCode.cpp\<close>, with the
    properties in \<open>Base_Properties\<close>.
  \<^item> \<open>Pb_Message\<close>: what the code sees of protobuf messages, a list of fields with their descriptors
    and values, and the typed accessors of reflection.
  \<^item> \<open>Zdb_Session\<close>, \<open>Zdb_Result\<close>: the driver, the statement with its buffers of 4096 bytes, and the
    result set. libzdb and the server are the parameter \<open>env\<close>.
  \<^item> \<open>Db_Params\<close>, \<open>Db_Records\<close>, \<open>Db_Engine\<close>: \<open>db/Protobuf2DbEngine.cpp\<close>, from messages to bound
    parameters, from rows to messages, and the operations. \<open>Db_Operations\<close> has the locale
    \<open>statement\<close>, interpreted for the four kinds of statements, and \<open>Db_Properties\<close> and \<open>Proc_Properties\<close> the properties.
  \<^item> \<open>Pb_Importer\<close>, \<open>Db_Stub\<close>: the list of message files, the cache of messages, and the stub with
    its retries; properties in \<open>Stub_Properties\<close>.
  \<^item> \<open>Exec_Queue\<close>: the commands, the calls that queue them, the loop of the workers, and the step
    relation of the system, in which the steps of all threads interleave. \<open>Exec_Invariants\<close> has the
    invariant of the reachable states, through the locale \<open>invariant_system\<close>; \<open>Exec_Properties\<close> the
    properties.
  \<^item> \<open>Camel_Queue\<close>, \<open>Db_Service\<close>: the queue of functions the main thread runs
    (\<open>base/CamelConcurrentQueue.cpp\<close>, \<open>PbStubTrunkQueue.cpp\<close>) and the interface of the plugin
    (\<open>DbService.cpp\<close>) with the steps of the whole service; properties in \<open>Service_Properties\<close>.
  \<^item> \<open>Exec_Serial\<close>, \<open>Exec_Liveness\<close>: the workers implement a server that executes the commands one
    after the other (\<open>serve_all\<close>), and can execute all that was posted.
  \<^item> \<open>Pool_Properties\<close>: the connections the operations take from the pool and give back.
  \<^item> \<open>Mysql_Session\<close>, \<open>Mysql_Result\<close>: \<open>db/MySQLSession.cpp\<close>, an older driver over the C client library of
    MySQL, which is the parameter \<open>my_api\<close>: the parameters of a procedure as pointers the library reads
    at execution, the result set with its fixed slots, and the loops that reconnect. \<open>Mysql_Rows\<close> has
    the invariant \<open>rs_ok\<close> of an opened result set and the properties of the accessors,
    \<open>Mysql_Properties\<close> those of calls and reconnects.
  \<^item> \<open>Capnp_Engine\<close>: \<open>db/Capnp2DbEngine.cpp\<close> and \<open>db/CapnpDbStub.cpp\<close>, the engine on messages of Cap'n
    Proto, with the library of messages (\<open>cp_ops\<close>) and the call of the procedure as parameters; the
    calls the procedure gets are listed. \<open>Capnp_Properties\<close> has its properties.

  Conventions. A result of type \<open>res\<close> is a fault (a read or write out of bounds, a null pointer, a
  failed assertion, an exception nobody catches) or a value. An option around it is None when a loop
  does not end. The loops that may not end are partial functions; the others are functions with a
  measure, so no bound on their number of steps is chosen anywhere. Machine integers are words where
  their width matters.

  Not modelled. libzdb, the MySQL server, protobuf and the queue of moodycamel are third-party code:
  the first three are parameters, the queue is used as it documents. \<open>FlatBuffers2DbEngine.cpp\<close>
  is not part of the build, and its operations are commented out but for their skeleton. Log output,
  sleeping and the benchmark and test programs have no effect on what is stated here. The flag
  \<open>_done\<close> is read and written without a lock; it is taken to be atomic. A connection the
  pool cannot give is asked for again; an exception of libzdb while it is asked for is not modelled,
  and neither are the connections of operations that fault. The \<open>ParseProcOptions\<close> of the engine is called nowhere and has no effect.
\<close>

end
